(* ===== verification/Prelude.thy ===== *)
theory Prelude
  imports Main "HOL-Library.Word" "HOL-Library.Char_ord" "HOL-Library.List_Lexorder"
    "HOL-Library.Monad_Syntax"
begin

text \<open>
  Shared vocabulary of the development.

  \<^item> Machine integers: \<open>u8\<close>, \<open>u64\<close> and \<open>u256\<close> are words; a Rust \<open>Vec<u8>\<close> is a
    list of \<open>u8\<close>. A \<open>usize\<close> that only counts the elements of a vector is a \<open>nat\<close>.
  \<^item> A Rust \<open>String\<close> is a \<open>string\<close> whose characters are the bytes of its UTF-8
    encoding, so \<open>as_bytes\<close> is a map and Rust's order on strings (bytewise) is the
    lexicographic order of \<open>HOL-Library.List_Lexorder\<close>.
  \<^item> The result of a Rust call that may fail: \<open>Ok\<close> and \<open>Err\<close> are the constructors of
    \<open>Result\<close>, \<open>Panic\<close> is an \<open>unwrap\<close>, \<open>expect\<close>, \<open>panic!\<close> or an out-of-range access,
    \<open>Diverge\<close> is a call that never returns. A method with \<open>&mut self\<close> returns the
    outcome together with the state it leaves, also when it fails.
  \<^item> The generic lemmas on lists sorted by key on which the tree and the stores rest.
\<close>

section \<open>Machine integers, bytes and strings\<close>

type_synonym u8 = "8 word"
type_synonym u64 = "64 word"
type_synonym u256 = "256 word"
type_synonym bytes = "u8 list"

definition string_bytes :: "string \<Rightarrow> bytes" where
  "string_bytes s = map of_char s"

lemma unat_u64: "n < 2 ^ 64 \<Longrightarrow> unat (word_of_nat n :: u64) = n"
  by (simp add: unat_of_nat take_bit_nat_eq_self_iff)

text \<open>The slice method \<open>starts_with\<close>.\<close>

definition starts_with :: "bytes \<Rightarrow> bytes \<Rightarrow> bool" where
  "starts_with bs pre \<longleftrightarrow> take (length pre) bs = pre"

lemma of_char_u8_inj: "inj (of_char :: char \<Rightarrow> u8)"
proof (rule injI)
  fix c d :: char
  assume eq: "(of_char c :: u8) = of_char d"
  have small: "(of_char x :: nat) < 256" for x :: char
    by (metis of_char_mod_256 mod_less_divisor zero_less_numeral)
  have unat_of: "unat (of_char x :: u8) = (of_char x :: nat)" for x :: char
  proof -
    have "(of_char x :: u8) = word_of_nat (of_char x :: nat)"
      by (simp only: of_nat_of_char)
    then show ?thesis
      using small [of x] by (simp add: unat_of_nat take_bit_nat_eq_self_iff)
  qed
  have "(of_char c :: nat) = of_char d"
    using arg_cong [OF eq, of unat] by (simp only: unat_of)
  then show "c = d"
    by (metis char_of_char)
qed

lemma string_bytes_inj: "string_bytes s = string_bytes t \<longleftrightarrow> s = t"
  unfolding string_bytes_def by (rule inj_map_eq_map [OF of_char_u8_inj])

lemma string_bytes_simps [simp]:
  "string_bytes [] = []"
  "string_bytes (c # s) = of_char c # string_bytes s"
  "string_bytes (s @ t) = string_bytes s @ string_bytes t"
  "length (string_bytes s) = length s"
  by (simp_all add: string_bytes_def)


section \<open>Outcomes of fallible calls\<close>

datatype ('e, 'a) outcome = Ok 'a | Err 'e | Panic | Diverge

text \<open>The operator \<open>?\<close> of Rust: continue after \<open>Ok\<close>, hand on anything else with the
  state reached so far.\<close>

definition and_then ::
  "('e, 'a) outcome \<times> 's \<Rightarrow> ('a \<Rightarrow> 's \<Rightarrow> ('e, 'b) outcome \<times> 's) \<Rightarrow> ('e, 'b) outcome \<times> 's" where
  "and_then m f = (case m of
     (Ok a, s) \<Rightarrow> f a s
   | (Err e, s) \<Rightarrow> (Err e, s)
   | (Panic, s) \<Rightarrow> (Panic, s)
   | (Diverge, s) \<Rightarrow> (Diverge, s))"

text \<open>\<open>Result::map\<close> and \<open>Result::map_err\<close>.\<close>

fun map_ok :: "('a \<Rightarrow> 'b) \<Rightarrow> ('e, 'a) outcome \<Rightarrow> ('e, 'b) outcome" where
  "map_ok f (Ok a) = Ok (f a)"
| "map_ok f (Err e) = Err e"
| "map_ok f Panic = Panic"
| "map_ok f Diverge = Diverge"

fun map_err :: "('e \<Rightarrow> 'd) \<Rightarrow> ('e, 'a) outcome \<Rightarrow> ('d, 'a) outcome" where
  "map_err f (Ok a) = Ok a"
| "map_err f (Err e) = Err (f e)"
| "map_err f Panic = Panic"
| "map_err f Diverge = Diverge"

text \<open>\<open>Result::unwrap\<close> and \<open>expect\<close>: an error becomes a panic.\<close>

fun unwrap :: "('e, 'a) outcome \<Rightarrow> ('d, 'a) outcome" where
  "unwrap (Ok a) = Ok a"
| "unwrap (Err e) = Panic"
| "unwrap Panic = Panic"
| "unwrap Diverge = Diverge"

text \<open>The same on a call with its state.\<close>

definition expect :: "('e, 'a) outcome \<times> 's \<Rightarrow> ('d, 'a) outcome \<times> 's" where
  "expect m = (unwrap (fst m), snd m)"

fun is_ok :: "('e, 'a) outcome \<Rightarrow> bool" where
  "is_ok (Ok a) = True"
| "is_ok _ = False"

lemma and_then_simps [simp]:
  "and_then (Ok a, s) f = f a s"
  "and_then (Err e, s) f = (Err e, s)"
  "and_then (Panic, s) f = (Panic, s)"
  "and_then (Diverge, s) f = (Diverge, s)"
  by (simp_all add: and_then_def)

lemma and_then_Ok:
  "and_then m f = (Ok b, t) \<longleftrightarrow> (\<exists>a s. m = (Ok a, s) \<and> f a s = (Ok b, t))"
  by (cases m) (auto simp: and_then_def split: outcome.splits)

lemma map_ok_Ok [simp]: "map_ok f r = Ok b \<longleftrightarrow> (\<exists>a. r = Ok a \<and> b = f a)"
  by (cases r) auto

lemma map_err_Ok [simp]: "map_err f r = Ok b \<longleftrightarrow> r = Ok b"
  by (cases r) auto

lemma is_ok_iff: "is_ok r \<longleftrightarrow> (\<exists>a. r = Ok a)"
  by (cases r) auto

text \<open>Rust's \<open>Option::unwrap_or\<close>.\<close>

definition unwrap_or :: "'a \<Rightarrow> 'a option \<Rightarrow> 'a" where
  "unwrap_or d x = (case x of None \<Rightarrow> d | Some a \<Rightarrow> a)"

lemma unwrap_or_simps [simp]: "unwrap_or d None = d" "unwrap_or d (Some a) = a"
  by (simp_all add: unwrap_or_def)

text \<open>Rust's \<open>Option::filter\<close>.\<close>

definition opt_filter :: "('a \<Rightarrow> bool) \<Rightarrow> 'a option \<Rightarrow> 'a option" where
  "opt_filter P x = (case x of None \<Rightarrow> None | Some a \<Rightarrow> if P a then Some a else None)"

lemma opt_filter_simps [simp]:
  "opt_filter P None = None"
  "opt_filter P (Some a) = (if P a then Some a else None)"
  "opt_filter P (opt_filter P x) = opt_filter P x"
  by (auto simp: opt_filter_def split: option.splits)

lemma opt_filter_Some: "opt_filter P x = Some a \<longleftrightarrow> x = Some a \<and> P a"
  by (auto simp: opt_filter_def split: option.splits)

text \<open>Rust's \<open>Iterator::position\<close>.\<close>

fun position :: "('a \<Rightarrow> bool) \<Rightarrow> 'a list \<Rightarrow> nat option" where
  "position P [] = None"
| "position P (x # xs) = (if P x then Some 0 else map_option Suc (position P xs))"

lemma position_Some: "position P xs = Some i \<Longrightarrow> i < length xs \<and> P (xs ! i)"
  by (induction xs arbitrary: i) (auto split: if_splits)

lemma position_None: "position P xs = None \<longleftrightarrow> (\<forall>x \<in> set xs. \<not> P x)"
  by (induction xs) auto

text \<open>\<open>to_string\<close> of an unsigned integer.\<close>

fun dec_string :: "nat \<Rightarrow> string" where
  "dec_string n =
     (if n < 10 then [char_of (n + 48)] else dec_string (n div 10) @ [char_of (n mod 10 + 48)])"

declare dec_string.simps [simp del]


section \<open>Three-way comparison\<close>

text \<open>The \<open>Ordering\<close> returned by \<open>Ord::cmp\<close>.\<close>

datatype ordering = Less | Equal | Greater

definition cmp :: "'a::linorder \<Rightarrow> 'a \<Rightarrow> ordering" where
  "cmp a b = (if a < b then Less else if a = b then Equal else Greater)"

lemma cmp_simps [simp]:
  "a < b \<Longrightarrow> cmp a b = Less"
  "b < a \<Longrightarrow> cmp a b = Greater"
  "cmp a a = Equal"
  by (auto simp: cmp_def)

lemma cmp_cases:
  obtains (less) "a < b" "cmp a b = Less" | (equal) "a = b" "cmp a b = Equal"
    | (greater) "b < a" "cmp a b = Greater"
  by (cases a b rule: linorder_cases) auto


section \<open>Association lists sorted by key\<close>

text \<open>
  The abstract value of a search tree: the list of its entries in order. An insertion
  replaces the entries at the key, a removal drops them.
\<close>

definition sorted_keys :: "('k::linorder \<times> 'v) list \<Rightarrow> bool" where
  "sorted_keys xs \<longleftrightarrow> sorted_wrt (<) (map fst xs)"

definition upd_entry :: "'k::linorder \<Rightarrow> 'v \<Rightarrow> ('k \<times> 'v) list \<Rightarrow> ('k \<times> 'v) list" where
  "upd_entry k v xs = filter (\<lambda>e. fst e < k) xs @ (k, v) # filter (\<lambda>e. k < fst e) xs"

definition del_entry :: "'k \<Rightarrow> ('k \<times> 'v) list \<Rightarrow> ('k \<times> 'v) list" where
  "del_entry k xs = filter (\<lambda>e. fst e \<noteq> k) xs"

lemma sorted_keys_Nil [simp]: "sorted_keys []"
  by (simp add: sorted_keys_def)

lemma sorted_keys_Cons [simp]:
  "sorted_keys (e # xs) \<longleftrightarrow> (\<forall>x \<in> set xs. fst e < fst x) \<and> sorted_keys xs"
  by (simp add: sorted_keys_def)

lemma sorted_keys_append [simp]:
  "sorted_keys (xs @ ys) \<longleftrightarrow>
     sorted_keys xs \<and> sorted_keys ys \<and> (\<forall>x \<in> set xs. \<forall>y \<in> set ys. fst x < fst y)"
  by (auto simp: sorted_keys_def sorted_wrt_append)

lemma sorted_keys_distinct: "sorted_keys xs \<Longrightarrow> distinct (map fst xs)"
  by (simp add: sorted_keys_def strict_sorted_iff)

lemma sorted_keys_filter: "sorted_keys xs \<Longrightarrow> sorted_keys (filter P xs)"
  by (induction xs) auto

lemma sorted_upd_entry: "sorted_keys xs \<Longrightarrow> sorted_keys (upd_entry k v xs)"
  by (auto simp: upd_entry_def sorted_keys_filter)

lemma sorted_del_entry: "sorted_keys xs \<Longrightarrow> sorted_keys (del_entry k xs)"
  by (simp add: del_entry_def sorted_keys_filter)

lemma map_of_filter_key: "map_of (filter (\<lambda>e. P (fst e)) xs) j = (if P j then map_of xs j else None)"
  by (induction xs) auto

lemma map_of_upd_entry: "map_of (upd_entry k v xs) = (map_of xs)(k \<mapsto> v)"
proof (rule ext)
  fix j
  show "map_of (upd_entry k v xs) j = ((map_of xs)(k \<mapsto> v)) j"
    using map_of_filter_key [of "\<lambda>x. x < k" xs] map_of_filter_key [of "\<lambda>x. k < x" xs]
    by (auto simp: upd_entry_def map_add_def split: option.splits)
qed

lemma map_of_del_entry: "map_of (del_entry k xs) = (map_of xs)(k := None)"
  using map_of_filter_key [of "\<lambda>x. x \<noteq> k" xs] by (auto simp: del_entry_def fun_eq_iff)

lemma filter_below_all: "\<forall>x \<in> set xs. fst x < k \<Longrightarrow> filter (\<lambda>e. fst e < k) xs = xs"
  by (simp add: filter_id_conv)

lemma filter_above_all: "\<forall>x \<in> set xs. (k::'k::linorder) < fst x \<Longrightarrow> filter (\<lambda>e. k < fst e) xs = xs"
  by (simp add: filter_id_conv)

lemma filter_below_none: "\<forall>x \<in> set xs. (k::'k::linorder) < fst x \<Longrightarrow> filter (\<lambda>e. fst e < k) xs = []"
  by (auto simp: filter_empty_conv)

lemma filter_above_none: "\<forall>x \<in> set xs. fst x < (k::'k::linorder) \<Longrightarrow> filter (\<lambda>e. k < fst e) xs = []"
  by (auto simp: filter_empty_conv)

lemma map_of_below: "\<forall>x \<in> set xs. fst x < (k::'k::linorder) \<Longrightarrow> map_of xs k = None"
  by (auto simp: map_of_eq_None_iff)

lemma map_of_above: "\<forall>x \<in> set xs. (k::'k::linorder) < fst x \<Longrightarrow> map_of xs k = None"
  by (auto simp: map_of_eq_None_iff)

lemma del_entry_fresh: "k \<notin> fst ` set xs \<Longrightarrow> del_entry k xs = xs"
  by (auto simp: del_entry_def filter_id_conv)

lemma del_entry_append: "del_entry k (xs @ ys) = del_entry k xs @ del_entry k ys"
  by (simp add: del_entry_def)

lemma del_entry_Cons:
  "del_entry k (e # xs) = (if fst e = k then del_entry k xs else e # del_entry k xs)"
  by (simp add: del_entry_def)

lemmas entry_filters = filter_below_all filter_above_all filter_below_none filter_above_none

text \<open>How the three operations act on a list split at an entry.\<close>

lemma upd_entry_split:
  assumes "\<forall>e \<in> set xs. fst e < k" and "\<forall>e \<in> set ys. k < fst e"
  shows "key < k \<Longrightarrow> upd_entry key value (xs @ (k, v) # ys) = upd_entry key value xs @ (k, v) # ys"
    and "k < key \<Longrightarrow> upd_entry key value (xs @ (k, v) # ys) = xs @ (k, v) # upd_entry key value ys"
    and "upd_entry k value (xs @ (k, v) # ys) = xs @ (k, value) # ys"
proof -
  show "upd_entry key value (xs @ (k, v) # ys) = upd_entry key value xs @ (k, v) # ys"
    if "key < k"
  proof -
    have "\<forall>e \<in> set ys. key < fst e" using assms(2) that by (auto dest: less_trans)
    then show ?thesis using that by (simp add: upd_entry_def entry_filters)
  qed
  show "upd_entry key value (xs @ (k, v) # ys) = xs @ (k, v) # upd_entry key value ys"
    if "k < key"
  proof -
    have "\<forall>e \<in> set xs. fst e < key" using assms(1) that by (auto dest: less_trans)
    then show ?thesis using that by (simp add: upd_entry_def entry_filters)
  qed
  show "upd_entry k value (xs @ (k, v) # ys) = xs @ (k, value) # ys"
    using assms by (simp add: upd_entry_def entry_filters)
qed

lemma map_of_split:
  assumes "\<forall>e \<in> set xs. fst e < (k::'k::linorder)" and "\<forall>e \<in> set ys. k < fst e"
  shows "key < k \<Longrightarrow> map_of (xs @ (k, v) # ys) key = map_of xs key"
    and "k < key \<Longrightarrow> map_of (xs @ (k, v) # ys) key = map_of ys key"
    and "map_of (xs @ (k, v) # ys) k = Some v"
proof -
  show "map_of (xs @ (k, v) # ys) key = map_of xs key" if "key < k"
  proof -
    have "map_of ys key = None" using assms(2) that by (intro map_of_above) (auto dest: less_trans)
    then show ?thesis using that by (auto simp: map_add_def split: option.splits)
  qed
  show "map_of (xs @ (k, v) # ys) key = map_of ys key" if "k < key"
  proof -
    have "map_of xs key = None" using assms(1) that by (intro map_of_below) (auto dest: less_trans)
    then show ?thesis using that by (auto simp: map_add_def split: option.splits)
  qed
  show "map_of (xs @ (k, v) # ys) k = Some v"
    using map_of_below [OF assms(1)] by (simp add: map_add_def)
qed

lemma del_entry_split:
  assumes "\<forall>e \<in> set xs. fst e < (k::'k::linorder)" and "\<forall>e \<in> set ys. k < fst e"
  shows "key < k \<Longrightarrow> del_entry key (xs @ (k, v) # ys) = del_entry key xs @ (k, v) # ys"
    and "k < key \<Longrightarrow> del_entry key (xs @ (k, v) # ys) = xs @ (k, v) # del_entry key ys"
    and "del_entry k (xs @ (k, v) # ys) = xs @ ys"
proof -
  have fresh: "k \<notin> fst ` set xs" "k \<notin> fst ` set ys" using assms by auto
  then show "del_entry k (xs @ (k, v) # ys) = xs @ ys"
    by (simp add: del_entry_append del_entry_Cons del_entry_fresh)
  show "del_entry key (xs @ (k, v) # ys) = del_entry key xs @ (k, v) # ys" if "key < k"
  proof -
    have "key \<notin> fst ` set ys" using assms(2) that by auto
    then show ?thesis using that by (simp add: del_entry_append del_entry_Cons del_entry_fresh)
  qed
  show "del_entry key (xs @ (k, v) # ys) = xs @ (k, v) # del_entry key ys" if "k < key"
  proof -
    have "key \<notin> fst ` set xs" using assms(1) that by auto
    then show ?thesis using that by (simp add: del_entry_append del_entry_Cons del_entry_fresh)
  qed
qed

lemmas entry_splits = upd_entry_split del_entry_split map_of_split [simplified]

end
