(* ===== verification/Avl_Node.thy ===== *)
theory Avl_Node
  imports Prelude
begin

text \<open>
  The node of the AVL Merkle tree: \<open>basecoin/store/src/avl/node.rs\<close>, the constants of
  \<open>avl/proof.rs\<close> and the rotations and rebalancing of \<open>avl/tree.rs\<close>.

  A \<open>NodeRef<K, V>\<close> is \<open>Option<Box<AvlNode<K, V>>>\<close>; \<open>node_ref\<close> merges the option with
  the struct, its fields in the order of the source. The value type is the \<open>Vec<u8>\<close> of
  the program's \<open>State\<close>. Two things the node needs are not under \<open>src/\<close> or differ by key
  type and are parameters: \<open>sha\<close>, the SHA-256 digest of the \<open>sha2\<close> crate, and \<open>ab\<close>, the
  \<open>AsBytes\<close> implementation of the key type. A digest has 32 bytes by its type, so the
  \<open>Hash::from_bytes(..).unwrap()\<close> calls of the source cannot fail and a \<open>Hash\<close> is its bytes.

  The stored heights are \<open>u32\<close> in the source and natural numbers here;
  \<open>balance_factor_i32\<close> is the code's arithmetic at its width, and a theorem of the theory
  \<open>Avl_Balance\<close> shows that the two agree on every tree of fewer than \<open>2 ^ 31\<close> entries.
  A panic (\<open>expect\<close> on an empty child) is the result \<open>None\<close>.
\<close>

section \<open>Constants of the proof format\<close>

definition LEAF_PREFIX :: bytes where
  "LEAF_PREFIX = replicate 64 0"

definition EMPTY_CHILD :: bytes where
  "EMPTY_CHILD = replicate 32 0"


section \<open>Nodes\<close>

datatype 'k node_ref =
    Empty
  | Node 'k bytes bytes bytes nat "'k node_ref" "'k node_ref"

definition local_hash :: "(bytes \<Rightarrow> bytes) \<Rightarrow> ('k \<Rightarrow> bytes) \<Rightarrow> 'k \<Rightarrow> bytes \<Rightarrow> bytes" where
  "local_hash sha ab k v = sha (LEAF_PREFIX @ ab k @ v)"

definition new_node :: "(bytes \<Rightarrow> bytes) \<Rightarrow> ('k \<Rightarrow> bytes) \<Rightarrow> 'k \<Rightarrow> bytes \<Rightarrow> 'k node_ref" where
  "new_node sha ab k v =
     (let hash = sha (LEAF_PREFIX @ ab k @ v);
          merkle_hash = sha (EMPTY_CHILD @ hash @ EMPTY_CHILD)
      in Node k v hash merkle_hash 0 Empty Empty)"

definition as_node_ref :: "(bytes \<Rightarrow> bytes) \<Rightarrow> ('k \<Rightarrow> bytes) \<Rightarrow> 'k \<Rightarrow> bytes \<Rightarrow> 'k node_ref" where
  "as_node_ref sha ab k v = new_node sha ab k v"

fun stored_height :: "'k node_ref \<Rightarrow> nat option" where
  "stored_height Empty = None"
| "stored_height (Node k v h m ht l r) = Some ht"

fun stored_merkle :: "'k node_ref \<Rightarrow> bytes option" where
  "stored_merkle Empty = None"
| "stored_merkle (Node k v h m ht l r) = Some m"

fun left_height :: "'k node_ref \<Rightarrow> nat option" where
  "left_height Empty = None"
| "left_height (Node k v h m ht l r) = stored_height l"

fun right_height :: "'k node_ref \<Rightarrow> nat option" where
  "right_height Empty = None"
| "right_height (Node k v h m ht l r) = stored_height r"

fun left_hash :: "'k node_ref \<Rightarrow> bytes option" where
  "left_hash Empty = None"
| "left_hash (Node k v h m ht l r) = stored_merkle l"

fun right_hash :: "'k node_ref \<Rightarrow> bytes option" where
  "right_hash Empty = None"
| "right_hash (Node k v h m ht l r) = stored_merkle r"

text \<open>\<open>set_value\<close> recomputes the local hash only and returns the old value; the Merkle hash
  is brought up to date by the \<open>update\<close> that follows in \<open>insert_rec\<close>.\<close>

fun set_value :: "(bytes \<Rightarrow> bytes) \<Rightarrow> ('k \<Rightarrow> bytes) \<Rightarrow> bytes \<Rightarrow> 'k node_ref \<Rightarrow> bytes option \<times> 'k node_ref" where
  "set_value sha ab v' Empty = (None, Empty)"
| "set_value sha ab v' (Node k v h m ht l r) =
     (Some v, Node k v' (local_hash sha ab k v') m ht l r)"

fun update_height :: "'k node_ref \<Rightarrow> 'k node_ref" where
  "update_height Empty = Empty"
| "update_height (Node k v h m ht l r) =
     Node k v h m
       (case stored_height r of
          None \<Rightarrow> (case stored_height l of None \<Rightarrow> 0 | Some lh \<Rightarrow> lh + 1)
        | Some rh \<Rightarrow> (case stored_height l of None \<Rightarrow> rh + 1 | Some lh \<Rightarrow> max lh rh + 1))
       l r"

fun update_hashes :: "(bytes \<Rightarrow> bytes) \<Rightarrow> 'k node_ref \<Rightarrow> 'k node_ref" where
  "update_hashes sha Empty = Empty"
| "update_hashes sha (Node k v h m ht l r) =
     Node k v h
       (sha (unwrap_or EMPTY_CHILD (stored_merkle l) @ h @ unwrap_or EMPTY_CHILD (stored_merkle r)))
       ht l r"

definition update :: "(bytes \<Rightarrow> bytes) \<Rightarrow> 'k node_ref \<Rightarrow> 'k node_ref" where
  "update sha n = update_height (update_hashes sha n)"

definition balance_factor :: "'k node_ref \<Rightarrow> int" where
  "balance_factor n = (case (left_height n, right_height n) of
     (None, None) \<Rightarrow> 0
   | (None, Some h) \<Rightarrow> - int h
   | (Some h, None) \<Rightarrow> int h
   | (Some hl, Some hr) \<Rightarrow> int hl - int hr)"

text \<open>The same method at the code's width: heights are \<open>u32\<close>, cast to \<open>i32\<close>, and the
  subtraction and negation wrap around.\<close>

definition balance_factor_i32 :: "'k node_ref \<Rightarrow> 32 word" where
  "balance_factor_i32 n = (case (left_height n, right_height n) of
     (None, None) \<Rightarrow> 0
   | (None, Some h) \<Rightarrow> - word_of_nat h
   | (Some h, None) \<Rightarrow> word_of_nat h
   | (Some hl, Some hr) \<Rightarrow> word_of_nat hl - word_of_nat hr)"


section \<open>Rotations and rebalancing\<close>

fun rotate_right :: "(bytes \<Rightarrow> bytes) \<Rightarrow> 'k node_ref \<Rightarrow> 'k node_ref option" where
  "rotate_right sha (Node k v h m ht (Node lk lv lh lm lht ll lr) r) =
     (let node = update sha (Node k v h m ht lr r)
      in Some (update sha (Node lk lv lh lm lht ll node)))"
| "rotate_right sha (Node k v h m ht Empty r) = None"
| "rotate_right sha Empty = None"

fun rotate_left :: "(bytes \<Rightarrow> bytes) \<Rightarrow> 'k node_ref \<Rightarrow> 'k node_ref option" where
  "rotate_left sha (Node k v h m ht l (Node rk rv rh rm rht rl rr)) =
     (let node = update sha (Node k v h m ht l rl)
      in Some (update sha (Node rk rv rh rm rht node rr)))"
| "rotate_left sha (Node k v h m ht l Empty) = None"
| "rotate_left sha Empty = None"

fun balance_node :: "(bytes \<Rightarrow> bytes) \<Rightarrow> 'k node_ref \<Rightarrow> 'k node_ref option" where
  "balance_node sha Empty = None"
| "balance_node sha (Node k v h m ht l r) =
     (let bf = balance_factor (Node k v h m ht l r) in
      if 2 \<le> bf then
        (if l = Empty then None
         else do {
           l' \<leftarrow> (if balance_factor l < 1 then rotate_left sha l else Some l);
           rotate_right sha (Node k v h m ht l' r)
         })
      else if bf \<le> -2 then
        (if r = Empty then None
         else do {
           r' \<leftarrow> (if -1 < balance_factor r then rotate_right sha r else Some r);
           rotate_left sha (Node k v h m ht l r')
         })
      else Some (Node k v h m ht l r))"


section \<open>Well-formed nodes\<close>

text \<open>
  \<open>ht\<close> and \<open>mh\<close> read the stored height and Merkle hash with the defaults the code uses for
  an absent child. \<open>integrity\<close> says that every stored field is what the code recomputes
  from the entry and the children.
\<close>

definition ht :: "'k node_ref \<Rightarrow> nat" where
  "ht t = unwrap_or 0 (stored_height t)"

definition mh :: "'k node_ref \<Rightarrow> bytes" where
  "mh t = unwrap_or EMPTY_CHILD (stored_merkle t)"

definition node_height :: "'k node_ref \<Rightarrow> 'k node_ref \<Rightarrow> nat" where
  "node_height l r = (if l = Empty \<and> r = Empty then 0 else max (ht l) (ht r) + 1)"

fun integrity :: "(bytes \<Rightarrow> bytes) \<Rightarrow> ('k \<Rightarrow> bytes) \<Rightarrow> 'k node_ref \<Rightarrow> bool" where
  "integrity sha ab Empty = True"
| "integrity sha ab (Node k v h m n l r) =
     (h = local_hash sha ab k v \<and> m = sha (mh l @ h @ mh r) \<and> n = node_height l r \<and>
      integrity sha ab l \<and> integrity sha ab r)"

fun inorder :: "'k node_ref \<Rightarrow> ('k \<times> bytes) list" where
  "inorder Empty = []"
| "inorder (Node k v h m n l r) = inorder l @ (k, v) # inorder r"

definition bst :: "'k::linorder node_ref \<Rightarrow> bool" where
  "bst t \<longleftrightarrow> sorted_keys (inorder t)"

lemma ht_simps [simp]: "ht Empty = 0" "ht (Node k v h m n l r) = n"
  by (simp_all add: ht_def)

lemma mh_simps [simp]: "mh Empty = EMPTY_CHILD" "mh (Node k v h m n l r) = m"
  by (simp_all add: mh_def)

lemma node_height_ge: "ht l \<le> node_height l r" "ht r \<le> node_height l r"
  by (auto simp: node_height_def)

lemma node_height_cases [simp]:
  "node_height Empty Empty = 0"
  "node_height (Node k v h m n l r) t = max n (ht t) + 1"
  "node_height t (Node k v h m n l r) = max (ht t) n + 1"
  by (auto simp: node_height_def)

lemma update_Node [simp]:
  "update sha (Node k v h m n l r) = Node k v h (sha (mh l @ h @ mh r)) (node_height l r) l r"
  by (cases l; cases r) (auto simp: update_def mh_def)

lemma balance_factor_Node [simp]:
  "balance_factor (Node k v h m n l r) = int (ht l) - int (ht r)"
  by (cases l; cases r) (auto simp: balance_factor_def)

lemma new_node_integrity [simp]: "integrity sha ab (new_node sha ab k v)"
  by (simp add: new_node_def Let_def local_hash_def)

lemma new_node_inorder [simp]: "inorder (new_node sha ab k v) = [(k, v)]"
  by (simp add: new_node_def Let_def)

lemma new_node_not_Empty [simp]: "new_node sha ab k v \<noteq> Empty"
  by (simp add: new_node_def Let_def)

lemma ht_new_node [simp]: "ht (new_node sha ab k v) = 0"
  by (simp add: new_node_def Let_def)

text \<open>A tree whose stored height is positive has a child of the height below.\<close>

lemma integrity_ht_pos:
  assumes "integrity sha ab (Node k v h m n l r)" and "0 < n"
  shows "max (ht l) (ht r) + 1 = n" and "l \<noteq> Empty \<or> r \<noteq> Empty"
  using assms by (auto simp: node_height_def split: if_splits)


section \<open>Rotations keep the entries and the integrity\<close>

lemma rotate_right_Some:
  assumes "rotate_right sha t = Some t'"
  shows "inorder t' = inorder t"
    and "integrity sha ab l \<Longrightarrow> integrity sha ab r \<Longrightarrow> h = local_hash sha ab k v \<Longrightarrow>
         t = Node k v h m n l r \<Longrightarrow> integrity sha ab t'"
  using assms by (cases "(sha, t)" rule: rotate_right.cases; auto simp: Let_def)+

lemma rotate_left_Some:
  assumes "rotate_left sha t = Some t'"
  shows "inorder t' = inorder t"
    and "integrity sha ab l \<Longrightarrow> integrity sha ab r \<Longrightarrow> h = local_hash sha ab k v \<Longrightarrow>
         t = Node k v h m n l r \<Longrightarrow> integrity sha ab t'"
  using assms by (cases "(sha, t)" rule: rotate_left.cases; auto simp: Let_def)+

lemma rotate_left_integrity:
  "rotate_left sha t = Some t' \<Longrightarrow> integrity sha ab t \<Longrightarrow> integrity sha ab t'"
  by (cases t) (auto intro: rotate_left_Some)

lemma rotate_right_integrity:
  "rotate_right sha t = Some t' \<Longrightarrow> integrity sha ab t \<Longrightarrow> integrity sha ab t'"
  by (cases t) (auto intro: rotate_right_Some)

lemma rotate_not_Empty:
  "rotate_left sha t = Some t' \<Longrightarrow> t' \<noteq> Empty"
  "rotate_right sha t = Some t' \<Longrightarrow> t' \<noteq> Empty"
  by (cases "(sha, t)" rule: rotate_left.cases; auto simp: Let_def)
     (cases "(sha, t)" rule: rotate_right.cases; auto simp: Let_def)

lemma rotate_left_defined: "r \<noteq> Empty \<Longrightarrow> \<exists>t'. rotate_left sha (Node k v h m n l r) = Some t'"
  by (cases r) (auto simp: Let_def)

lemma rotate_right_defined: "l \<noteq> Empty \<Longrightarrow> \<exists>t'. rotate_right sha (Node k v h m n l r) = Some t'"
  by (cases l) (auto simp: Let_def)

text \<open>
  Rebalancing cannot panic on children with integrity: a balance factor of 2 needs a left
  child of height at least 2, and if that child leans right or not at all its right child
  has height at least 1, so both rotations find the node they need.
\<close>

lemma balance_left_child:
  assumes "integrity sha ab l" and "2 \<le> ht l" and "balance_factor l < 1"
  shows "\<exists>l'. rotate_left sha l = Some l'"
proof (cases l)
  case Empty
  with assms(2) show ?thesis by simp
next
  case (Node k v h m n ll lr)
  have "max (ht ll) (ht lr) + 1 = n"
    using integrity_ht_pos(1) [of sha ab k v h m n ll lr] assms(1,2) Node by simp
  then have "0 < ht lr" using assms(2,3) Node by (auto simp: max_def split: if_splits)
  then have "lr \<noteq> Empty" by auto
  then show ?thesis unfolding Node by (rule rotate_left_defined)
qed

lemma balance_right_child:
  assumes "integrity sha ab r" and "2 \<le> ht r" and "-1 < balance_factor r"
  shows "\<exists>r'. rotate_right sha r = Some r'"
proof (cases r)
  case Empty
  with assms(2) show ?thesis by simp
next
  case (Node k v h m n rl rr)
  have "max (ht rl) (ht rr) + 1 = n"
    using integrity_ht_pos(1) [of sha ab k v h m n rl rr] assms(1,2) Node by simp
  then have "0 < ht rl" using assms(2,3) Node by (auto simp: max_def split: if_splits)
  then have "rl \<noteq> Empty" by auto
  then show ?thesis unfolding Node by (rule rotate_right_defined)
qed

lemma balance_node_Some:
  assumes l: "integrity sha ab l" and r: "integrity sha ab r" and h: "h = local_hash sha ab k v"
    and n: "n = node_height l r" and m: "m = sha (mh l @ h @ mh r)"
  shows "\<exists>t'. balance_node sha (Node k v h m n l r) = Some t' \<and> integrity sha ab t' \<and>
           inorder t' = inorder (Node k v h m n l r) \<and> t' \<noteq> Empty"
proof -
  consider (L) "2 \<le> int (ht l) - int (ht r)" | (R) "int (ht l) - int (ht r) \<le> -2"
    | (B) "\<not> 2 \<le> int (ht l) - int (ht r)" "\<not> int (ht l) - int (ht r) \<le> -2" by linarith
  then show ?thesis
  proof cases
    case L
    then have ne: "l \<noteq> Empty" and big: "2 \<le> ht l" by auto
    obtain l' where l': "(if balance_factor l < 1 then rotate_left sha l else Some l) = Some l'"
      using balance_left_child [OF l big] by (cases "balance_factor l < 1") auto
    then have il': "integrity sha ab l'" "inorder l' = inorder l" "l' \<noteq> Empty"
      using l ne by (auto split: if_splits
        dest: rotate_left_Some(1) rotate_left_integrity rotate_not_Empty(1))
    obtain t' where t': "rotate_right sha (Node k v h m n l' r) = Some t'"
      using rotate_right_defined [OF il'(3)] by blast
    have "balance_node sha (Node k v h m n l r) = Some t'"
      using L ne l' t' by (simp add: Let_def)
    then show ?thesis
      using rotate_right_Some(1) [OF t'] rotate_right_Some(2) [OF t' il'(1) r h]
        rotate_not_Empty(2) [OF t'] il' by auto
  next
    case R
    then have ne: "r \<noteq> Empty" and big: "2 \<le> ht r" by auto
    obtain r' where r': "(if -1 < balance_factor r then rotate_right sha r else Some r) = Some r'"
      using balance_right_child [OF r big] by (cases "-1 < balance_factor r") auto
    then have ir': "integrity sha ab r'" "inorder r' = inorder r" "r' \<noteq> Empty"
      using r ne by (auto split: if_splits
        dest: rotate_right_Some(1) rotate_right_integrity rotate_not_Empty(2))
    obtain t' where t': "rotate_left sha (Node k v h m n l r') = Some t'"
      using rotate_left_defined [OF ir'(3)] by blast
    have "balance_node sha (Node k v h m n l r) = Some t'"
      using R ne r' t' by (simp add: Let_def)
    then show ?thesis
      using rotate_left_Some(1) [OF t'] rotate_left_Some(2) [OF t' l ir'(1) h]
        rotate_not_Empty(1) [OF t'] ir' by auto
  next
    case B
    then show ?thesis using assms by (simp add: Let_def)
  qed
qed

lemma balance_update_Some:
  assumes "integrity sha ab l" and "integrity sha ab r" and "h = local_hash sha ab k v"
  obtains t' where "balance_node sha (update sha (Node k v h m n l r)) = Some t'"
    and "integrity sha ab t'" and "inorder t' = inorder l @ (k, v) # inorder r" and "t' \<noteq> Empty"
  using balance_node_Some [OF assms refl refl] by auto

end
