(* ===== verification/Avl_Tree.thy ===== *)
theory Avl_Tree
  imports Avl_Node
begin

text \<open>
  The AVL tree of \<open>basecoin/store/src/avl/tree.rs\<close>: \<open>get\<close>, \<open>insert\<close>, \<open>remove\<close> and
  \<open>get_keys\<close>. A method that mutates through \<open>&mut NodeRef\<close> returns the new \<open>node_ref\<close>
  beside its value; \<open>None\<close> is a panic. The lemmas show that neither insertion nor removal
  panics on a tree with integrity, that both keep the integrity and the order, and what
  they do to the list of entries; the locale \<open>merkle_map\<close> is the interface the stores use.
\<close>

section \<open>The operations\<close>

record 'k avl_tree =
  root :: "'k node_ref"

definition avl_new :: "'k avl_tree" where
  "avl_new = \<lparr>root = Empty\<rparr>"

definition avl_root_hash :: "'k avl_tree \<Rightarrow> bytes option" where
  "avl_root_hash t = stored_merkle (root t)"

fun get_rec :: "'k::linorder \<Rightarrow> 'k node_ref \<Rightarrow> bytes option" where
  "get_rec key Empty = None"
| "get_rec key (Node k v h m n l r) = (case cmp k key of
     Greater \<Rightarrow> get_rec key l
   | Less \<Rightarrow> get_rec key r
   | Equal \<Rightarrow> Some v)"

definition avl_get :: "'k::linorder \<Rightarrow> 'k avl_tree \<Rightarrow> bytes option" where
  "avl_get key t = get_rec key (root t)"

fun insert_rec ::
  "(bytes \<Rightarrow> bytes) \<Rightarrow> ('k::linorder \<Rightarrow> bytes) \<Rightarrow> 'k \<Rightarrow> bytes \<Rightarrow> 'k node_ref \<Rightarrow>
   (bytes option \<times> 'k node_ref) option" where
  "insert_rec sha ab key value Empty = Some (None, as_node_ref sha ab key value)"
| "insert_rec sha ab key value (Node k v h m n l r) = do {
     (old_value, node) \<leftarrow> (case cmp k key of
         Greater \<Rightarrow> do { (old, l') \<leftarrow> insert_rec sha ab key value l; Some (old, Node k v h m n l' r) }
       | Less \<Rightarrow> do { (old, r') \<leftarrow> insert_rec sha ab key value r; Some (old, Node k v h m n l r') }
       | Equal \<Rightarrow> Some (set_value sha ab value (Node k v h m n l r)));
     node_ref \<leftarrow> balance_node sha (update sha node);
     Some (old_value, node_ref)
   }"

definition avl_insert ::
  "(bytes \<Rightarrow> bytes) \<Rightarrow> ('k::linorder \<Rightarrow> bytes) \<Rightarrow> 'k \<Rightarrow> bytes \<Rightarrow> 'k avl_tree \<Rightarrow>
   (bytes option \<times> 'k avl_tree) option" where
  "avl_insert sha ab key value t = do {
     (old, r) \<leftarrow> insert_rec sha ab key value (root t);
     Some (old, t\<lparr>root := r\<rparr>)
   }"

text \<open>Both functions return the removed node first, then what is left in its place.\<close>

fun remove_leftmost :: "(bytes \<Rightarrow> bytes) \<Rightarrow> 'k node_ref \<Rightarrow> ('k node_ref \<times> 'k node_ref) option" where
  "remove_leftmost sha Empty = Some (Empty, Empty)"
| "remove_leftmost sha (Node k v h m n l r) =
     (if l = Empty then Some (Node k v h m n l Empty, r)
      else do {
        (removed_node, l') \<leftarrow> remove_leftmost sha l;
        node_ref \<leftarrow> balance_node sha (update sha (Node k v h m n l' r));
        Some (removed_node, node_ref)
      })"

fun remove_rightmost :: "(bytes \<Rightarrow> bytes) \<Rightarrow> 'k node_ref \<Rightarrow> ('k node_ref \<times> 'k node_ref) option" where
  "remove_rightmost sha Empty = Some (Empty, Empty)"
| "remove_rightmost sha (Node k v h m n l r) =
     (if r = Empty then Some (Node k v h m n Empty r, l)
      else do {
        (removed_node, r') \<leftarrow> remove_rightmost sha r;
        node_ref \<leftarrow> balance_node sha (update sha (Node k v h m n l r'));
        Some (removed_node, node_ref)
      })"

text \<open>
  The first component of \<open>substitute\<close> is what \<open>node\<close>, the old root, keeps after its children
  have been taken; the second is the node that replaces it.
\<close>

fun substitute_root :: "(bytes \<Rightarrow> bytes) \<Rightarrow> 'k node_ref \<Rightarrow> ('k node_ref \<times> 'k node_ref) option" where
  "substitute_root sha Empty = Some (Empty, Empty)"
| "substitute_root sha (Node k v h m n l r) =
     (if r = Empty then Some (Node k v h m n Empty r, l)
      else if l = Empty then Some (Node k v h m n l Empty, r)
      else if balance_factor (Node k v h m n l r) \<le> 0 then do {
        (leftmost, r') \<leftarrow> remove_leftmost sha r;
        Some (case leftmost of
            Empty \<Rightarrow> (Node k v h m n l r', Empty)
          | Node k' v' h' m' n' l0 r0 \<Rightarrow> (Node k v h m n Empty Empty, Node k' v' h' m' n' l r'))
      }
      else do {
        (rightmost, l') \<leftarrow> remove_rightmost sha l;
        Some (case rightmost of
            Empty \<Rightarrow> (Node k v h m n l' r, Empty)
          | Node k' v' h' m' n' l0 r0 \<Rightarrow> (Node k v h m n Empty Empty, Node k' v' h' m' n' l' r))
      })"

definition remove_root :: "(bytes \<Rightarrow> bytes) \<Rightarrow> 'k node_ref \<Rightarrow> ('k node_ref \<times> 'k node_ref) option" where
  "remove_root sha node_ref = do {
     (removed_node, substitute) \<leftarrow> substitute_root sha node_ref;
     if substitute = Empty then Some (removed_node, Empty)
     else do {
       node_ref' \<leftarrow> balance_node sha (update sha substitute);
       Some (removed_node, node_ref')
     }
   }"

fun remove_rec ::
  "(bytes \<Rightarrow> bytes) \<Rightarrow> 'k::linorder \<Rightarrow> 'k node_ref \<Rightarrow> ('k node_ref \<times> 'k node_ref) option" where
  "remove_rec sha key Empty = Some (Empty, Empty)"
| "remove_rec sha key (Node k v h m n l r) = do {
     (removed_value, node_ref) \<leftarrow> (case cmp k key of
         Greater \<Rightarrow> do { (rm, l') \<leftarrow> remove_rec sha key l; Some (rm, Node k v h m n l' r) }
       | Less \<Rightarrow> do { (rm, r') \<leftarrow> remove_rec sha key r; Some (rm, Node k v h m n l r') }
       | Equal \<Rightarrow> remove_root sha (Node k v h m n l r));
     if node_ref \<noteq> Empty \<and> removed_value \<noteq> Empty then do {
       node_ref' \<leftarrow> balance_node sha (update sha node_ref);
       Some (removed_value, node_ref')
     }
     else Some (removed_value, node_ref)
   }"

fun node_value :: "'k node_ref \<Rightarrow> bytes option" where
  "node_value Empty = None"
| "node_value (Node k v h m n l r) = Some v"

definition avl_remove ::
  "(bytes \<Rightarrow> bytes) \<Rightarrow> 'k::linorder \<Rightarrow> 'k avl_tree \<Rightarrow> (bytes option \<times> 'k avl_tree) option" where
  "avl_remove sha key t = do {
     (removed, r) \<leftarrow> remove_rec sha key (root t);
     Some (node_value removed, t\<lparr>root := r\<rparr>)
   }"

text \<open>The accumulator is the vector the source pushes the keys to.\<close>

fun get_keys_rec :: "'k node_ref \<Rightarrow> 'k list \<Rightarrow> 'k list" where
  "get_keys_rec Empty keys = keys"
| "get_keys_rec (Node k v h m n l r) keys = get_keys_rec r (get_keys_rec l keys @ [k])"

definition avl_get_keys :: "'k avl_tree \<Rightarrow> 'k list" where
  "avl_get_keys t = get_keys_rec (root t) []"


section \<open>Lookup and the list of keys\<close>

lemma bst_Node:
  "bst (Node k v h m n l r) \<longleftrightarrow>
     bst l \<and> bst r \<and> (\<forall>e \<in> set (inorder l). fst e < k) \<and> (\<forall>e \<in> set (inorder r). k < fst e)"
  by (auto simp: bst_def dest: less_trans)

lemma get_rec_map_of: "bst t \<Longrightarrow> get_rec key t = map_of (inorder t) key"
proof (induction t)
  case (Node k v h m n l r)
  note order = Node.prems [unfolded bst_Node]
  show ?case
    by (cases k key rule: cmp_cases) (use Node.IH order in \<open>auto simp: entry_splits\<close>)
qed simp

lemma get_keys_rec_inorder: "get_keys_rec t keys = keys @ map fst (inorder t)"
  by (induction t arbitrary: keys) auto


section \<open>Insertion\<close>

text \<open>Insertion does not panic, keeps the integrity and updates the list of entries.\<close>

lemma insert_rec_Some:
  assumes "integrity sha ab t" and "bst t"
  shows "\<exists>t'. insert_rec sha ab key value t = Some (map_of (inorder t) key, t') \<and>
           integrity sha ab t' \<and> inorder t' = upd_entry key value (inorder t) \<and> t' \<noteq> Empty"
  using assms
proof (induction t)
  case Empty
  then show ?case by (simp add: as_node_ref_def upd_entry_def)
next
  case (Node k v h m n l r)
  note order = Node.prems(2) [unfolded bst_Node]
  from Node.prems have h: "h = local_hash sha ab k v"
    and il: "integrity sha ab l" and ir: "integrity sha ab r" by auto
  consider (lt) "key < k" | (gt) "k < key" | (eq) "key = k" by fastforce
  then show ?case
  proof cases
    case lt
    from Node.IH(1) il order obtain l' where
      rec: "insert_rec sha ab key value l = Some (map_of (inorder l) key, l')"
      and l': "integrity sha ab l'" "inorder l' = upd_entry key value (inorder l)" by blast
    obtain t' where "balance_node sha (update sha (Node k v h m n l' r)) = Some t'"
      and "integrity sha ab t'" and "inorder t' = inorder l' @ (k, v) # inorder r" and "t' \<noteq> Empty"
      using balance_update_Some [OF l'(1) ir h] by blast
    then show ?thesis
      using rec l' lt order by (simp add: entry_splits del: update_Node)
  next
    case gt
    from Node.IH(2) ir order obtain r' where
      rec: "insert_rec sha ab key value r = Some (map_of (inorder r) key, r')"
      and r': "integrity sha ab r'" "inorder r' = upd_entry key value (inorder r)" by blast
    obtain t' where "balance_node sha (update sha (Node k v h m n l r')) = Some t'"
      and "integrity sha ab t'" and "inorder t' = inorder l @ (k, v) # inorder r'" and "t' \<noteq> Empty"
      using balance_update_Some [OF il r'(1) h] by blast
    then show ?thesis
      using rec r' gt order by (simp add: entry_splits del: update_Node)
  next
    case eq
    obtain t' where
      "balance_node sha (update sha (Node k value (local_hash sha ab k value) m n l r)) = Some t'"
      and "integrity sha ab t'" and "inorder t' = inorder l @ (k, value) # inorder r"
      and "t' \<noteq> Empty"
      using balance_update_Some [OF il ir refl] by blast
    then show ?thesis
      using eq order by (simp add: entry_splits del: update_Node)
  qed
qed


section \<open>Removal\<close>

lemma remove_leftmost_Some:
  assumes "integrity sha ab t" and "t \<noteq> Empty"
  shows "\<exists>k v h m n t'. remove_leftmost sha t = Some (Node k v h m n Empty Empty, t') \<and>
           h = local_hash sha ab k v \<and> integrity sha ab t' \<and> inorder t = (k, v) # inorder t'"
  using assms
proof (induction t)
  case (Node k v h m n l r)
  then have h: "h = local_hash sha ab k v"
    and il: "integrity sha ab l" and ir: "integrity sha ab r" by auto
  show ?case
  proof (cases "l = Empty")
    case True
    then show ?thesis using h ir by simp
  next
    case False
    from Node.IH(1) [OF il False] obtain k0 v0 h0 m0 n0 l' where
      "remove_leftmost sha l = Some (Node k0 v0 h0 m0 n0 Empty Empty, l')"
      "h0 = local_hash sha ab k0 v0" "integrity sha ab l'" "inorder l = (k0, v0) # inorder l'"
      by blast
    moreover from this(3) obtain t' where
      "balance_node sha (update sha (Node k v h m n l' r)) = Some t'"
      and "integrity sha ab t'" and "inorder t' = inorder l' @ (k, v) # inorder r"
      using balance_update_Some [OF _ ir h] by blast
    ultimately show ?thesis using False by (simp del: update_Node)
  qed
qed simp

lemma remove_rightmost_Some:
  assumes "integrity sha ab t" and "t \<noteq> Empty"
  shows "\<exists>k v h m n t'. remove_rightmost sha t = Some (Node k v h m n Empty Empty, t') \<and>
           h = local_hash sha ab k v \<and> integrity sha ab t' \<and> inorder t = inorder t' @ [(k, v)]"
  using assms
proof (induction t)
  case (Node k v h m n l r)
  then have h: "h = local_hash sha ab k v"
    and il: "integrity sha ab l" and ir: "integrity sha ab r" by auto
  show ?case
  proof (cases "r = Empty")
    case True
    then show ?thesis using h il by simp
  next
    case False
    from Node.IH(2) [OF ir False] obtain k0 v0 h0 m0 n0 r' where
      "remove_rightmost sha r = Some (Node k0 v0 h0 m0 n0 Empty Empty, r')"
      "h0 = local_hash sha ab k0 v0" "integrity sha ab r'" "inorder r = inorder r' @ [(k0, v0)]"
      by blast
    moreover from this(3) obtain t' where
      "balance_node sha (update sha (Node k v h m n l r')) = Some t'"
      and "integrity sha ab t'" and "inorder t' = inorder l @ (k, v) # inorder r'"
      using balance_update_Some [OF il _ h] by blast
    ultimately show ?thesis using False by (simp del: update_Node)
  qed
qed simp

text \<open>The removed root keeps its entry and no children; the rest keeps the other entries.\<close>

lemma remove_root_Some:
  assumes "integrity sha ab (Node k v h m n l r)"
  shows "\<exists>t'. remove_root sha (Node k v h m n l r) = Some (Node k v h m n Empty Empty, t') \<and>
           integrity sha ab t' \<and> inorder t' = inorder l @ inorder r"
proof -
  from assms have il: "integrity sha ab l" and ir: "integrity sha ab r" by auto
  have finish: ?thesis
    if sub: "substitute_root sha (Node k v h m n l r) = Some (Node k v h m n Empty Empty, Node k0 v0 h0 m0 n0 l0 r0)"
      and h0: "h0 = local_hash sha ab k0 v0" and l0: "integrity sha ab l0" and r0: "integrity sha ab r0"
      and entries: "inorder l0 @ (k0, v0) # inorder r0 = inorder l @ inorder r" for k0 v0 h0 m0 n0 l0 r0
  proof -
    obtain t' where
      "balance_node sha (update sha (Node k0 v0 h0 m0 n0 l0 r0)) = Some t'"
      and "integrity sha ab t'" and "inorder t' = inorder l0 @ (k0, v0) # inorder r0"
      using balance_update_Some [OF l0 r0 h0] by blast
    then show ?thesis using sub entries unfolding remove_root_def by (simp del: update_Node)
  qed
  show ?thesis
  proof (cases "r = Empty")
    case True
    show ?thesis
    proof (cases l)
      case Empty
      with True show ?thesis by (simp add: remove_root_def)
    next
      case (Node k0 v0 h0 m0 n0 l0 r0)
      show ?thesis by (rule finish [of k0 v0 h0 m0 n0 l0 r0]) (use True Node il in auto)
    qed
  next
    case r: False
    show ?thesis
    proof (cases "l = Empty")
      case True
      obtain k0 v0 h0 m0 n0 l0 r0 where "r = Node k0 v0 h0 m0 n0 l0 r0"
        using r by (cases r) auto
      then show ?thesis
        by (intro finish [of k0 v0 h0 m0 n0 l0 r0]) (use True ir in auto)
    next
      case l: False
      from remove_leftmost_Some [OF ir r] obtain k1 v1 h1 m1 n1 r' where
        right: "remove_leftmost sha r = Some (Node k1 v1 h1 m1 n1 Empty Empty, r')"
        "h1 = local_hash sha ab k1 v1" "integrity sha ab r'" "inorder r = (k1, v1) # inorder r'"
        by blast
      from remove_rightmost_Some [OF il l] obtain k2 v2 h2 m2 n2 l' where
        left: "remove_rightmost sha l = Some (Node k2 v2 h2 m2 n2 Empty Empty, l')"
        "h2 = local_hash sha ab k2 v2" "integrity sha ab l'" "inorder l = inorder l' @ [(k2, v2)]"
        by blast
      show ?thesis
      proof (cases "balance_factor (Node k v h m n l r) \<le> 0")
        case True
        show ?thesis
          by (rule finish [of k1 v1 h1 m1 n1 l r']) (use True right l r il in auto)
      next
        case False
        show ?thesis
          by (rule finish [of k2 v2 h2 m2 n2 l' r]) (use False left l r ir in auto)
      qed
    qed
  qed
qed

lemma rebalance_again:
  assumes "integrity sha ab t" and "t \<noteq> Empty"
  obtains t' where "balance_node sha (update sha t) = Some t'"
    and "integrity sha ab t'" and "inorder t' = inorder t" and "t' \<noteq> Empty"
proof (cases t)
  case (Node k v h m n l r)
  then show ?thesis
    using assms balance_update_Some [of sha ab l r h k v m n] that by auto
qed (use assms in simp)

lemma remove_rec_Some:
  assumes "integrity sha ab t" and "bst t"
  shows "\<exists>rm t'. remove_rec sha key t = Some (rm, t') \<and> node_value rm = map_of (inorder t) key \<and>
           integrity sha ab t' \<and> inorder t' = del_entry key (inorder t) \<and>
           (map_of (inorder t) key = None \<longrightarrow> t' = t)"
  using assms
proof (induction t)
  case Empty
  then show ?case by (simp add: del_entry_def)
next
  case (Node k v h m n l r)
  note order = Node.prems(2) [unfolded bst_Node]
  note int = Node.prems(1)
  from int have h: "h = local_hash sha ab k v"
    and il: "integrity sha ab l" and ir: "integrity sha ab r" by auto
  have rm_Empty: "rm = Empty \<longleftrightarrow> node_value rm = None" for rm :: "'a node_ref"
    by (cases rm) auto
  consider (lt) "key < k" | (gt) "k < key" | (eq) "key = k" by fastforce
  then show ?case
  proof cases
    case lt
    from Node.IH(1) il order obtain rm l' where
      rec: "remove_rec sha key l = Some (rm, l')" "node_value rm = map_of (inorder l) key"
      and l': "integrity sha ab l'" "inorder l' = del_entry key (inorder l)"
      "map_of (inorder l) key = None \<longrightarrow> l' = l" by metis
    obtain t' where bal: "balance_node sha (update sha (Node k v h m n l' r)) = Some t'"
      and t': "integrity sha ab t'" "inorder t' = inorder l' @ (k, v) # inorder r"
      using balance_update_Some [OF l'(1) ir h] by blast
    show ?thesis
    proof (cases "rm = Empty")
      case True
      then have "l' = l" using rec(2) l'(3) by simp
      with True show ?thesis
        using rec int l'(2) lt order by (simp add: entry_splits)
    next
      case False
      then have "map_of (inorder l) key \<noteq> None" using rec(2) rm_Empty by metis
      with False show ?thesis
        using rec bal t' l'(2) lt order by (auto simp: entry_splits simp del: update_Node)
    qed
  next
    case gt
    from Node.IH(2) ir order obtain rm r' where
      rec: "remove_rec sha key r = Some (rm, r')" "node_value rm = map_of (inorder r) key"
      and r': "integrity sha ab r'" "inorder r' = del_entry key (inorder r)"
      "map_of (inorder r) key = None \<longrightarrow> r' = r" by metis
    obtain t' where bal: "balance_node sha (update sha (Node k v h m n l r')) = Some t'"
      and t': "integrity sha ab t'" "inorder t' = inorder l @ (k, v) # inorder r'"
      using balance_update_Some [OF il r'(1) h] by blast
    show ?thesis
    proof (cases "rm = Empty")
      case True
      then have "r' = r" using rec(2) r'(3) by simp
      with True show ?thesis
        using rec int r'(2) gt order by (simp add: entry_splits)
    next
      case False
      then have "map_of (inorder r) key \<noteq> None" using rec(2) rm_Empty by metis
      with False show ?thesis
        using rec bal t' r'(2) gt order by (auto simp: entry_splits simp del: update_Node)
    qed
  next
    case eq
    from remove_root_Some [OF int] obtain t1 where
      root: "remove_root sha (Node k v h m n l r) = Some (Node k v h m n Empty Empty, t1)"
      and t1: "integrity sha ab t1" "inorder t1 = inorder l @ inorder r" by blast
    show ?thesis
    proof (cases "t1 = Empty")
      case True
      with root t1 show ?thesis
        using eq order by (simp add: del_entry_def)
    next
      case False
      obtain t' where "balance_node sha (update sha t1) = Some t'"
        and "integrity sha ab t'" and "inorder t' = inorder t1"
        using rebalance_again [OF t1(1) False] by blast
      with root t1 False show ?thesis
        using eq order by (simp add: entry_splits del: update_Node)
    qed
  qed
qed


section \<open>The interface the stores use\<close>

text \<open>
  A map from ordered keys to byte strings whose value is its sorted list of entries. The
  store that keeps its states in such maps relies on these laws and on nothing else of the
  tree.
\<close>

locale merkle_map =
  fixes ins :: "'k::linorder \<Rightarrow> bytes \<Rightarrow> 'm \<Rightarrow> (bytes option \<times> 'm) option"
    and del :: "'k \<Rightarrow> 'm \<Rightarrow> (bytes option \<times> 'm) option"
    and look :: "'k \<Rightarrow> 'm \<Rightarrow> bytes option"
    and keys :: "'m \<Rightarrow> 'k list"
    and emp :: 'm
    and invar :: "'m \<Rightarrow> bool"
    and entries :: "'m \<Rightarrow> ('k \<times> bytes) list"
  assumes emp: "invar emp" "entries emp = []"
    and sorted: "invar m \<Longrightarrow> sorted_keys (entries m)"
    and look: "invar m \<Longrightarrow> look k m = map_of (entries m) k"
    and ins: "invar m \<Longrightarrow> \<exists>m'. ins k v m = Some (map_of (entries m) k, m') \<and> invar m' \<and>
                entries m' = upd_entry k v (entries m)"
    and del: "invar m \<Longrightarrow> \<exists>m'. del k m = Some (map_of (entries m) k, m') \<and> invar m' \<and>
                entries m' = del_entry k (entries m)"
    and keys: "keys m = map fst (entries m)"
begin

lemma ins_look:
  assumes "invar m"
  obtains m' where "ins k v m = Some (look k m, m')" and "invar m'"
    and "\<And>j. look j m' = (if j = k then Some v else look j m)"
  using ins [OF assms, of k v] assms by (auto simp: look map_of_upd_entry)

lemma del_look:
  assumes "invar m"
  obtains m' where "del k m = Some (look k m, m')" and "invar m'"
    and "\<And>j. look j m' = (if j = k then None else look j m)"
  using del [OF assms, of k] assms by (auto simp: look map_of_del_entry)

lemma look_emp: "look k emp = None"
  by (simp add: look emp)

lemma keys_sorted: "invar m \<Longrightarrow> sorted_wrt (<) (keys m)"
  using sorted by (simp add: keys sorted_keys_def)

lemma mem_keys: "invar m \<Longrightarrow> k \<in> set (keys m) \<longleftrightarrow> look k m \<noteq> None"
  by (simp add: keys look map_of_eq_None_iff)

end

definition avl_ok :: "(bytes \<Rightarrow> bytes) \<Rightarrow> ('k::linorder \<Rightarrow> bytes) \<Rightarrow> 'k avl_tree \<Rightarrow> bool" where
  "avl_ok sha ab t \<longleftrightarrow> integrity sha ab (root t) \<and> bst (root t)"

definition avl_entries :: "'k avl_tree \<Rightarrow> ('k \<times> bytes) list" where
  "avl_entries t = inorder (root t)"

interpretation avl: merkle_map "avl_insert sha ab" "avl_remove sha" avl_get avl_get_keys avl_new
  "avl_ok sha ab" avl_entries for sha ab
proof (unfold_locales, goal_cases)
  case (5 m k v)
  then show ?case
    using insert_rec_Some [of sha ab "root m" k v]
    by (force simp: avl_ok_def avl_entries_def avl_insert_def bst_def sorted_upd_entry)
next
  case (6 m k)
  then obtain rm t' where "remove_rec sha k (root m) = Some (rm, t')"
    "node_value rm = map_of (inorder (root m)) k" "integrity sha ab t'"
    "inorder t' = del_entry k (inorder (root m))"
    using remove_rec_Some [of sha ab "root m" k] unfolding avl_ok_def by blast
  with 6 show ?case
    by (auto simp: avl_ok_def avl_entries_def avl_remove_def bst_def sorted_del_entry)
qed (auto simp: avl_ok_def avl_entries_def avl_new_def avl_get_def avl_get_keys_def bst_def
       get_rec_map_of get_keys_rec_inorder)


section \<open>Runs of the tree\<close>

text \<open>A history of the tree: what the stores do to it, in order. \<open>map_run\<close> is the same
  history on an abstract map.\<close>

datatype 'k avl_op = Insert 'k bytes | Remove 'k

fun avl_step ::
  "(bytes \<Rightarrow> bytes) \<Rightarrow> ('k::linorder \<Rightarrow> bytes) \<Rightarrow> 'k avl_op \<Rightarrow> 'k avl_tree \<Rightarrow> 'k avl_tree option" where
  "avl_step sha ab (Insert k v) t = map_option snd (avl_insert sha ab k v t)"
| "avl_step sha ab (Remove k) t = map_option snd (avl_remove sha k t)"

fun avl_run ::
  "(bytes \<Rightarrow> bytes) \<Rightarrow> ('k::linorder \<Rightarrow> bytes) \<Rightarrow> 'k avl_op list \<Rightarrow> 'k avl_tree \<Rightarrow> 'k avl_tree option" where
  "avl_run sha ab [] t = Some t"
| "avl_run sha ab (x # xs) t = Option.bind (avl_step sha ab x t) (avl_run sha ab xs)"

fun map_step :: "'k avl_op \<Rightarrow> ('k \<rightharpoonup> bytes) \<Rightarrow> ('k \<rightharpoonup> bytes)" where
  "map_step (Insert k v) m = m(k \<mapsto> v)"
| "map_step (Remove k) m = m(k := None)"

lemma avl_step_ok:
  assumes "avl_ok sha ab t"
  obtains t' where "avl_step sha ab x t = Some t'" and "avl_ok sha ab t'"
    and "(\<lambda>k. avl_get k t') = map_step x (\<lambda>k. avl_get k t)"
proof (cases x)
  case (Insert k v)
  show ?thesis
    by (rule avl.ins_look [OF assms, of k v]) (rule that, auto simp: Insert)
next
  case (Remove k)
  show ?thesis
    by (rule avl.del_look [OF assms, of k]) (rule that, auto simp: Remove)
qed

lemma avl_run_ok:
  assumes "avl_ok sha ab t"
  shows "\<exists>t'. avl_run sha ab xs t = Some t' \<and> avl_ok sha ab t' \<and>
           (\<lambda>k. avl_get k t') = fold map_step xs (\<lambda>k. avl_get k t)"
  using assms
proof (induction xs arbitrary: t)
  case (Cons x xs)
  obtain t1 where "avl_step sha ab x t = Some t1" "avl_ok sha ab t1"
    "(\<lambda>k. avl_get k t1) = map_step x (\<lambda>k. avl_get k t)"
    by (rule avl_step_ok [OF Cons.prems])
  then show ?case using Cons.IH [of t1] by auto
qed simp


section \<open>Properties\<close>

text \<open>
  C28. Insertion into a well-formed tree never panics: it returns the value the key had
  before, and afterwards a lookup finds the new value at the key and the old value at every
  other key; the result is again well-formed (keys in strict order, all stored heights and
  hashes up to date).
\<close>

theorem avl_insert_correct:
  assumes "avl_ok sha ab t"
  shows "\<exists>t'. avl_insert sha ab key value t = Some (avl_get key t, t') \<and> avl_ok sha ab t' \<and>
           (\<forall>k. avl_get k t' = (if k = key then Some value else avl_get k t))"
  by (rule avl.ins_look [OF assms, of key "value"]) blast

text \<open>
  C29. Removal from a well-formed tree never panics, although the code takes children away
  from nodes and puts them under others on the way: it returns the value the key had, if
  any, and afterwards the key is absent and every other key keeps its value; the result is
  again well-formed.
\<close>

theorem avl_remove_correct:
  assumes "avl_ok sha ab t"
  shows "\<exists>t'. avl_remove sha key t = Some (avl_get key t, t') \<and> avl_ok sha ab t' \<and>
           (\<forall>k. avl_get k t' = (if k = key then None else avl_get k t))"
  by (rule avl.del_look [OF assms, of key]) blast

text \<open>
  C11. Every history of insertions and removals from the empty tree runs to its end without
  a panic, leaves a well-formed tree, and that tree agrees at every key with the same
  history on an abstract map; the list of keys is that map's domain in strict order.
\<close>

theorem avl_history_refines_map:
  "\<exists>t. avl_run sha ab xs avl_new = Some t \<and> avl_ok sha ab t \<and>
     (\<lambda>k. avl_get k t) = fold map_step xs (\<lambda>k. None) \<and>
     sorted_wrt (<) (avl_get_keys t) \<and> set (avl_get_keys t) = dom (fold map_step xs (\<lambda>k. None))"
proof -
  have "(\<lambda>k. avl_get k avl_new) = (\<lambda>k :: 'a. None)"
    by (simp add: avl.look_emp)
  with avl_run_ok [OF avl.emp(1), of sha ab xs] obtain t where
    t: "avl_run sha ab xs avl_new = Some t" "avl_ok sha ab t"
      "(\<lambda>k. avl_get k t) = fold map_step xs (\<lambda>k. None)" by auto
  have "set (avl_get_keys t) = dom (\<lambda>k. avl_get k t)"
    using avl.mem_keys [OF t(2)] by auto
  then have "set (avl_get_keys t) = dom (fold map_step xs (\<lambda>k. None))"
    by (simp only: t(3))
  then show ?thesis using t avl.keys_sorted [OF t(2)] by blast
qed


section \<open>Witnesses\<close>

text \<open>A concrete hash and key encoding for the witnesses: the identity and one byte per key.\<close>

definition key_byte :: "nat \<Rightarrow> bytes" where
  "key_byte n = [word_of_nat n]"

definition tree_of :: "nat list \<Rightarrow> nat avl_tree" where
  "tree_of ks = (case avl_run id key_byte (map (\<lambda>k. Insert k [1]) ks) avl_new of
     None \<Rightarrow> avl_new | Some t \<Rightarrow> t)"

lemma tree_of_ok: "avl_ok id key_byte (tree_of ks)"
  using avl_run_ok [OF avl.emp(1), of id key_byte "map (\<lambda>k. Insert k [1]) ks"]
  by (auto simp: tree_of_def)

theorem avl_insert_correct_witness:
  "avl_ok id key_byte (tree_of [5, 3, 8]) \<and>
   (\<exists>t'. avl_insert id key_byte 4 [7] (tree_of [5, 3, 8]) = Some (None, t') \<and>
      avl_get 4 t' = Some [7] \<and> avl_get 8 t' = Some [1])"
proof -
  have "avl_get 4 (tree_of [5, 3, 8]) = None" "avl_get 8 (tree_of [5, 3, 8]) = Some [1]"
    by code_simp+
  then show ?thesis
    using tree_of_ok avl_insert_correct [OF tree_of_ok, of "4" "[7]" "[5, 3, 8]"] by auto
qed

theorem avl_remove_correct_witness:
  "avl_ok id key_byte (tree_of [5, 3, 8]) \<and>
   (\<exists>t'. avl_remove id 5 (tree_of [5, 3, 8]) = Some (Some [1], t') \<and>
      avl_get 5 t' = None \<and> avl_get 8 t' = Some [1])"
proof -
  have "avl_get 5 (tree_of [5, 3, 8]) = Some [1]" "avl_get 8 (tree_of [5, 3, 8]) = Some [1]"
    by code_simp+
  then show ?thesis
    using tree_of_ok avl_remove_correct [OF tree_of_ok, of "5" "[5, 3, 8]"] by auto
qed

end
