(* ===== verification/Avl_Balance.thy ===== *)
theory Avl_Balance
  imports Avl_Tree
begin

text \<open>
  The shape of the AVL tree: insertion keeps every balance factor in \<open>{-1, 0, 1}\<close>, removal
  does not, and the bounds that follow. In this code a missing child counts as height 0 in
  \<open>balance_factor\<close>, as does a leaf, so the usual argument has to be redone: two nodes may
  hang below each other without a sibling, and the smallest tree of height \<open>n\<close> is smaller
  than in the textbook.
\<close>

fun balanced :: "'k node_ref \<Rightarrow> bool" where
  "balanced Empty = True"
| "balanced (Node k v h m n l r) =
     (\<bar>balance_factor (Node k v h m n l r)\<bar> \<le> 1 \<and> balanced l \<and> balanced r)"

section \<open>Insertion keeps the balance\<close>

text \<open>
  A rotation after an insertion meets a left child that has just grown and so leans to one
  side: its balance factor is not 0. Under that condition rebalancing restores the balance
  and the height before the insertion.
\<close>

lemma rebalance_left:
  assumes "integrity sha ab l" "balanced l" "balanced r"
    and "ht l = ht r + 2" and "balance_factor l \<noteq> 0"
    and "balance_node sha (Node k v h m n l r) = Some t'"
  shows "balanced t' \<and> ht t' = ht r + 2"
proof (cases l)
  case Empty
  with assms(4) show ?thesis by simp
next
  case (Node k1 v1 h1 m1 n1 ll lr)
  show ?thesis
  proof (cases "balance_factor l < 1")
    case True
    then obtain k2 v2 h2 m2 n2 l2 r2 where lr: "lr = Node k2 v2 h2 m2 n2 l2 r2"
      using assms(1,2,4,5) Node by (cases lr) auto
    show ?thesis
      using assms True Node lr
      by (auto simp: Let_def node_height_def split: if_splits)
  next
    case False
    then show ?thesis
      using assms Node by (auto simp: Let_def node_height_def split: if_splits)
  qed
qed

lemma rebalance_right:
  assumes "integrity sha ab r" "balanced l" "balanced r"
    and "ht r = ht l + 2" and "balance_factor r \<noteq> 0"
    and "balance_node sha (Node k v h m n l r) = Some t'"
  shows "balanced t' \<and> ht t' = ht l + 2"
proof (cases r)
  case Empty
  with assms(4) show ?thesis by simp
next
  case (Node k1 v1 h1 m1 n1 rl rr)
  show ?thesis
  proof (cases "-1 < balance_factor r")
    case True
    then obtain k2 v2 h2 m2 n2 l2 r2 where rl: "rl = Node k2 v2 h2 m2 n2 l2 r2"
      using assms(1,3,4,5) Node by (cases rl) auto
    show ?thesis
      using assms True Node rl
      by (auto simp: Let_def node_height_def split: if_splits)
  next
    case False
    then show ?thesis
      using assms Node by (auto simp: Let_def node_height_def split: if_splits)
  qed
qed


definition grown :: "'k node_ref \<Rightarrow> 'k node_ref \<Rightarrow> bool" where
  "grown t t' \<longleftrightarrow> balanced t' \<and> (ht t' = ht t \<or> ht t' = ht t + 1) \<and>
     (t = Empty \<longrightarrow> ht t' = 0) \<and>
     (ht t' = ht t + 1 \<longrightarrow> 2 \<le> ht t' \<longrightarrow> balance_factor t' \<noteq> 0)"

lemma balance_node_id:
  "\<bar>int (ht l) - int (ht r)\<bar> \<le> 1 \<Longrightarrow>
   balance_node sha (Node k v h m n l r) = Some (Node k v h m n l r)"
proof -
  assume "\<bar>int (ht l) - int (ht r)\<bar> \<le> 1"
  then have "\<not> 2 \<le> int (ht l) - int (ht r)" "\<not> int (ht l) - int (ht r) \<le> -2" by linarith+
  then show ?thesis by (simp only: balance_node.simps balance_factor_Node Let_def if_False)
qed

lemma grown_left:
  assumes "integrity sha ab l'" "integrity sha ab (Node k v h m n l r)"
    and bal: "balanced (Node k v h m n l r)" and g: "grown l l'" and ne: "l' \<noteq> Empty"
    and t': "balance_node sha (update sha (Node k v h m n l' r)) = Some t'"
  shows "grown (Node k v h m n l r) t'"
proof (cases "ht l' = ht r + 2")
  case True
  then have l: "ht l' = ht l + 1" "ht l = ht r + 1" using bal g by (auto simp: grown_def)
  then have "balance_factor l' \<noteq> 0" using g True by (auto simp: grown_def)
  then have "balanced t' \<and> ht t' = ht r + 2"
    using rebalance_left [of sha ab l' r] assms True by (auto simp: grown_def)
  moreover have "n = ht r + 2" using assms(2) l by (auto simp: node_height_def)
  ultimately show ?thesis by (simp add: grown_def)
next
  case False
  then have "\<bar>int (ht l') - int (ht r)\<bar> \<le> 1" using bal g by (auto simp: grown_def)
  then have "t' = update sha (Node k v h m n l' r)" using t' by (simp add: balance_node_id del: balance_node.simps)
  then show ?thesis
    using assms False by (auto simp: grown_def node_height_def split: if_splits)
qed

lemma grown_right:
  assumes "integrity sha ab r'" "integrity sha ab (Node k v h m n l r)"
    and bal: "balanced (Node k v h m n l r)" and g: "grown r r'" and ne: "r' \<noteq> Empty"
    and t': "balance_node sha (update sha (Node k v h m n l r')) = Some t'"
  shows "grown (Node k v h m n l r) t'"
proof (cases "ht r' = ht l + 2")
  case True
  then have r: "ht r' = ht r + 1" "ht r = ht l + 1" using bal g by (auto simp: grown_def)
  then have "balance_factor r' \<noteq> 0" using g True by (auto simp: grown_def)
  then have "balanced t' \<and> ht t' = ht l + 2"
    using rebalance_right [of sha ab r' l] assms True by (auto simp: grown_def)
  moreover have "n = ht l + 2" using assms(2) r by (auto simp: node_height_def)
  ultimately show ?thesis by (simp add: grown_def)
next
  case False
  then have "\<bar>int (ht l) - int (ht r')\<bar> \<le> 1" using bal g by (auto simp: grown_def)
  then have "t' = update sha (Node k v h m n l r')" using t' by (simp add: balance_node_id del: balance_node.simps)
  then show ?thesis
    using assms False by (auto simp: grown_def node_height_def split: if_splits)
qed

lemma insert_rec_grown:
  assumes "integrity sha ab t" and "bst t" and "balanced t"
    and "insert_rec sha ab key value t = Some (old, t')"
  shows "grown t t'"
  using assms
proof (induction t arbitrary: old t')
  case Empty
  then show ?case by (auto simp: as_node_ref_def new_node_def Let_def grown_def)
next
  case (Node k v h m n l r)
  note order = Node.prems(2) [unfolded bst_Node]
  from Node.prems have il: "integrity sha ab l" and ir: "integrity sha ab r"
    and bl: "balanced l" and br: "balanced r" by auto
  show ?case
  proof (cases k key rule: cmp_cases)
    case greater
    obtain o' l' where rec: "insert_rec sha ab key value l = Some (o', l')"
      and l': "integrity sha ab l'" "l' \<noteq> Empty"
      using insert_rec_Some [OF il, of key "value"] order by blast
    have "balance_node sha (update sha (Node k v h m n l' r)) = Some t'"
      using Node.prems(4) rec greater by (auto simp del: update_Node split: option.splits bind_splits)
    then show ?thesis
      using grown_left [OF l'(1) Node.prems(1,3) _ l'(2)] Node.IH(1) [OF il _ bl rec] order by blast
  next
    case less
    obtain o' r' where rec: "insert_rec sha ab key value r = Some (o', r')"
      and r': "integrity sha ab r'" "r' \<noteq> Empty"
      using insert_rec_Some [OF ir, of key "value"] order by blast
    have "balance_node sha (update sha (Node k v h m n l r')) = Some t'"
      using Node.prems(4) rec less by (auto simp del: update_Node split: option.splits bind_splits)
    then show ?thesis
      using grown_right [OF r'(1) Node.prems(1,3) _ r'(2)] Node.IH(2) [OF ir _ br rec] order by blast
  next
    case equal
    have "t' = update sha (Node k value (local_hash sha ab k value) m n l r)"
      using Node.prems equal by (simp add: balance_node_id del: balance_node.simps)
    then show ?thesis using Node.prems by (auto simp: grown_def)
  qed
qed

text \<open>
  Insertion into a well-formed balanced tree leaves it balanced: every balance factor,
  as the code computes it, stays in \<open>{-1, 0, 1}\<close>, and the height grows by at most one.
\<close>

theorem avl_insert_balanced:
  assumes "avl_ok sha ab t" and "balanced (root t)"
    and "avl_insert sha ab key value t = Some (old, t')"
  shows "balanced (root t') \<and> ht (root t') \<le> ht (root t) + 1"
proof -
  obtain r where "insert_rec sha ab key value (root t) = Some (old, r)" "root t' = r"
    using assms(3) by (auto simp: avl_insert_def split: bind_splits)
  then have "grown (root t) (root t')"
    using insert_rec_grown assms(1,2) by (auto simp: avl_ok_def)
  then show ?thesis by (auto simp: grown_def)
qed


section \<open>Height bounds\<close>

fun entries_count :: "'k node_ref \<Rightarrow> nat" where
  "entries_count Empty = 0"
| "entries_count (Node k v h m n l r) = entries_count l + 1 + entries_count r"

lemma entries_count_inorder: "entries_count t = length (inorder t)"
  by (induction t) auto

lemma ht_le_count: "integrity sha ab t \<Longrightarrow> ht t \<le> entries_count t"
  by (induction t) (auto simp: node_height_def)

lemma ht_less_count: "integrity sha ab t \<Longrightarrow> t \<noteq> Empty \<Longrightarrow> ht t < entries_count t"
proof (induction t)
  case (Node k v h m n l r)
  then show ?case by (cases l; cases r) (auto simp: node_height_def)
qed simp

lemma half_height_bound:
  assumes "integrity sha ab t" and "balanced t"
  shows "2 ^ (ht t div 2) \<le> entries_count t + 1"
  using assms
proof (induction t)
  case (Node k v h m n l r)
  show ?case
  proof (cases "n < 2")
    case True
    then have "n div 2 = 0" by simp
    then show ?thesis by simp
  next
    case False
    have n: "n = max (ht l) (ht r) + 1" and near: "ht l \<le> ht r + 1" "ht r \<le> ht l + 1"
      using Node.prems False by (auto simp: node_height_def split: if_splits)
    have "2 ^ ((n - 2) div 2) \<le> (2::nat) ^ (ht l div 2)" "2 ^ ((n - 2) div 2) \<le> (2::nat) ^ (ht r div 2)"
      using n near by (auto intro!: power_increasing div_le_mono)
    moreover have "2 ^ (ht l div 2) \<le> entries_count l + 1" "2 ^ (ht r div 2) \<le> entries_count r + 1"
      using Node.IH Node.prems by auto
    ultimately have "2 * 2 ^ ((n - 2) div 2) \<le> entries_count l + 1 + (entries_count r + 1)"
      by linarith
    moreover have "n div 2 = Suc ((n - 2) div 2)" using False by simp
    ultimately show ?thesis by simp
  qed
qed simp

text \<open>The nodes of a tree, at which \<open>balance_factor\<close> is taken.\<close>

fun subtrees :: "'k node_ref \<Rightarrow> 'k node_ref set" where
  "subtrees Empty = {Empty}"
| "subtrees (Node k v h m n l r) = insert (Node k v h m n l r) (subtrees l \<union> subtrees r)"

lemma root_subtree: "t \<in> subtrees t"
  by (cases t) simp_all

lemma subtrees_ok:
  "integrity sha ab t \<Longrightarrow> s \<in> subtrees t \<Longrightarrow> integrity sha ab s \<and> entries_count s \<le> entries_count t"
  by (induction t) fastforce+

lemma balance_factor_fits:
  assumes "integrity sha ab t" and "entries_count t \<le> 2 ^ 31"
  shows "sint (balance_factor_i32 t) = balance_factor t"
proof (cases t)
  case Empty
  then show ?thesis by (simp add: balance_factor_i32_def balance_factor_def)
next
  case (Node k v h m n l r)
  then have il: "integrity sha ab l" and ir: "integrity sha ab r"
    using assms(1) by auto
  then have b: "ht l < 2 ^ 31" "ht r < 2 ^ 31"
    using ht_le_count assms(2) Node by fastforce+
  have w: "sint (word_of_nat a - word_of_nat b :: 32 word) = int a - int b"
    if "a < 2 ^ 31" "b < 2 ^ 31" for a b
  proof -
    have "(word_of_nat a - word_of_nat b :: 32 word) = word_of_int (int a - int b)"
      by simp
    then have "sint (word_of_nat a - word_of_nat b :: 32 word) = signed_take_bit 31 (int a - int b)"
      using sint_sbintrunc' [where 'a = 32, of "int a - int b"] by simp
    then show ?thesis using that by (simp add: signed_take_bit_int_eq_self)
  qed
  have "balance_factor_i32 t = word_of_nat (ht l) - word_of_nat (ht r)"
    using Node by (cases l; cases r) (auto simp: balance_factor_i32_def)
  then show ?thesis using Node w [OF b] by simp
qed

text \<open>
  C40. The machine arithmetic of \<open>balance_factor\<close> is exact at every node of every well-formed tree of at
  most \<open>2 ^ 31\<close> entries, balanced or not: the \<open>u32\<close> heights fit an \<open>i32\<close>, and neither the cast nor the
  subtraction or negation wraps around, so the signed value of the code's result is the
  difference of the heights.
\<close>

theorem balance_factor_exact:
  assumes "avl_ok sha ab t" and "length (avl_get_keys t) \<le> 2 ^ 31"
  shows "\<forall>s \<in> subtrees (root t). sint (balance_factor_i32 s) = balance_factor s"
proof
  fix s
  assume s: "s \<in> subtrees (root t)"
  have "entries_count (root t) \<le> 2 ^ 31"
    using assms(2) by (simp add: avl_get_keys_def get_keys_rec_inorder entries_count_inorder)
  moreover have "integrity sha ab (root t)" using assms(1) by (simp add: avl_ok_def)
  ultimately show "sint (balance_factor_i32 s) = balance_factor s"
    using subtrees_ok [OF _ s] balance_factor_fits by fastforce
qed


section \<open>Removal does not keep the balance\<close>

definition unbalancing_history :: "nat avl_op list" where
  "unbalancing_history = map (\<lambda>k. Insert k [1]) [0, 3, 6, 7, 4, 1, 2, 8, 9, 10, 5] @ [Remove 2]"

text \<open>
  Removal can leave a tree whose inner nodes are out of balance. A left child whose
  subtrees are equally high needs a single rotation; the code rotates twice whenever its
  balance factor is below 1. Starting from the empty tree, eleven insertions and one
  removal reach a tree with a balance factor of -2, while the root, which is all the test of
  the repository looks at, is in balance.
\<close>

theorem avl_remove_unbalances:
  "\<exists>t. avl_run id key_byte unbalancing_history avl_new = Some t \<and>
     \<not> balanced (root t) \<and> \<bar>balance_factor (root t)\<bar> \<le> 1"
proof -
  have run: "map_option (\<lambda>t. (balanced (root t), \<bar>balance_factor (root t)\<bar> \<le> 1))
      (avl_run id key_byte unbalancing_history avl_new) = Some (False, True)"
    by code_simp
  then show ?thesis by auto
qed


section \<open>Witnesses\<close>

theorem avl_insert_balanced_witness:
  "balanced (root (tree_of [1, 2])) \<and>
   (\<exists>old t'. avl_insert id key_byte 3 [1] (tree_of [1, 2]) = Some (old, t') \<and> balanced (root t') \<and>
      ht (root t') \<le> 2)"
proof -
  have b: "balanced (root (tree_of [1, 2]))" and h: "ht (root (tree_of [1, 2])) = 1"
    by code_simp+
  obtain old t' where "avl_insert id key_byte 3 [1] (tree_of [1, 2]) = Some (old, t')"
    using avl.ins_look [OF tree_of_ok] by blast
  with avl_insert_balanced [OF tree_of_ok b this] h b show ?thesis by auto
qed

theorem balance_factor_exact_witness:
  "length (avl_get_keys (tree_of [1, 2, 3])) \<le> 2 ^ 31 \<and>
   sint (balance_factor_i32 (root (tree_of [1, 2, 3]))) = -1"
proof -
  have n: "length (avl_get_keys (tree_of [1, 2, 3])) = 3"
    and bf: "balance_factor (root (tree_of [1, 2, 3])) = -1"
    by code_simp+
  then have small: "length (avl_get_keys (tree_of [1, 2, 3])) \<le> 2 ^ 31" by simp
  show ?thesis using bspec [OF balance_factor_exact [OF tree_of_ok small] root_subtree] bf small by simp
qed

end
