(* ===== verification/Path.thy ===== *)
theory Path
  imports Prelude
begin

text \<open>
  Store keys: \<open>basecoin/store/src/types/identifier.rs\<close> and \<open>types/path.rs\<close>. A path is a list
  of identifiers; it is read from a string by splitting at every slash and printed by
  joining with slashes. Both types derive \<open>Ord\<close>, which compares identifiers bytewise and
  paths identifier by identifier; the type class instances below are that order.

  \<open>from_utf8\<close> is the validation of the Rust standard library, with the two fields of its
  error: the length of the valid prefix and the length of the offending sequence (absent
  when the input ends too early).
\<close>

section \<open>Identifiers and paths\<close>

datatype ident = Identifier (as_str: string)

instantiation ident :: linorder
begin

definition less_eq_ident :: "ident \<Rightarrow> ident \<Rightarrow> bool" where
  "less_eq_ident a b \<longleftrightarrow> as_str a \<le> as_str b"

definition less_ident :: "ident \<Rightarrow> ident \<Rightarrow> bool" where
  "less_ident a b \<longleftrightarrow> as_str a < as_str b"

instance
  by standard (auto simp: less_eq_ident_def less_ident_def ident.expand)

end

definition identifier_from_string :: "string \<Rightarrow> ident" where
  "identifier_from_string value = Identifier value"

definition identifier_to_string :: "ident \<Rightarrow> string" where
  "identifier_to_string i = as_str i"

datatype path = Path (components: "ident list")

instantiation path :: linorder
begin

definition less_eq_path :: "path \<Rightarrow> path \<Rightarrow> bool" where
  "less_eq_path p q \<longleftrightarrow> components p \<le> components q"

definition less_path :: "path \<Rightarrow> path \<Rightarrow> bool" where
  "less_path p q \<longleftrightarrow> components p < components q"

instance
  by standard (auto simp: less_eq_path_def less_path_def path.expand)

end

definition path_get :: "nat \<Rightarrow> path \<Rightarrow> ident option" where
  "path_get index p = (if index < length (components p) then Some (components p ! index) else None)"

text \<open>Rust's \<open>str::split\<close> on a character and \<open>join\<close>.\<close>

fun split_on :: "char \<Rightarrow> string \<Rightarrow> string list" where
  "split_on c [] = [[]]"
| "split_on c (x # xs) =
     (if x = c then [] # split_on c xs
      else (case split_on c xs of [] \<Rightarrow> [[x]] | p # ps \<Rightarrow> (x # p) # ps))"

fun join :: "char \<Rightarrow> string list \<Rightarrow> string" where
  "join c [] = []"
| "join c [p] = p"
| "join c (p # q # ps) = p @ c # join c (q # ps)"

abbreviation slash :: char where
  "slash \<equiv> CHR ''/''"

definition path_from_string :: "string \<Rightarrow> path" where
  "path_from_string s = Path (map identifier_from_string (split_on slash s))"

definition path_to_string :: "path \<Rightarrow> string" where
  "path_to_string p = join slash (map as_str (components p))"

definition path_from_identifier :: "ident \<Rightarrow> path" where
  "path_from_identifier i = Path [i]"

definition path_as_bytes :: "path \<Rightarrow> bytes" where
  "path_as_bytes p = string_bytes (path_to_string p)"

text \<open>The trait \<open>AsBytes\<close> of \<open>store/src/avl/as_bytes.rs\<close>: its instances borrow the bytes of byte vectors,
  slices and strings, and own those of a printed path. The tree reads them through \<open>as_ref\<close>, so
  that its parameter is the composition, which for paths is \<open>path_as_bytes\<close>.\<close>

datatype byte_slice = Slice bytes | Vector bytes

fun byte_slice_as_ref :: "byte_slice \<Rightarrow> bytes" where
  "byte_slice_as_ref (Slice s) = s"
| "byte_slice_as_ref (Vector v) = v"

definition bytes_as_bytes :: "bytes \<Rightarrow> byte_slice" where
  "bytes_as_bytes bs = Slice bs"

definition string_as_bytes :: "string \<Rightarrow> byte_slice" where
  "string_as_bytes s = Slice (string_bytes s)"

definition path_byte_slice :: "path \<Rightarrow> byte_slice" where
  "path_byte_slice p = Vector (string_bytes (path_to_string p))"

lemma path_as_bytes_slice: "byte_slice_as_ref (path_byte_slice p) = path_as_bytes p"
  by (simp add: path_byte_slice_def path_as_bytes_def)

text \<open>\<open>Path::try_into\<close>: the parser is the one of the target type.\<close>

definition path_try_into :: "(string \<Rightarrow> ('e, 'k) outcome) \<Rightarrow> path \<Rightarrow> ('e, 'k) outcome" where
  "path_try_into from_str p = from_str (path_to_string p)"


section \<open>Reading bytes as UTF-8\<close>

datatype utf8_error = Utf8Error (valid_up_to: nat) (error_len: "nat option")

datatype path_error = MalformedPathString utf8_error | ParseError string

definition continuation :: "u8 \<Rightarrow> bool" where
  "continuation b \<longleftrightarrow> 0x80 \<le> b \<and> b \<le> 0xBF"

text \<open>The second byte of a sequence of three or four bytes is restricted by the first, which
  excludes overlong encodings, surrogates and values above \<open>0x10FFFF\<close>.\<close>

definition second_of_three :: "u8 \<Rightarrow> u8 \<Rightarrow> bool" where
  "second_of_three b c \<longleftrightarrow>
     (if b = 0xE0 then 0xA0 \<le> c \<and> c \<le> 0xBF
      else if b = 0xED then 0x80 \<le> c \<and> c \<le> 0x9F
      else continuation c)"

definition second_of_four :: "u8 \<Rightarrow> u8 \<Rightarrow> bool" where
  "second_of_four b c \<longleftrightarrow>
     (if b = 0xF0 then 0x90 \<le> c \<and> c \<le> 0xBF
      else if b = 0xF4 then 0x80 \<le> c \<and> c \<le> 0x8F
      else continuation c)"

definition utf8_char_width :: "u8 \<Rightarrow> nat" where
  "utf8_char_width b =
     (if b < 0x80 then 1
      else if 0xC2 \<le> b \<and> b \<le> 0xDF then 2
      else if 0xE0 \<le> b \<and> b \<le> 0xEF then 3
      else if 0xF0 \<le> b \<and> b \<le> 0xF4 then 4
      else 0)"

text \<open>The bytes that must follow the first one, given its width.\<close>

definition followers :: "u8 \<Rightarrow> (u8 \<Rightarrow> bool) list" where
  "followers b = (case utf8_char_width b of
     (Suc (Suc 0)) \<Rightarrow> [continuation]
   | (Suc (Suc (Suc 0))) \<Rightarrow> [second_of_three b, continuation]
   | (Suc (Suc (Suc (Suc 0)))) \<Rightarrow> [second_of_four b, continuation, continuation]
   | _ \<Rightarrow> [])"

text \<open>Read the followers: how many bytes were accepted before the first bad one, or before the
  input ended.\<close>

fun take_followers :: "(u8 \<Rightarrow> bool) list \<Rightarrow> nat \<Rightarrow> bytes \<Rightarrow> nat option + nat" where
  "take_followers [] n bs = Inr n"
| "take_followers (P # Ps) n [] = Inl None"
| "take_followers (P # Ps) n (c # cs) =
     (if P c then take_followers Ps (n + 1) cs else Inl (Some n))"

text \<open>The sequence that starts with \<open>b\<close>: its width, or the error length when it is malformed
  (\<open>None\<close> when the input ends inside it).\<close>

definition utf8_next :: "u8 \<Rightarrow> bytes \<Rightarrow> nat option + nat" where
  "utf8_next b bs =
     (if utf8_char_width b = 0 then Inl (Some 1) else take_followers (followers b) 1 bs)"

fun utf8_check :: "nat \<Rightarrow> bytes \<Rightarrow> utf8_error option" where
  "utf8_check i [] = None"
| "utf8_check i (b # bs) = (case utf8_next b bs of
     Inl e \<Rightarrow> Some (Utf8Error i e)
   | Inr w \<Rightarrow> utf8_check (i + w) (drop (w - 1) bs))"

definition bytes_string :: "bytes \<Rightarrow> string" where
  "bytes_string bs = map (\<lambda>b. char_of (unat b)) bs"

definition from_utf8 :: "bytes \<Rightarrow> (utf8_error, string) outcome" where
  "from_utf8 bs = (case utf8_check 0 bs of None \<Rightarrow> Ok (bytes_string bs) | Some e \<Rightarrow> Err e)"

definition path_try_from :: "bytes \<Rightarrow> (path_error, path) outcome" where
  "path_try_from value =
     map_ok path_from_string (map_err MalformedPathString (from_utf8 value))"

lemma unat_of_char: "unat (of_char c :: u8) = (of_char c :: nat)"
proof -
  have "(of_char c :: u8) = word_of_nat (of_char c :: nat)"
    by (simp only: of_nat_of_char)
  moreover have "(of_char c :: nat) < 256"
    by (metis of_char_mod_256 mod_less_divisor zero_less_numeral)
  ultimately show ?thesis
    by (simp add: unat_of_nat take_bit_nat_eq_self_iff)
qed

lemma bytes_string_bytes [simp]: "bytes_string (string_bytes s) = s"
  by (induction s) (auto simp: bytes_string_def unat_of_char)

lemma take_followers_append:
  "take_followers Ps n bs = Inr w \<Longrightarrow>
     take_followers Ps n (bs @ ys) = Inr w \<and> n \<le> w \<and> w - n \<le> length bs"
proof (induction Ps n bs rule: take_followers.induct)
  case (3 P Ps n c cs)
  then have "P c" by (auto split: if_splits)
  then show ?case using 3 by auto
qed auto

lemma utf8_next_append:
  assumes "utf8_next b bs = Inr w"
  shows "utf8_next b (bs @ ys) = Inr w" and "0 < w" and "w - 1 \<le> length bs"
proof -
  have nz: "utf8_char_width b \<noteq> 0" and f: "take_followers (followers b) 1 bs = Inr w"
    using assms by (simp_all add: utf8_next_def split: if_split_asm)
  note r = take_followers_append [OF f, of ys]
  show "utf8_next b (bs @ ys) = Inr w" using nz r unfolding utf8_next_def by (simp only: if_False)
  show "0 < w" and "w - 1 \<le> length bs" using r by linarith+
qed

lemma utf8_check_shift: "utf8_check i bs = None \<Longrightarrow> utf8_check j bs = None"
proof (induction i bs arbitrary: j rule: utf8_check.induct)
  case (2 i b bs)
  then obtain w where w: "utf8_next b bs = Inr w" by (auto split: sum.splits)
  with 2 show ?case by simp
qed simp

lemma utf8_check_append:
  "utf8_check i xs = None \<Longrightarrow> utf8_check i (xs @ ys) = utf8_check (i + length xs) ys"
proof (induction i xs rule: utf8_check.induct)
  case (2 i b bs)
  then obtain w where w: "utf8_next b bs = Inr w" by (auto split: sum.splits)
  note next_b = utf8_next_append [OF w]
  have "i + w + length (drop (w - 1) bs) = i + Suc (length bs)"
    using next_b(2,3) by simp
  then show ?case
    using 2 w next_b by (simp add: add.assoc)
qed simp


section \<open>Well-formed paths\<close>

text \<open>
  The paths that \<open>Path::from(String)\<close> builds: at least one identifier and no slash inside an
  identifier. \<open>Path::from(Identifier)\<close> may build others.
\<close>

definition path_ok :: "path \<Rightarrow> bool" where
  "path_ok p \<longleftrightarrow> components p \<noteq> [] \<and> (\<forall>i \<in> set (components p). slash \<notin> set (as_str i))"

text \<open>The strings of Rust are the ones whose bytes are valid UTF-8.\<close>

definition rust_string :: "string \<Rightarrow> bool" where
  "rust_string s \<longleftrightarrow> utf8_check 0 (string_bytes s) = None"

lemma split_on_not_Nil [simp]: "split_on c s \<noteq> []"
  by (induction s) (auto split: list.splits)

lemma split_on_clean: "p \<in> set (split_on c s) \<Longrightarrow> c \<notin> set p"
proof (induction s arbitrary: p)
  case (Cons x s)
  then show ?case by (cases "split_on c s") (auto split: if_splits)
qed simp

lemma join_split_on: "join c (split_on c s) = s"
proof (induction s)
  case (Cons x s)
  obtain p ps where "split_on c s = p # ps"
    using split_on_not_Nil [of c s] by (meson list.exhaust)
  then show ?case using Cons by (cases ps) auto
qed simp

lemma split_on_append: "c \<notin> set p \<Longrightarrow> split_on c (p @ c # s) = p # split_on c s"
  by (induction p) auto

lemma split_on_single: "c \<notin> set p \<Longrightarrow> split_on c p = [p]"
  by (induction p) auto

lemma split_on_join: "ps \<noteq> [] \<Longrightarrow> \<forall>p \<in> set ps. c \<notin> set p \<Longrightarrow> split_on c (join c ps) = ps"
  by (induction c ps rule: join.induct) (auto simp: split_on_single split_on_append)

lemma path_from_string_ok [simp]: "path_ok (path_from_string s)"
  using split_on_clean by (force simp: path_ok_def path_from_string_def identifier_from_string_def)

lemma path_to_from_string: "path_to_string (path_from_string s) = s"
  by (simp add: path_to_string_def path_from_string_def identifier_from_string_def o_def join_split_on)

lemma path_from_to_string: "path_ok p \<Longrightarrow> path_from_string (path_to_string p) = p"
  by (auto simp: path_to_string_def path_from_string_def path_ok_def split_on_join o_def
      identifier_from_string_def intro!: path.expand)

lemma path_from_string_inj: "path_from_string s = path_from_string t \<longleftrightarrow> s = t"
  by (metis path_to_from_string)

lemma path_as_bytes_inj:
  "path_ok p \<Longrightarrow> path_ok q \<Longrightarrow> path_as_bytes p = path_as_bytes q \<longleftrightarrow> p = q"
  by (metis path_as_bytes_def string_bytes_inj path_from_to_string)

lemma rust_string_join:
  assumes "\<forall>p \<in> set ps. rust_string p"
  shows "rust_string (join slash ps)"
  using assms
proof (induction slash ps rule: join.induct)
  case (3 p q ps)
  have sl: "utf8_check i [of_char slash] = None" for i
    by (simp add: utf8_next_def utf8_char_width_def followers_def)
  have "utf8_check 0 (string_bytes p) = None" using 3 by (simp add: rust_string_def)
  note 1 = utf8_check_append [OF this, of "[of_char slash] @ string_bytes (join slash (q # ps))"]
  have "utf8_check (length (string_bytes p) + 1) (string_bytes (join slash (q # ps))) = None"
    using 3 utf8_check_shift unfolding rust_string_def by auto
  with 1 utf8_check_append [OF sl, of "length (string_bytes p)"] show ?case
    by (simp add: rust_string_def del: utf8_check.simps)
qed (auto simp: rust_string_def)

lemma ascii_rust_string:
  assumes "\<forall>c \<in> set s. (of_char c :: u8) < 0x80"
  shows "rust_string s"
proof -
  have "utf8_check i (string_bytes s) = None" for i
    using assms
  proof (induction s arbitrary: i)
    case (Cons c s)
    then have "utf8_next (of_char c) (string_bytes s) = Inr 1"
      by (simp add: utf8_next_def utf8_char_width_def followers_def)
    with Cons show ?case by simp
  qed simp
  then show ?thesis by (simp add: rust_string_def)
qed


section \<open>The order of keys\<close>

text \<open>
  The order the tree is sorted by. On well-formed paths it is the bytewise order of the
  printed strings with the slash moved below every other byte: \<open>slash_rank\<close> is the rank of
  a byte in that order.
\<close>

definition slash_rank :: "char \<Rightarrow> nat" where
  "slash_rank c = (if c = slash then 0 else Suc (of_char c))"

lemma slash_rank_less: "slash_rank slash = 0" "c \<noteq> slash \<Longrightarrow> 0 < slash_rank c"
  by (simp_all add: slash_rank_def)

lemma slash_rank_mono:
  "c \<noteq> slash \<Longrightarrow> d \<noteq> slash \<Longrightarrow> slash_rank c < slash_rank d \<longleftrightarrow> c < d"
  by (simp add: slash_rank_def less_char_def)

lemma slash_rank_inj: "slash_rank c = slash_rank d \<longleftrightarrow> c = d"
  by (auto simp: slash_rank_def)

text \<open>Two strings without slashes, each followed by nothing or by a slash.\<close>

lemma rank_append_less:
  assumes "slash \<notin> set a" and "slash \<notin> set b"
    and u: "u = [] \<or> hd u = slash" and v: "v = [] \<or> hd v = slash"
  shows "map slash_rank (a @ u) < map slash_rank (b @ v) \<longleftrightarrow>
           a < b \<or> a = b \<and> map slash_rank u < map slash_rank v"
  using assms(1,2)
proof (induction a arbitrary: b)
  case Nil
  show ?case
  proof (cases b)
    case (Cons y b')
    then have "0 < slash_rank y" using Nil slash_rank_less(2) [of y] by auto
    then have "map slash_rank u < map slash_rank (b @ v)"
      using u Cons slash_rank_less(1) by (cases u) auto
    then show ?thesis using Cons by simp
  qed simp
next
  case (Cons x a)
  show ?case
  proof (cases b)
    case Nil
    have "0 < slash_rank x" using Cons.prems slash_rank_less(2) [of x] by auto
    then have "\<not> map slash_rank ((x # a) @ u) < map slash_rank v"
      using v slash_rank_less(1) by (cases v) auto
    then show ?thesis using Nil by simp
  next
    case y: (Cons y b')
    have "slash_rank x < slash_rank y \<longleftrightarrow> x < y"
      using Cons.prems y by (intro slash_rank_mono) auto
    then show ?thesis
      using Cons.IH [of b'] Cons.prems y slash_rank_inj [of x y] by auto
  qed
qed

definition tail_of :: "string list \<Rightarrow> string" where
  "tail_of ps = (if ps = [] then [] else slash # join slash ps)"

lemma join_tail: "join slash (p # ps) = p @ tail_of ps"
  by (cases ps) (auto simp: tail_of_def)

lemma join_less:
  assumes "ps \<noteq> []" "qs \<noteq> []" "\<forall>p \<in> set ps. slash \<notin> set p" "\<forall>q \<in> set qs. slash \<notin> set q"
  shows "map slash_rank (join slash ps) < map slash_rank (join slash qs) \<longleftrightarrow> ps < qs"
  using assms
proof (induction ps arbitrary: qs)
  case (Cons p ps)
  then obtain q qs' where qs: "qs = q # qs'" by (cases qs) auto
  have "map slash_rank (tail_of ps) < map slash_rank (tail_of qs') \<longleftrightarrow> ps < qs'"
    using Cons.IH [of qs'] Cons.prems qs
    by (cases "ps = []"; cases "qs' = []") (auto simp: tail_of_def neq_Nil_conv)
  then show ?case
    using rank_append_less [of p q "tail_of ps" "tail_of qs'"] Cons.prems qs
    by (auto simp: join_tail tail_of_def)
qed simp

lemma as_str_inj: "as_str a = as_str b \<longleftrightarrow> a = b"
  by (cases a; cases b) simp

lemma map_as_str_less: "map as_str xs < map as_str ys \<longleftrightarrow> xs < ys"
proof (induction xs arbitrary: ys)
  case Nil
  then show ?case by (cases ys) auto
next
  case (Cons x xs)
  then show ?case by (cases ys) (auto simp: less_ident_def as_str_inj)
qed


section \<open>Properties\<close>

text \<open>
  C37. Printing a path that was read from a string gives the string back, and reading a
  printed path gives the path back for every path with at least one identifier and no slash
  inside an identifier; so on those paths, and only those, the encoding that keys the
  Merkle tree is injective and invertible.
\<close>

theorem path_string_roundtrip:
  "path_to_string (path_from_string s) = s \<and> path_ok (path_from_string s) \<and>
   (path_from_string (path_to_string p) = p \<longleftrightarrow> path_ok p)"
  using path_to_from_string path_from_to_string path_from_string_ok by metis

text \<open>
  Bytes round trip: a path of valid Rust strings encodes to bytes that \<open>try_from\<close>
  validates as UTF-8 and decodes to the same path.
\<close>

theorem path_bytes_roundtrip:
  assumes "path_ok p" and "\<forall>i \<in> set (components p). rust_string (as_str i)"
  shows "path_try_from (path_as_bytes p) = Ok p"
proof -
  have "rust_string (path_to_string p)"
    unfolding path_to_string_def by (rule rust_string_join) (use assms(2) in auto)
  then have "from_utf8 (path_as_bytes p) = Ok (path_to_string p)"
    by (simp add: from_utf8_def path_as_bytes_def rust_string_def)
  then show ?thesis
    using path_from_to_string [OF assms(1)] by (simp add: path_try_from_def)
qed

text \<open>
  C38. The order the Merkle tree sorts its keys by is the bytewise order of the printed
  paths with the slash ranked below every other byte, whatever the identifiers contain.
\<close>

theorem path_order_slash_first:
  assumes "path_ok p" and "path_ok q"
  shows "p < q \<longleftrightarrow> map slash_rank (path_to_string p) < map slash_rank (path_to_string q)"
proof -
  have "p < q \<longleftrightarrow> map as_str (components p) < map as_str (components q)"
    by (simp add: less_path_def map_as_str_less)
  also have "\<dots> \<longleftrightarrow> map slash_rank (path_to_string p) < map slash_rank (path_to_string q)"
    unfolding path_to_string_def using assms
    by (intro join_less [symmetric]) (auto simp: path_ok_def)
  finally show ?thesis .
qed

text \<open>
  The key order is not the order of the key bytes: \<open>a/b\<close> sorts before \<open>a-b\<close> in the tree
  while its bytes come after. A verifier that compares key bytes, as ICS23 does for
  non-existence proofs, sees such neighbours in the wrong order.
\<close>

theorem path_order_not_bytewise:
  "path_from_string ''a/b'' < path_from_string ''a-b'' \<and>
   path_as_bytes (path_from_string ''a-b'') < path_as_bytes (path_from_string ''a/b'')"
  by code_simp


section \<open>Witnesses\<close>

theorem path_bytes_roundtrip_witness:
  "path_try_from (path_as_bytes (path_from_string ''clients/07-tendermint-0'')) =
     Ok (Path [Identifier ''clients'', Identifier ''07-tendermint-0''])"
proof -
  have p: "path_from_string ''clients/07-tendermint-0'' =
      Path [Identifier ''clients'', Identifier ''07-tendermint-0'']"
    by code_simp
  have ok: "path_ok (Path [Identifier ''clients'', Identifier ''07-tendermint-0''])"
    using path_from_string_ok [of "''clients/07-tendermint-0''"] unfolding p .
  have s: "\<forall>i \<in> set (components (Path [Identifier ''clients'', Identifier ''07-tendermint-0''])).
      rust_string (as_str i)"
    by code_simp
  show ?thesis unfolding p by (rule path_bytes_roundtrip [OF ok s])
qed

theorem path_order_slash_first_witness:
  "map slash_rank ''a/b'' < map slash_rank ''a-b''"
proof -
  have "path_from_string ''a/b'' < path_from_string ''a-b''" by code_simp
  then show ?thesis
    using path_order_slash_first [of "path_from_string ''a/b''" "path_from_string ''a-b''"]
    by (simp add: path_to_from_string)
qed

end
