(* ===== verification/Avl_Proof.thy ===== *)
theory Avl_Proof
  imports Avl_Tree
begin

text \<open>
  ICS23 proofs from the AVL tree: \<open>basecoin/store/src/avl/proof.rs\<close> and the \<open>get_proof\<close>
  functions of \<open>avl/tree.rs\<close>. The proof structures come from the \<open>ics23\<close> crate; the records
  hold the fields the code fills in, the enumerations the constants it uses. Of the variants
  of \<open>commitment_proof::Proof\<close> the code only builds the two below, which is why its
  \<open>unreachable!()\<close> arms have no counterpart.

  \<open>existence_root\<close> is the calculation a verifier does with an existence proof, as the test
  \<open>proof\<close> in \<open>avl/tests.rs\<close> spells it out: hash the leaf from prefix, key and value, then wrap
  it in prefix and suffix of each inner operation. The theorems say that every proof the
  tree produces leads to the root hash of the tree, for the entry itself or for the two
  neighbours of a missing key.
\<close>

section \<open>Proof structures\<close>

datatype hash_op = NoHash | Sha256
datatype length_op = NoPrefix

record leaf_op =
  lo_hash :: hash_op
  lo_prehash_key :: hash_op
  lo_prehash_value :: hash_op
  lo_length :: length_op
  lo_prefix :: bytes

record inner_op =
  io_hash :: hash_op
  io_prefix :: bytes
  io_suffix :: bytes

record existence_proof =
  ep_key :: bytes
  ep_value :: bytes
  ep_leaf :: "leaf_op option"
  ep_path :: "inner_op list"

record non_existence_proof =
  ne_key :: bytes
  ne_left :: "existence_proof option"
  ne_right :: "existence_proof option"

datatype proof_kind = Exist existence_proof | Nonexist non_existence_proof

record commitment_proof =
  cp_proof :: "proof_kind option"

record inner_spec =
  is_child_order :: "int list"
  is_child_size :: int
  is_min_prefix_length :: int
  is_max_prefix_length :: int
  is_empty_child :: bytes
  is_hash :: hash_op

record proof_spec =
  ps_leaf_spec :: "leaf_op option"
  ps_inner_spec :: "inner_spec option"
  ps_max_depth :: int
  ps_min_depth :: int
  ps_prehash_key_before_comparison :: bool

definition get_leaf_op :: leaf_op where
  "get_leaf_op = \<lparr>lo_hash = Sha256, lo_prehash_key = NoHash, lo_prehash_value = NoHash,
     lo_length = NoPrefix, lo_prefix = LEAF_PREFIX\<rparr>"

definition get_proof_spec :: proof_spec where
  "get_proof_spec = \<lparr>ps_leaf_spec = Some get_leaf_op,
     ps_inner_spec = Some \<lparr>is_child_order = [0, 1, 2], is_child_size = 32,
       is_min_prefix_length = 0, is_max_prefix_length = 64, is_empty_child = EMPTY_CHILD,
       is_hash = Sha256\<rparr>,
     ps_max_depth = 0, ps_min_depth = 0, ps_prehash_key_before_comparison = False\<rparr>"


section \<open>Building proofs\<close>

definition push_inner :: "inner_op \<Rightarrow> existence_proof \<Rightarrow> existence_proof" where
  "push_inner io p = p\<lparr>ep_path := ep_path p @ [io]\<rparr>"

definition get_local_existence_proof ::
  "('k \<Rightarrow> bytes) \<Rightarrow> 'k \<Rightarrow> bytes \<Rightarrow> bytes option \<Rightarrow> bytes option \<Rightarrow> existence_proof" where
  "get_local_existence_proof ab k v lh rh =
     \<lparr>ep_key = ab k, ep_value = v, ep_leaf = Some get_leaf_op,
      ep_path = [\<lparr>io_hash = Sha256, io_prefix = unwrap_or EMPTY_CHILD lh,
        io_suffix = unwrap_or EMPTY_CHILD rh\<rparr>]\<rparr>"

fun get_proof_rec :: "('k::linorder \<Rightarrow> bytes) \<Rightarrow> 'k \<Rightarrow> 'k node_ref \<Rightarrow> proof_kind" where
  "get_proof_rec ab key Empty = Nonexist \<lparr>ne_key = ab key, ne_left = None, ne_right = None\<rparr>"
| "get_proof_rec ab key (Node k v h m n l r) =
     (let here = get_local_existence_proof ab k v (stored_merkle l) (stored_merkle r) in
      case cmp k key of
        Greater \<Rightarrow>
          (let inner = \<lparr>io_hash = Sha256, io_prefix = [],
                 io_suffix = h @ unwrap_or EMPTY_CHILD (stored_merkle r)\<rparr> in
           case get_proof_rec ab key l of
             Exist p \<Rightarrow> Exist (push_inner inner p)
           | Nonexist p \<Rightarrow>
               Nonexist (p\<lparr>
                 ne_right := (case ne_right p of
                     None \<Rightarrow> Some here | Some q \<Rightarrow> Some (push_inner inner q)),
                 ne_left := map_option (push_inner inner) (ne_left p)\<rparr>))
      | Less \<Rightarrow>
          (let inner = \<lparr>io_hash = Sha256,
                 io_prefix = unwrap_or EMPTY_CHILD (stored_merkle l) @ h, io_suffix = []\<rparr> in
           case get_proof_rec ab key r of
             Exist p \<Rightarrow> Exist (push_inner inner p)
           | Nonexist p \<Rightarrow>
               Nonexist (p\<lparr>
                 ne_right := map_option (push_inner inner) (ne_right p),
                 ne_left := (case ne_left p of
                     None \<Rightarrow> Some here | Some q \<Rightarrow> Some (push_inner inner q))\<rparr>))
      | Equal \<Rightarrow> Exist here)"

definition avl_get_proof :: "('k::linorder \<Rightarrow> bytes) \<Rightarrow> 'k \<Rightarrow> 'k avl_tree \<Rightarrow> commitment_proof" where
  "avl_get_proof ab key t = \<lparr>cp_proof = Some (get_proof_rec ab key (root t))\<rparr>"


section \<open>The verifier's calculation\<close>

fun do_hash :: "(bytes \<Rightarrow> bytes) \<Rightarrow> hash_op \<Rightarrow> bytes \<Rightarrow> bytes" where
  "do_hash sha NoHash bs = bs"
| "do_hash sha Sha256 bs = sha bs"

fun do_length :: "length_op \<Rightarrow> bytes \<Rightarrow> bytes" where
  "do_length NoPrefix bs = bs"

definition apply_leaf :: "(bytes \<Rightarrow> bytes) \<Rightarrow> leaf_op \<Rightarrow> bytes \<Rightarrow> bytes \<Rightarrow> bytes" where
  "apply_leaf sha lo key value =
     do_hash sha (lo_hash lo)
       (lo_prefix lo @ do_length (lo_length lo) (do_hash sha (lo_prehash_key lo) key)
          @ do_length (lo_length lo) (do_hash sha (lo_prehash_value lo) value))"

definition apply_inner :: "(bytes \<Rightarrow> bytes) \<Rightarrow> inner_op \<Rightarrow> bytes \<Rightarrow> bytes" where
  "apply_inner sha io child = do_hash sha (io_hash io) (io_prefix io @ child @ io_suffix io)"

definition existence_root :: "(bytes \<Rightarrow> bytes) \<Rightarrow> existence_proof \<Rightarrow> bytes option" where
  "existence_root sha p = (case ep_leaf p of
     None \<Rightarrow> None
   | Some lo \<Rightarrow> Some (fold (apply_inner sha) (ep_path p) (apply_leaf sha lo (ep_key p) (ep_value p))))"

text \<open>A verifier accepts a proof for key, value and root when it carries the leaf operation of
  the proof spec and the calculation ends at the root.\<close>

definition proves_entry :: "(bytes \<Rightarrow> bytes) \<Rightarrow> ('k \<Rightarrow> bytes) \<Rightarrow> bytes \<Rightarrow> existence_proof \<Rightarrow> 'k \<times> bytes \<Rightarrow> bool" where
  "proves_entry sha ab root_hash p e \<longleftrightarrow>
     ep_key p = ab (fst e) \<and> ep_value p = snd e \<and> ep_leaf p = ps_leaf_spec get_proof_spec \<and>
     existence_root sha p = Some root_hash"

text \<open>The nearest entries on both sides of a key.\<close>

definition below :: "'k::linorder \<Rightarrow> ('k \<times> bytes) list \<Rightarrow> ('k \<times> bytes) option" where
  "below key xs = (let ys = filter (\<lambda>e. fst e < key) xs in if ys = [] then None else Some (last ys))"

definition above :: "'k::linorder \<Rightarrow> ('k \<times> bytes) list \<Rightarrow> ('k \<times> bytes) option" where
  "above key xs = (let ys = filter (\<lambda>e. key < fst e) xs in if ys = [] then None else Some (hd ys))"

lemma proves_local:
  assumes "integrity sha ab (Node k v h m n l r)"
  shows "proves_entry sha ab m
           (get_local_existence_proof ab k v (stored_merkle l) (stored_merkle r)) (k, v)"
  using assms
  by (simp add: proves_entry_def get_local_existence_proof_def existence_root_def get_proof_spec_def
      get_leaf_op_def apply_leaf_def apply_inner_def local_hash_def mh_def)

lemma proves_push:
  assumes "proves_entry sha ab c p e" and "m = sha (pre @ c @ suf)"
  shows "proves_entry sha ab m (push_inner \<lparr>io_hash = Sha256, io_prefix = pre, io_suffix = suf\<rparr> p) e"
  using assms
  by (auto simp: proves_entry_def push_inner_def existence_root_def apply_inner_def
      split: option.splits)

lemma proves_push_left:
  assumes "integrity sha ab (Node k v h m n l r)" and "proves_entry sha ab (mh l) p e"
  shows "proves_entry sha ab m (push_inner \<lparr>io_hash = Sha256, io_prefix = [],
           io_suffix = h @ unwrap_or EMPTY_CHILD (stored_merkle r)\<rparr> p) e"
  using assms by (intro proves_push) (auto simp: mh_def)

lemma proves_push_right:
  assumes "integrity sha ab (Node k v h m n l r)" and "proves_entry sha ab (mh r) p e"
  shows "proves_entry sha ab m (push_inner \<lparr>io_hash = Sha256,
           io_prefix = unwrap_or EMPTY_CHILD (stored_merkle l) @ h, io_suffix = []\<rparr> p) e"
  using assms by (intro proves_push) (auto simp: mh_def)

lemma get_proof_rec_exist:
  assumes "integrity sha ab t" and "get_rec key t = Some v"
  shows "\<exists>p. get_proof_rec ab key t = Exist p \<and> proves_entry sha ab (mh t) p (key, v)"
  using assms
proof (induction t)
  case (Node k w h m n l r)
  show ?case
  proof (cases k key rule: cmp_cases)
    case less
    then obtain p where "get_proof_rec ab key r = Exist p" "proves_entry sha ab (mh r) p (key, v)"
      using Node by auto
    then show ?thesis using less proves_push_right [OF Node.prems(1)] by (simp add: Let_def)
  next
    case equal
    then show ?thesis using Node.prems proves_local [OF Node.prems(1)] by (simp add: Let_def)
  next
    case greater
    then obtain p where "get_proof_rec ab key l = Exist p" "proves_entry sha ab (mh l) p (key, v)"
      using Node by auto
    then show ?thesis using greater proves_push_left [OF Node.prems(1)] by (simp add: Let_def)
  qed
qed simp

lemma below_above_split:
  assumes "\<forall>e \<in> set xs. fst e < (k::'k::linorder)" and "\<forall>e \<in> set ys. k < fst e"
  shows "key < k \<Longrightarrow> below key (xs @ (k, v) # ys) = below key xs"
    and "key < k \<Longrightarrow> above key (xs @ (k, v) # ys) =
           (case above key xs of None \<Rightarrow> Some (k, v) | Some e \<Rightarrow> Some e)"
    and "k < key \<Longrightarrow> below key (xs @ (k, v) # ys) =
           (case below key ys of None \<Rightarrow> Some (k, v) | Some e \<Rightarrow> Some e)"
    and "k < key \<Longrightarrow> above key (xs @ (k, v) # ys) = above key ys"
proof -
  show "below key (xs @ (k, v) # ys) = below key xs" if "key < k"
  proof -
    have "\<forall>e \<in> set ys. key < fst e" using assms(2) that by (auto dest: less_trans)
    then show ?thesis using that less_not_sym [OF that] by (simp add: below_def entry_filters)
  qed
  show "above key (xs @ (k, v) # ys) = (case above key xs of None \<Rightarrow> Some (k, v) | Some e \<Rightarrow> Some e)"
    if "key < k"
    using that less_imp_not_less [OF that] by (auto simp: above_def Let_def)
  show "below key (xs @ (k, v) # ys) = (case below key ys of None \<Rightarrow> Some (k, v) | Some e \<Rightarrow> Some e)"
    if "k < key"
    using that less_imp_not_less [OF that] by (auto simp: below_def Let_def)
  show "above key (xs @ (k, v) # ys) = above key ys" if "k < key"
  proof -
    have "\<forall>e \<in> set xs. fst e < key" using assms(1) that by (auto dest: less_trans)
    then show ?thesis using that less_not_sym [OF that] by (simp add: above_def entry_filters)
  qed
qed

definition absence_proof ::
  "(bytes \<Rightarrow> bytes) \<Rightarrow> ('k::linorder \<Rightarrow> bytes) \<Rightarrow> bytes \<Rightarrow> ('k \<times> bytes) list \<Rightarrow> 'k \<Rightarrow>
   non_existence_proof \<Rightarrow> bool" where
  "absence_proof sha ab root_hash xs key p \<longleftrightarrow>
     ne_key p = ab key \<and>
     rel_option (proves_entry sha ab root_hash) (ne_left p) (below key xs) \<and>
     rel_option (proves_entry sha ab root_hash) (ne_right p) (above key xs)"

lemma rel_push_left:
  assumes int: "integrity sha ab (Node k v h m n l r)"
    and rel: "rel_option (proves_entry sha ab (mh l)) x y"
    and io: "io = \<lparr>io_hash = Sha256, io_prefix = [], io_suffix = h @ unwrap_or EMPTY_CHILD (stored_merkle r)\<rparr>"
    and here: "here = get_local_existence_proof ab k v (stored_merkle l) (stored_merkle r)"
  shows "rel_option (proves_entry sha ab m) (map_option (push_inner io) x) y"
    and "rel_option (proves_entry sha ab m)
           (case x of None \<Rightarrow> Some here | Some q \<Rightarrow> Some (push_inner io q))
           (case y of None \<Rightarrow> Some (k, v) | Some e \<Rightarrow> Some e)"
  using rel proves_push_left [OF int] proves_local [OF int] unfolding io here
  by (cases x; cases y; simp)+

lemma rel_push_right:
  assumes int: "integrity sha ab (Node k v h m n l r)"
    and rel: "rel_option (proves_entry sha ab (mh r)) x y"
    and io: "io = \<lparr>io_hash = Sha256, io_prefix = unwrap_or EMPTY_CHILD (stored_merkle l) @ h, io_suffix = []\<rparr>"
    and here: "here = get_local_existence_proof ab k v (stored_merkle l) (stored_merkle r)"
  shows "rel_option (proves_entry sha ab m) (map_option (push_inner io) x) y"
    and "rel_option (proves_entry sha ab m)
           (case x of None \<Rightarrow> Some here | Some q \<Rightarrow> Some (push_inner io q))
           (case y of None \<Rightarrow> Some (k, v) | Some e \<Rightarrow> Some e)"
  using rel proves_push_right [OF int] proves_local [OF int] unfolding io here
  by (cases x; cases y; simp)+

lemma get_proof_rec_nonexist:
  assumes "integrity sha ab t" and "bst t" and "get_rec key t = None"
  shows "\<exists>p. get_proof_rec ab key t = Nonexist p \<and> absence_proof sha ab (mh t) (inorder t) key p"
  using assms
proof (induction t)
  case Empty
  then show ?case by (simp add: absence_proof_def below_def above_def)
next
  case (Node k w h m n l r)
  note order = Node.prems(2) [unfolded bst_Node]
  note int = Node.prems(1)
  show ?case
  proof (cases k key rule: cmp_cases)
    case less
    then obtain p where rec: "get_proof_rec ab key r = Nonexist p"
      and p: "absence_proof sha ab (mh r) (inorder r) key p"
      using Node order by auto
    note push = rel_push_right [OF int _ refl refl]
    show ?thesis
      using rec p less order by (simp add: Let_def absence_proof_def below_above_split push)
  next
    case equal
    then show ?thesis using Node.prems by simp
  next
    case greater
    then obtain p where rec: "get_proof_rec ab key l = Nonexist p"
      and p: "absence_proof sha ab (mh l) (inorder l) key p"
      using Node order by auto
    note push = rel_push_left [OF int _ refl refl]
    show ?thesis
      using rec p greater order by (simp add: Let_def absence_proof_def below_above_split push)
  qed
qed


section \<open>Properties\<close>

lemma root_hash_mh: "root t \<noteq> Empty \<Longrightarrow> avl_root_hash t = Some (mh (root t))"
  by (cases "root t") (auto simp: avl_root_hash_def)

lemma avl_existence:
  assumes "avl_ok sha ab t" and "avl_get key t = Some v"
  obtains p rh where "avl_get_proof ab key t = \<lparr>cp_proof = Some (Exist p)\<rparr>"
    and "avl_root_hash t = Some rh" and "proves_entry sha ab rh p (key, v)"
proof -
  from assms obtain p where "get_proof_rec ab key (root t) = Exist p"
    and "proves_entry sha ab (mh (root t)) p (key, v)"
    using get_proof_rec_exist by (metis avl_ok_def avl_get_def)
  moreover have "root t \<noteq> Empty" using assms(2) by (auto simp: avl_get_def)
  ultimately show ?thesis using that by (simp add: avl_get_proof_def root_hash_mh)
qed

lemma avl_nonexistence:
  assumes "avl_ok sha ab t" and "avl_get key t = None"
  obtains p where "avl_get_proof ab key t = \<lparr>cp_proof = Some (Nonexist p)\<rparr>"
    and "absence_proof sha ab (mh (root t)) (avl_entries t) key p"
  using get_proof_rec_nonexist [of sha ab "root t" key] assms that
  by (auto simp: avl_ok_def avl_get_def avl_get_proof_def avl_entries_def)

text \<open>
  C16. For a key that is present, \<open>get_proof\<close> returns an existence proof for exactly that key
  and the stored value, and the verifier's calculation on it ends at the root hash of the
  tree.
\<close>

theorem avl_existence_proof_verifies:
  assumes "avl_ok sha ab t" and "avl_get key t = Some v"
  shows "\<exists>p rh. avl_get_proof ab key t = \<lparr>cp_proof = Some (Exist p)\<rparr> \<and>
           avl_root_hash t = Some rh \<and> proves_entry sha ab rh p (key, v)"
  using avl_existence [OF assms] by metis

text \<open>
  C17. For a key that is absent, \<open>get_proof\<close> returns a non-existence proof for that key whose
  left and right parts are existence proofs, against the root hash, of the greatest entry
  below the key and of the least entry above it; a part is missing exactly when there is no
  such entry.
\<close>

theorem avl_absence_proof_verifies:
  assumes "avl_ok sha ab t" and "avl_get key t = None" and "avl_root_hash t = Some rh"
  shows "\<exists>p. avl_get_proof ab key t = \<lparr>cp_proof = Some (Nonexist p)\<rparr> \<and>
           absence_proof sha ab rh (avl_entries t) key p"
proof -
  have "rh = mh (root t)"
    using assms(3) by (cases "root t") (auto simp: avl_root_hash_def)
  then show ?thesis using avl_nonexistence [OF assms(1,2)] by metis
qed

text \<open>
  The leaf operation has no length prefix, so it does not fix where the key ends and the
  value begins: a proof that verifies for one entry verifies, with its key and value fields
  exchanged, for every other entry whose key and value have the same concatenation.
\<close>

theorem leaf_boundary_ambiguous:
  assumes "proves_entry sha ab rh p (k, v)" and "ab k' @ v' = ab k @ v"
  shows "proves_entry sha ab rh (p\<lparr>ep_key := ab k', ep_value := v'\<rparr>) (k', v')"
  using assms
  by (auto simp: proves_entry_def existence_root_def get_proof_spec_def get_leaf_op_def
      apply_leaf_def)


section \<open>Witnesses\<close>

theorem avl_existence_proof_verifies_witness:
  "avl_get 3 (tree_of [5, 3, 8]) = Some [1] \<and>
   (\<exists>p rh. avl_get_proof key_byte 3 (tree_of [5, 3, 8]) = \<lparr>cp_proof = Some (Exist p)\<rparr> \<and>
      avl_root_hash (tree_of [5, 3, 8]) = Some rh \<and> proves_entry id key_byte rh p (3, [1]))"
proof -
  have g: "avl_get 3 (tree_of [5, 3, 8]) = Some [1]" by code_simp
  show ?thesis using g avl_existence_proof_verifies [OF tree_of_ok g] by blast
qed

theorem avl_absence_proof_verifies_witness:
  "avl_get 4 (tree_of [5, 3, 8]) = None \<and>
   (\<exists>p rh. avl_root_hash (tree_of [5, 3, 8]) = Some rh \<and>
      avl_get_proof key_byte 4 (tree_of [5, 3, 8]) = \<lparr>cp_proof = Some (Nonexist p)\<rparr> \<and>
      absence_proof id key_byte rh [(3, [1]), (5, [1]), (8, [1])] 4 p)"
proof -
  have g: "avl_get 4 (tree_of [5, 3, 8]) = None"
    and e: "avl_entries (tree_of [5, 3, 8]) = [(3, [1]), (5, [1]), (8, [1])]"
    and "avl_root_hash (tree_of [5, 3, 8]) \<noteq> None"
    by code_simp+
  then obtain rh where rh: "avl_root_hash (tree_of [5, 3, 8]) = Some rh" by blast
  show ?thesis using g rh avl_absence_proof_verifies [OF tree_of_ok g rh] e by auto
qed

theorem leaf_boundary_ambiguous_witness:
  "\<exists>p. proves_entry id id (LEAF_PREFIX @ [1, 2, 3]) p ([1, 2], [3]) \<and>
     proves_entry id id (LEAF_PREFIX @ [1, 2, 3]) (p\<lparr>ep_key := [1], ep_value := [2, 3]\<rparr>) ([1], [2, 3])"
proof -
  let ?p = "\<lparr>ep_key = [1, 2], ep_value = [3], ep_leaf = Some get_leaf_op, ep_path = []\<rparr>"
  have p: "proves_entry id id (LEAF_PREFIX @ [1, 2, 3]) ?p ([1, 2], [3])" by code_simp
  then show ?thesis using leaf_boundary_ambiguous [OF p, of "[1]" "[2, 3]"] by auto
qed

end
