(* ===== verification/Store.thy ===== *)
theory Store
  imports Path Avl_Proof
begin

text \<open>
  The store interface: \<open>basecoin/store/src/context.rs\<close>, \<open>types/height.rs\<close>, the codecs of
  \<open>utils/codec.rs\<close> and the typed view of \<open>types/store.rs\<close>.

  A Rust trait is a record of its methods: \<open>store_ops\<close> is \<open>Store\<close>, its extension
  \<open>provable_ops\<close> is \<open>ProvableStore\<close>, and a type that implements the trait is a value of the
  record. A method on \<open>&mut self\<close> takes the state last and returns its outcome with the new
  state. \<open>get\<close> and the other methods on \<open>&self\<close> are functions of the state.

  What a store promises is stated against \<open>chain\<close>, an abstract store of plain maps. The
  locale \<open>kv_store\<close> is what a user of one transaction relies on, \<open>chain_store\<close> adds
  transactions and blocks, \<open>pruning_store\<close> adds pruning.
\<close>

section \<open>Heights\<close>

datatype height = Pending | Latest | Stable u64

definition height_from :: "u64 \<Rightarrow> height" where
  "height_from h = (if h = 0 then Latest else Stable h)"


section \<open>The traits\<close>

record ('s, 'e) store_ops =
  st_set :: "path \<Rightarrow> bytes \<Rightarrow> 's \<Rightarrow> ('e, bytes option) outcome \<times> 's"
  st_get :: "height \<Rightarrow> path \<Rightarrow> 's \<Rightarrow> bytes option"
  st_delete :: "path \<Rightarrow> 's \<Rightarrow> ('e, unit) outcome \<times> 's"
  st_commit :: "'s \<Rightarrow> ('e, bytes) outcome \<times> 's"
  st_apply :: "'s \<Rightarrow> ('e, unit) outcome \<times> 's"
  st_reset :: "'s \<Rightarrow> ('e, unit) outcome \<times> 's"
  st_prune :: "u64 \<Rightarrow> 's \<Rightarrow> ('e, u64) outcome \<times> 's"
  st_current_height :: "'s \<Rightarrow> u64"
  st_get_keys :: "path \<Rightarrow> 's \<Rightarrow> path list"

record ('s, 'e) provable_ops = "('s, 'e) store_ops" +
  st_root_hash :: "'s \<Rightarrow> bytes"
  st_get_proof :: "height \<Rightarrow> path \<Rightarrow> 's \<Rightarrow> commitment_proof option"

text \<open>The default methods of the trait.\<close>

definition default_apply :: "'s \<Rightarrow> ('e, unit) outcome \<times> 's" where
  "default_apply s = (Ok (), s)"

definition default_reset :: "'s \<Rightarrow> ('e, unit) outcome \<times> 's" where
  "default_reset s = (Ok (), s)"

definition default_prune :: "u64 \<Rightarrow> 's \<Rightarrow> ('e, u64) outcome \<times> 's" where
  "default_prune height s = (Ok height, s)"


section \<open>Codecs\<close>

record 'v codec =
  encode :: "'v \<Rightarrow> bytes option"
  decode :: "bytes \<Rightarrow> 'v option"

text \<open>\<open>JsonCodec\<close> over the functions \<open>to_string\<close> and \<open>from_str\<close> of \<open>serde_json\<close>.\<close>

definition json_codec :: "('v \<Rightarrow> string option) \<Rightarrow> (string \<Rightarrow> 'v option) \<Rightarrow> 'v codec" where
  "json_codec to_json from_json = \<lparr>
     encode = (\<lambda>d. map_option string_bytes (to_json d)),
     decode = (\<lambda>bs. case from_utf8 bs of Ok s \<Rightarrow> from_json s | _ \<Rightarrow> None)\<rparr>"

definition null_codec :: "unit codec" where
  "null_codec = \<lparr>
     encode = (\<lambda>_. Some [0]),
     decode = (\<lambda>bs. if bs = [0] then Some () else None)\<rparr>"

text \<open>\<open>ProtobufCodec\<close> over the message type: the conversions \<open>into\<close> and \<open>try_into\<close> and the
  functions \<open>encode_to_vec\<close> and \<open>decode\<close> of \<open>prost\<close>.\<close>

definition protobuf_codec ::
  "('v \<Rightarrow> 'r) \<Rightarrow> ('r \<Rightarrow> 'v option) \<Rightarrow> ('r \<Rightarrow> bytes) \<Rightarrow> (bytes \<Rightarrow> 'r option) \<Rightarrow> 'v codec" where
  "protobuf_codec into_raw try_into_domain encode_to_vec decode_raw = \<lparr>
     encode = (\<lambda>d. Some (encode_to_vec (into_raw d))),
     decode = (\<lambda>bs. Option.bind (decode_raw bs) try_into_domain)\<rparr>"

text \<open>\<open>BinCodec\<close> over the conversions of the value type to and from bytes.\<close>

definition bin_codec :: "('v \<Rightarrow> bytes) \<Rightarrow> (bytes \<Rightarrow> 'v) \<Rightarrow> 'v codec" where
  "bin_codec as_ref from_vec = \<lparr>
     encode = (\<lambda>d. Some (as_ref d)),
     decode = (\<lambda>bs. Some (from_vec bs))\<rparr>"

text \<open>A value is storable when the codec encodes it and decodes the encoding to it.\<close>

definition codec_ok :: "'v codec \<Rightarrow> 'v \<Rightarrow> bool" where
  "codec_ok c v \<longleftrightarrow> (case encode c v of None \<Rightarrow> False | Some bs \<Rightarrow> decode c bs = Some v)"

lemma json_codec_ok:
  assumes "to_json v = Some s" and "from_json s = Some v" and "rust_string s"
  shows "codec_ok (json_codec to_json from_json) v"
  using assms by (simp add: codec_ok_def json_codec_def from_utf8_def rust_string_def)

lemma null_codec_ok: "codec_ok null_codec v"
  by (simp add: codec_ok_def null_codec_def)

lemma protobuf_codec_ok:
  assumes "decode_raw (encode_to_vec (into_raw v)) = Some (into_raw v)"
    and "try_into_domain (into_raw v) = Some v"
  shows "codec_ok (protobuf_codec into_raw try_into_domain encode_to_vec decode_raw) v"
  using assms by (simp add: codec_ok_def protobuf_codec_def)

lemma bin_codec_ok: "from_vec (as_ref v) = v \<Longrightarrow> codec_ok (bin_codec as_ref from_vec) v"
  by (simp add: codec_ok_def bin_codec_def)


section \<open>The typed view\<close>

text \<open>
  \<open>TypedStore<S, K, C>\<close> is a store with a way to print keys (\<open>K::to_string\<close>) and a codec; the
  two are the record \<open>typed\<close>. An encoding that fails is the panic of \<open>unwrap\<close>.
\<close>

record ('k, 'v) typed =
  key_string :: "'k \<Rightarrow> string"
  codec :: "'v codec"

definition typed_path :: "('k, 'v) typed \<Rightarrow> 'k \<Rightarrow> path" where
  "typed_path ty k = path_from_string (key_string ty k)"

definition ts_set ::
  "('s, 'e, 'z) store_ops_scheme \<Rightarrow> ('k, 'v) typed \<Rightarrow> 'k \<Rightarrow> 'v \<Rightarrow> 's \<Rightarrow> ('e, 'v option) outcome \<times> 's" where
  "ts_set ops ty k v s = (case encode (codec ty) v of
     None \<Rightarrow> (Panic, s)
   | Some bs \<Rightarrow> (case st_set ops (typed_path ty k) bs s of
       (r, s') \<Rightarrow> (map_ok (\<lambda>prev. Option.bind prev (decode (codec ty))) r, s')))"

definition ts_delete ::
  "('s, 'e, 'z) store_ops_scheme \<Rightarrow> ('k, 'v) typed \<Rightarrow> 'k \<Rightarrow> 's \<Rightarrow> ('e, unit) outcome \<times> 's" where
  "ts_delete ops ty k s = st_delete ops (typed_path ty k) s"

definition ts_get ::
  "('s, 'e, 'z) store_ops_scheme \<Rightarrow> ('k, 'v) typed \<Rightarrow> height \<Rightarrow> 'k \<Rightarrow> 's \<Rightarrow> 'v option" where
  "ts_get ops ty h k s = Option.bind (st_get ops h (typed_path ty k) s) (decode (codec ty))"

definition ts_get_keys :: "('s, 'e, 'z) store_ops_scheme \<Rightarrow> path \<Rightarrow> 's \<Rightarrow> path list" where
  "ts_get_keys ops key_prefix s = st_get_keys ops key_prefix s"

definition ts_current_height :: "('s, 'e, 'z) store_ops_scheme \<Rightarrow> 's \<Rightarrow> u64" where
  "ts_current_height ops s = st_current_height ops s"

text \<open>The two methods of a \<open>TypedSet\<close>, whose codec is the null codec.\<close>

definition ts_set_path ::
  "('s, 'e, 'z) store_ops_scheme \<Rightarrow> ('k, unit) typed \<Rightarrow> 'k \<Rightarrow> 's \<Rightarrow> ('e, unit) outcome \<times> 's" where
  "ts_set_path ops ty k s = (case encode null_codec () of
     None \<Rightarrow> (Panic, s)
   | Some bs \<Rightarrow> (case st_set ops (typed_path ty k) bs s of (r, s') \<Rightarrow> (map_ok (\<lambda>_. ()) r, s')))"

definition ts_is_path_set ::
  "('s, 'e, 'z) store_ops_scheme \<Rightarrow> ('k, unit) typed \<Rightarrow> height \<Rightarrow> 'k \<Rightarrow> 's \<Rightarrow> bool" where
  "ts_is_path_set ops ty h k s \<longleftrightarrow> st_get ops h (typed_path ty k) s \<noteq> None"

lemma typed_path_inj:
  "inj (key_string ty) \<Longrightarrow> typed_path ty k = typed_path ty j \<longleftrightarrow> k = j"
  by (auto simp: typed_path_def path_from_string_inj dest: injD)


section \<open>The contract of a key-value store\<close>

text \<open>\<open>kv_updated\<close>: the pending state changes at one path, nothing committed changes.\<close>

definition kv_updated ::
  "('s, 'e, 'z) store_ops_scheme \<Rightarrow> path \<Rightarrow> bytes option \<Rightarrow> 's \<Rightarrow> 's \<Rightarrow> bool" where
  "kv_updated ops p x s s' \<longleftrightarrow>
     (\<forall>q. st_get ops Pending q s' = (if q = p then x else st_get ops Pending q s)) \<and>
     (\<forall>h q. h \<noteq> Pending \<longrightarrow> st_get ops h q s' = st_get ops h q s)"

locale kv_store =
  fixes ops :: "('s, 'e, 'z) store_ops_scheme"
    and invar :: "'s \<Rightarrow> bool"
    and storable :: "bytes \<Rightarrow> bool"
  assumes set_law: "invar s \<Longrightarrow> storable v \<Longrightarrow>
      \<exists>r s'. st_set ops p v s = (Ok r, s') \<and> invar s' \<and> kv_updated ops p (Some v) s s'"
    and delete_law: "invar s \<Longrightarrow>
      \<exists>s'. st_delete ops p s = (Ok (), s') \<and> invar s' \<and> kv_updated ops p None s s'"
begin

text \<open>Reading back through the typed view.\<close>

lemma ts_set_get:
  assumes "invar s" and "encode (codec ty) v = Some bs" and "decode (codec ty) bs = Some v"
    and "storable bs" and "inj (key_string ty)"
  obtains r s' where "ts_set ops ty k v s = (Ok r, s')" and "invar s'"
    and "\<And>j. ts_get ops ty Pending j s' = (if j = k then Some v else ts_get ops ty Pending j s)"
    and "kv_updated ops (typed_path ty k) (Some bs) s s'"
proof -
  from set_law [OF assms(1,4)] obtain r s' where
    set: "st_set ops (typed_path ty k) bs s = (Ok r, s')"
    and "invar s'" and upd: "kv_updated ops (typed_path ty k) (Some bs) s s'" by blast
  moreover have "ts_set ops ty k v s = (Ok (Option.bind r (decode (codec ty))), s')"
    by (simp add: ts_set_def assms(2) set)
  moreover have "ts_get ops ty Pending j s' = (if j = k then Some v else ts_get ops ty Pending j s)" for j
    using upd by (simp add: ts_get_def kv_updated_def typed_path_inj [OF assms(5)] assms(3))
  ultimately show ?thesis using that by blast
qed

lemma ts_delete_get:
  assumes "invar s" and "inj (key_string ty)"
  obtains s' where "ts_delete ops ty k s = (Ok (), s')" and "invar s'"
    and "\<And>j. ts_get ops ty Pending j s' = (if j = k then None else ts_get ops ty Pending j s)"
proof -
  from delete_law [OF assms(1)] obtain s' where
    "st_delete ops (typed_path ty k) s = (Ok (), s')" "invar s'"
    and upd: "kv_updated ops (typed_path ty k) None s s'" by blast
  moreover have "ts_get ops ty Pending j s' = (if j = k then None else ts_get ops ty Pending j s)" for j
    using upd by (simp add: ts_get_def kv_updated_def typed_path_inj [OF assms(2)])
  ultimately show ?thesis using that by (simp add: ts_delete_def)
qed

lemma ts_set_path_is_set:
  assumes "invar s" and "storable [0]" and "inj (key_string ty)"
  obtains s' where "ts_set_path ops ty k s = (Ok (), s')" and "invar s'"
    and "\<And>j. ts_is_path_set ops ty Pending j s' \<longleftrightarrow> j = k \<or> ts_is_path_set ops ty Pending j s"
proof -
  from set_law [OF assms(1,2)] obtain r s' where
    "st_set ops (typed_path ty k) [0] s = (Ok r, s')"
    "invar s'" and upd: "kv_updated ops (typed_path ty k) (Some [0]) s s'" by blast
  moreover have "ts_is_path_set ops ty Pending j s' \<longleftrightarrow> j = k \<or> ts_is_path_set ops ty Pending j s" for j
    using upd by (auto simp: ts_is_path_set_def kv_updated_def typed_path_inj [OF assms(3)])
  ultimately show ?thesis using that by (simp add: ts_set_path_def null_codec_def)
qed

end

text \<open>A store whose \<open>set\<close> returns the value that \<open>get\<close> returned before.\<close>

locale exact_kv_store = kv_store +
  assumes old_law: "invar s \<Longrightarrow> storable v \<Longrightarrow> fst (st_set ops p v s) = Ok (st_get ops Pending p s)"
begin

lemma set_exact:
  assumes "invar s" and "storable v"
  obtains s' where "st_set ops p v s = (Ok (st_get ops Pending p s), s')" and "invar s'"
    and "kv_updated ops p (Some v) s s'"
  using set_law [OF assms, of p] old_law [OF assms, of p] that by auto

lemma ts_set_exact:
  assumes "invar s" and "encode (codec ty) v = Some bs" and "storable bs"
  shows "fst (ts_set ops ty k v s) = Ok (ts_get ops ty Pending k s)"
  using set_exact [OF assms(1,3), of "typed_path ty k"]
  by (metis (no_types, lifting) assms(2) fst_conv map_ok.simps(1) option.simps(5) prod.case
      ts_get_def ts_set_def)

end


section \<open>The contract of a block store\<close>

text \<open>
  The abstract store: plain maps for the changes of the running transaction (\<open>ch_pending\<close>),
  the accepted changes of the block (\<open>ch_staged\<close>) and the committed blocks, of which the first
  \<open>ch_pruned\<close> have been dropped.
\<close>

record chain =
  ch_pending :: "path \<Rightarrow> bytes option"
  ch_staged :: "path \<Rightarrow> bytes option"
  ch_blocks :: "(path \<Rightarrow> bytes option) list"
  ch_pruned :: nat

definition chain_height :: "chain \<Rightarrow> nat" where
  "chain_height c = ch_pruned c + length (ch_blocks c)"

definition chain_view :: "height \<Rightarrow> chain \<Rightarrow> (path \<Rightarrow> bytes option) option" where
  "chain_view h c = (case h of
     Pending \<Rightarrow> Some (ch_pending c)
   | Latest \<Rightarrow> (if ch_blocks c = [] then None else Some (last (ch_blocks c)))
   | Stable n \<Rightarrow>
       (if ch_pruned c < unat n \<and> unat n \<le> chain_height c
        then Some (ch_blocks c ! (unat n - ch_pruned c - 1)) else None))"

definition chain_put :: "path \<Rightarrow> bytes option \<Rightarrow> chain \<Rightarrow> chain" where
  "chain_put p x c = c\<lparr>ch_pending := (ch_pending c)(p := x)\<rparr>"

definition chain_apply :: "chain \<Rightarrow> chain" where
  "chain_apply c = c\<lparr>ch_staged := ch_pending c\<rparr>"

definition chain_reset :: "chain \<Rightarrow> chain" where
  "chain_reset c = c\<lparr>ch_pending := ch_staged c\<rparr>"

definition chain_commit :: "chain \<Rightarrow> chain" where
  "chain_commit c = (let c' = chain_apply c in c'\<lparr>ch_blocks := ch_blocks c @ [ch_staged c']\<rparr>)"

definition chain_prune :: "nat \<Rightarrow> chain \<Rightarrow> chain" where
  "chain_prune n c =
     (if ch_pruned c < n
      then c\<lparr>ch_blocks := drop (n - ch_pruned c) (ch_blocks c), ch_pruned := n\<rparr> else c)"

lemmas chain_defs = chain_put_def chain_apply_def chain_reset_def chain_commit_def chain_prune_def

text \<open>Committed blocks are only ever added at the end or dropped at the front.\<close>

lemma chain_view_put: "h \<noteq> Pending \<Longrightarrow> chain_view h (chain_put p x c) = chain_view h c"
  by (cases h) (auto simp: chain_view_def chain_put_def chain_height_def)

lemma chain_view_apply: "h \<noteq> Pending \<Longrightarrow> chain_view h (chain_apply c) = chain_view h c"
  by (cases h) (auto simp: chain_view_def chain_apply_def chain_height_def)

lemma chain_view_reset: "h \<noteq> Pending \<Longrightarrow> chain_view h (chain_reset c) = chain_view h c"
  by (cases h) (auto simp: chain_view_def chain_reset_def chain_height_def)

lemma chain_view_commit_stable:
  "chain_view (Stable n) c = Some m \<Longrightarrow> chain_view (Stable n) (chain_commit c) = Some m"
  by (auto simp: chain_view_def chain_commit_def chain_apply_def chain_height_def Let_def nth_append
      split: if_splits)

lemma chain_view_commit_new:
  "unat n = Suc (chain_height c) \<Longrightarrow> chain_view (Stable n) (chain_commit c) = Some (ch_pending c)"
  "chain_view Latest (chain_commit c) = Some (ch_pending c)"
  "chain_view Pending (chain_commit c) = Some (ch_pending c)"
  by (auto simp: chain_view_def chain_commit_def chain_apply_def chain_height_def Let_def nth_append)

lemma chain_view_prune:
  assumes "n < unat m"
  shows "chain_view (Stable m) (chain_prune n c) = chain_view (Stable m) c"
proof (cases "ch_pruned c < n")
  case True
  then show ?thesis using assms
    by (auto simp: chain_view_def chain_prune_def chain_height_def intro!: arg_cong [where f = "(!) _"])
next
  case False
  then show ?thesis by (simp add: chain_prune_def)
qed

locale chain_store =
  fixes ops :: "('s, 'e, 'z) store_ops_scheme"
    and invar :: "'s \<Rightarrow> bool"
    and abs :: "'s \<Rightarrow> chain"
  assumes get_law: "invar s \<Longrightarrow> st_get ops h p s = Option.bind (chain_view h (abs s)) (\<lambda>m. m p)"
    and set_law: "invar s \<Longrightarrow> \<exists>s'. st_set ops p v s = (Ok (ch_pending (abs s) p), s') \<and> invar s' \<and>
        abs s' = chain_put p (Some v) (abs s)"
    and delete_law: "invar s \<Longrightarrow> \<exists>s'. st_delete ops p s = (Ok (), s') \<and> invar s' \<and>
        abs s' = chain_put p None (abs s)"
    and apply_law: "invar s \<Longrightarrow> \<exists>s'. st_apply ops s = (Ok (), s') \<and> invar s' \<and>
        abs s' = chain_apply (abs s)"
    and reset_law: "invar s \<Longrightarrow> \<exists>s'. st_reset ops s = (Ok (), s') \<and> invar s' \<and>
        abs s' = chain_reset (abs s)"
    and commit_law: "invar s \<Longrightarrow> \<exists>h s'. st_commit ops s = (Ok h, s') \<and> invar s' \<and>
        abs s' = chain_commit (abs s)"
    and height_law: "invar s \<Longrightarrow> st_current_height ops s = of_nat (chain_height (abs s))"
    and keys_law: "invar s \<Longrightarrow> sorted_wrt (<) (st_get_keys ops pre s) \<and>
        set (st_get_keys ops pre s) = {p. ch_pending (abs s) p \<noteq> None \<and>
          starts_with (path_as_bytes p) (path_as_bytes pre)}"

sublocale chain_store \<subseteq> kv: exact_kv_store ops invar "\<lambda>v. True"
proof
  fix s p v
  assume inv: "invar s"
  obtain s' where set: "st_set ops p v s = (Ok (ch_pending (abs s) p), s')" and "invar s'"
    and abs: "abs s' = chain_put p (Some v) (abs s)"
    using set_law [OF inv] by blast
  moreover have "kv_updated ops p (Some v) s s'"
    using inv \<open>invar s'\<close> abs by (simp add: get_law kv_updated_def chain_view_put)
      (simp add: chain_view_def chain_put_def)
  ultimately show "\<exists>r s'. st_set ops p v s = (Ok r, s') \<and> invar s' \<and> kv_updated ops p (Some v) s s'"
    by blast
  show "fst (st_set ops p v s) = Ok (st_get ops Pending p s)"
    using set inv by (simp add: get_law chain_view_def)
next
  fix s p
  assume inv: "invar s"
  obtain s' where "st_delete ops p s = (Ok (), s')" "invar s'"
    and abs: "abs s' = chain_put p None (abs s)"
    using delete_law [OF inv] by blast
  then show "\<exists>s'. st_delete ops p s = (Ok (), s') \<and> invar s' \<and> kv_updated ops p None s s'"
    using inv by (simp add: get_law kv_updated_def chain_view_put)
      (simp add: chain_view_def chain_put_def)
qed


section \<open>Histories of a block store\<close>

datatype store_op = OpSet path bytes | OpDelete path | OpApply | OpReset | OpCommit

fun store_step ::
  "('s, 'e, 'z) store_ops_scheme \<Rightarrow> store_op \<Rightarrow> 's \<Rightarrow> ('e, unit) outcome \<times> 's" where
  "store_step ops (OpSet p v) s = and_then (st_set ops p v s) (\<lambda>_ s. (Ok (), s))"
| "store_step ops (OpDelete p) s = st_delete ops p s"
| "store_step ops OpApply s = st_apply ops s"
| "store_step ops OpReset s = st_reset ops s"
| "store_step ops OpCommit s = and_then (st_commit ops s) (\<lambda>_ s. (Ok (), s))"

fun store_run ::
  "('s, 'e, 'z) store_ops_scheme \<Rightarrow> store_op list \<Rightarrow> 's \<Rightarrow> ('e, unit) outcome \<times> 's" where
  "store_run ops [] s = (Ok (), s)"
| "store_run ops (x # xs) s = and_then (store_step ops x s) (\<lambda>_. store_run ops xs)"

fun chain_step :: "store_op \<Rightarrow> chain \<Rightarrow> chain" where
  "chain_step (OpSet p v) c = chain_put p (Some v) c"
| "chain_step (OpDelete p) c = chain_put p None c"
| "chain_step OpApply c = chain_apply c"
| "chain_step OpReset c = chain_reset c"
| "chain_step OpCommit c = chain_commit c"

fun is_write :: "store_op \<Rightarrow> bool" where
  "is_write (OpSet p v) = True"
| "is_write (OpDelete p) = True"
| "is_write x = False"

text \<open>The writes of a transaction, as a change of the pending map only.\<close>

fun write_map :: "store_op \<Rightarrow> (path \<Rightarrow> bytes option) \<Rightarrow> (path \<Rightarrow> bytes option)" where
  "write_map (OpSet p v) m = m(p := Some v)"
| "write_map (OpDelete p) m = m(p := None)"
| "write_map x m = m"

lemma chain_writes:
  "list_all is_write xs \<Longrightarrow>
     fold chain_step xs c = c\<lparr>ch_pending := fold write_map xs (ch_pending c)\<rparr>"
proof (induction xs arbitrary: c)
  case (Cons x xs)
  then show ?case by (cases x) (auto simp: chain_put_def)
qed simp

lemma chain_rollback:
  assumes "list_all is_write xs" and "ch_pending c = ch_staged c"
  shows "chain_reset (fold chain_step xs c) = c"
  using assms by (simp add: chain_writes chain_reset_def)

lemma chain_step_stable:
  "chain_view (Stable n) c = Some m \<Longrightarrow> chain_view (Stable n) (chain_step x c) = Some m"
  by (cases x) (simp_all add: chain_view_put chain_view_apply chain_view_reset chain_view_commit_stable)

lemma chain_run_stable:
  "chain_view (Stable n) c = Some m \<Longrightarrow> chain_view (Stable n) (fold chain_step xs c) = Some m"
  by (induction xs arbitrary: c) (auto simp: chain_step_stable)

context chain_store
begin

lemma store_step_refines:
  assumes "invar s"
  shows "\<exists>s'. store_step ops x s = (Ok (), s') \<and> invar s' \<and> abs s' = chain_step x (abs s)"
proof (cases x)
  case (OpSet p v)
  then show ?thesis using set_law [OF assms, of p v] by auto
next
  case (OpDelete p)
  then show ?thesis using delete_law [OF assms] by simp
next
  case OpApply
  then show ?thesis using apply_law [OF assms] by simp
next
  case OpReset
  then show ?thesis using reset_law [OF assms] by simp
next
  case OpCommit
  then show ?thesis using commit_law [OF assms] by auto
qed

lemma store_run_refines:
  assumes "invar s"
  shows "\<exists>s'. store_run ops xs s = (Ok (), s') \<and> invar s' \<and> abs s' = fold chain_step xs (abs s)"
  using assms
proof (induction xs arbitrary: s)
  case (Cons x xs)
  from store_step_refines [OF Cons.prems] obtain s1 where
    "store_step ops x s = (Ok (), s1)" "invar s1" "abs s1 = chain_step x (abs s)" by blast
  then show ?case using Cons.IH [of s1] by simp
qed simp

text \<open>What a committed block held is what every later read at its height returns.\<close>

lemma committed_read_stable:
  assumes "invar s" and "chain_view (Stable n) (abs s) = Some m"
    and "store_run ops xs s = (Ok (), s')"
  shows "st_get ops (Stable n) p s' = m p"
proof -
  from store_run_refines [OF assms(1), of xs] assms(3)
  have "invar s'" and "abs s' = fold chain_step xs (abs s)" by auto
  then show ?thesis using chain_run_stable [OF assms(2)] by (simp add: get_law)
qed

lemma failed_transaction_invisible:
  assumes "invar s" and "ch_pending (abs s) = ch_staged (abs s)" and "list_all is_write xs"
    and "store_run ops (xs @ [OpReset]) s = (Ok (), s')"
  shows "abs s' = abs s" and "st_get ops h p s' = st_get ops h p s"
proof -
  from store_run_refines [OF assms(1), of "xs @ [OpReset]"] assms(4)
  have "invar s'" and abs: "abs s' = fold chain_step (xs @ [OpReset]) (abs s)" by auto
  then show "abs s' = abs s" using chain_rollback [OF assms(3,2)] by simp
  then show "st_get ops h p s' = st_get ops h p s"
    using \<open>invar s'\<close> assms(1) by (simp add: get_law)
qed

end

locale pruning_store = chain_store +
  assumes prune_law: "invar s \<Longrightarrow> unat n \<le> chain_height (abs s) \<Longrightarrow>
      \<exists>s'. st_prune ops n s = (Ok n, s') \<and> invar s' \<and> abs s' = chain_prune (unat n) (abs s)"
begin

lemma prune_keeps_later:
  assumes "invar s" and "unat n \<le> chain_height (abs s)" and "n < m"
  obtains s' where "st_prune ops n s = (Ok n, s')" and "invar s'"
    and "\<And>p. st_get ops (Stable m) p s' = st_get ops (Stable m) p s"
    and "\<And>p k. k \<le> n \<Longrightarrow> st_get ops (Stable k) p s' = None"
proof -
  from prune_law [OF assms(1,2)] obtain s' where
    s': "st_prune ops n s = (Ok n, s')" "invar s'" "abs s' = chain_prune (unat n) (abs s)" by blast
  have "st_get ops (Stable m) p s' = st_get ops (Stable m) p s" for p
    using s' assms(1,3) by (simp add: get_law chain_view_prune word_less_nat_alt)
  moreover have "st_get ops (Stable k) p s' = None" if "k \<le> n" for p k
    using s' that
    by (auto simp: get_law chain_view_def chain_prune_def word_le_nat_alt)
  ultimately show ?thesis using that s' by blast
qed

end

end
