(* ===== verification/In_Memory.thy ===== *)
theory In_Memory
  imports Store
begin

text \<open>
  The in-memory store: \<open>basecoin/store/src/impls/in_memory.rs\<close>. Its states are AVL trees
  keyed by paths; \<open>pending\<close> is the tree a transaction works on, \<open>staged\<close> the tree of the
  accepted transactions, and \<open>store\<close> one tree per committed block in a vector that can drop
  its oldest elements. Cloning a tree is sharing a value. \<open>height as usize\<close> and the length
  of a vector are natural numbers (a 64-bit target). The error type is \<open>Infallible\<close>; types
  of HOL are inhabited, so it has a value here, which no operation returns.

  The interpretation at the end of the third section is the refinement: every method
  implements the abstract block store of the theory \<open>Store\<close>.
\<close>

section \<open>A vector that drops its oldest elements\<close>

record 'a pruned_vec =
  pv_vec :: "'a list"
  pv_pruned :: nat

definition pv_default :: "'a pruned_vec" where
  "pv_default = \<lparr>pv_vec = [], pv_pruned = 0\<rparr>"

definition pv_push :: "'a \<Rightarrow> 'a pruned_vec \<Rightarrow> 'a pruned_vec" where
  "pv_push value v = v\<lparr>pv_vec := pv_vec v @ [value]\<rparr>"

definition checked_sub :: "nat \<Rightarrow> nat \<Rightarrow> nat option" where
  "checked_sub a b = (if b \<le> a then Some (a - b) else None)"

definition slice_get :: "nat \<Rightarrow> 'a list \<Rightarrow> 'a option" where
  "slice_get i xs = (if i < length xs then Some (xs ! i) else None)"

definition pv_get :: "nat \<Rightarrow> 'a pruned_vec \<Rightarrow> 'a option" where
  "pv_get index v = Option.bind (checked_sub index (pv_pruned v)) (\<lambda>i. slice_get i (pv_vec v))"

definition pv_last :: "'a pruned_vec \<Rightarrow> 'a option" where
  "pv_last v = (if pv_vec v = [] then None else Some (last (pv_vec v)))"

definition current_length :: "'a pruned_vec \<Rightarrow> nat" where
  "current_length v = length (pv_vec v)"

definition pruned_length :: "'a pruned_vec \<Rightarrow> nat" where
  "pruned_length v = pv_pruned v"

definition original_length :: "'a pruned_vec \<Rightarrow> nat" where
  "original_length v = current_length v + pruned_length v"

text \<open>\<open>Vec::drain(0..n)\<close> panics when \<open>n\<close> exceeds the length: \<open>None\<close>.\<close>

definition drain_front :: "nat \<Rightarrow> 'a list \<Rightarrow> 'a list option" where
  "drain_front n xs = (if n \<le> length xs then Some (drop n xs) else None)"

definition pv_prune :: "nat \<Rightarrow> 'a pruned_vec \<Rightarrow> 'a pruned_vec option" where
  "pv_prune index v =
     (if pv_pruned v < index then do {
        xs \<leftarrow> drain_front (index - pv_pruned v) (pv_vec v);
        Some (v\<lparr>pv_vec := xs, pv_pruned := index\<rparr>)
      }
      else Some v)"


section \<open>The store\<close>

type_synonym state = "path avl_tree"

datatype infallible = Infallible

record in_memory =
  im_store :: "state pruned_vec"
  im_staged :: state
  im_pending :: state

definition im_get_state :: "height \<Rightarrow> in_memory \<Rightarrow> state option" where
  "im_get_state height s = (case height of
     Pending \<Rightarrow> Some (im_pending s)
   | Latest \<Rightarrow> pv_last (im_store s)
   | Stable h \<Rightarrow> (if h = 0 then None else pv_get (unat h - 1) (im_store s)))"

definition im_default :: in_memory where
  "im_default = (let genesis_state = avl_new in
     \<lparr>im_store = pv_default, im_staged = genesis_state, im_pending = genesis_state\<rparr>)"

definition im_set ::
  "(bytes \<Rightarrow> bytes) \<Rightarrow> path \<Rightarrow> bytes \<Rightarrow> in_memory \<Rightarrow> (infallible, bytes option) outcome \<times> in_memory" where
  "im_set sha p v s = (case avl_insert sha path_as_bytes p v (im_pending s) of
     None \<Rightarrow> (Panic, s)
   | Some (old, t) \<Rightarrow> (Ok old, s\<lparr>im_pending := t\<rparr>))"

definition im_get :: "height \<Rightarrow> path \<Rightarrow> in_memory \<Rightarrow> bytes option" where
  "im_get height p s = Option.bind (im_get_state height s) (avl_get p)"

definition im_delete ::
  "(bytes \<Rightarrow> bytes) \<Rightarrow> path \<Rightarrow> in_memory \<Rightarrow> (infallible, unit) outcome \<times> in_memory" where
  "im_delete sha p s = (case avl_remove sha p (im_pending s) of
     None \<Rightarrow> (Panic, s)
   | Some (removed, t) \<Rightarrow> (Ok (), s\<lparr>im_pending := t\<rparr>))"

definition im_apply :: "in_memory \<Rightarrow> (infallible, unit) outcome \<times> in_memory" where
  "im_apply s = (Ok (), s\<lparr>im_staged := im_pending s\<rparr>)"

definition im_reset :: "in_memory \<Rightarrow> (infallible, unit) outcome \<times> in_memory" where
  "im_reset s = (Ok (), s\<lparr>im_pending := im_staged s\<rparr>)"

definition im_root_hash :: "in_memory \<Rightarrow> bytes" where
  "im_root_hash s = unwrap_or (replicate 32 0) (Option.bind (im_get_state Latest s) avl_root_hash)"

definition im_commit :: "in_memory \<Rightarrow> (infallible, bytes) outcome \<times> in_memory" where
  "im_commit s = and_then (im_apply s) (\<lambda>_ s.
     let s' = s\<lparr>im_store := pv_push (im_staged s) (im_store s)\<rparr> in (Ok (im_root_hash s'), s'))"

definition im_prune :: "u64 \<Rightarrow> in_memory \<Rightarrow> (infallible, u64) outcome \<times> in_memory" where
  "im_prune height s = (case pv_prune (unat height) (im_store s) of
     None \<Rightarrow> (Panic, s)
   | Some v \<Rightarrow> (Ok height, s\<lparr>im_store := v\<rparr>))"

definition im_current_height :: "in_memory \<Rightarrow> u64" where
  "im_current_height s = of_nat (original_length (im_store s))"

definition im_get_keys :: "path \<Rightarrow> in_memory \<Rightarrow> path list" where
  "im_get_keys key_prefix s =
     filter (\<lambda>key. starts_with (path_as_bytes key) (path_as_bytes key_prefix))
       (avl_get_keys (im_pending s))"

definition im_get_proof :: "height \<Rightarrow> path \<Rightarrow> in_memory \<Rightarrow> commitment_proof option" where
  "im_get_proof height key s = map_option (avl_get_proof path_as_bytes key) (im_get_state height s)"

definition in_memory_ops :: "(bytes \<Rightarrow> bytes) \<Rightarrow> (in_memory, infallible) provable_ops" where
  "in_memory_ops sha = \<lparr>
     st_set = im_set sha, st_get = im_get, st_delete = im_delete sha, st_commit = im_commit,
     st_apply = im_apply, st_reset = im_reset, st_prune = im_prune,
     st_current_height = im_current_height, st_get_keys = im_get_keys,
     st_root_hash = im_root_hash, st_get_proof = im_get_proof\<rparr>"

lemma in_memory_ops_methods [simp]:
  "st_set (in_memory_ops sha) = im_set sha" "st_get (in_memory_ops sha) = im_get"
  "st_delete (in_memory_ops sha) = im_delete sha" "st_commit (in_memory_ops sha) = im_commit"
  "st_apply (in_memory_ops sha) = im_apply" "st_reset (in_memory_ops sha) = im_reset"
  "st_prune (in_memory_ops sha) = im_prune"
  "st_current_height (in_memory_ops sha) = im_current_height"
  "st_get_keys (in_memory_ops sha) = im_get_keys"
  "st_root_hash (in_memory_ops sha) = im_root_hash"
  "st_get_proof (in_memory_ops sha) = im_get_proof"
  by (simp_all add: in_memory_ops_def)


section \<open>The store implements the block store contract\<close>

text \<open>\<open>im_ok\<close>: every tree the store holds is a well-formed Merkle tree.\<close>

definition im_ok :: "(bytes \<Rightarrow> bytes) \<Rightarrow> in_memory \<Rightarrow> bool" where
  "im_ok sha s \<longleftrightarrow> avl_ok sha path_as_bytes (im_pending s) \<and>
     avl_ok sha path_as_bytes (im_staged s) \<and>
     (\<forall>t \<in> set (pv_vec (im_store s)). avl_ok sha path_as_bytes t)"

definition tree_map :: "state \<Rightarrow> path \<Rightarrow> bytes option" where
  "tree_map t p = avl_get p t"

definition im_abs :: "in_memory \<Rightarrow> chain" where
  "im_abs s = \<lparr>ch_pending = tree_map (im_pending s), ch_staged = tree_map (im_staged s),
     ch_blocks = map tree_map (pv_vec (im_store s)), ch_pruned = pv_pruned (im_store s)\<rparr>"

lemma im_default_ok [simp]: "im_ok sha im_default"
  by (simp add: im_ok_def im_default_def pv_default_def avl.emp)

lemma im_abs_default:
  "im_abs im_default = \<lparr>ch_pending = (\<lambda>p. None), ch_staged = (\<lambda>p. None), ch_blocks = [], ch_pruned = 0\<rparr>"
  by (simp add: im_abs_def im_default_def pv_default_def tree_map_def [abs_def] avl.look_emp)

text \<open>Which tree a height reads.\<close>

lemma im_get_state_view: "chain_view h (im_abs s) = map_option tree_map (im_get_state h s)"
proof (cases h)
  case (Stable n)
  have nz: "n = 0 \<longleftrightarrow> unat n = 0" by (simp add: unat_eq_0)
  show ?thesis
    unfolding Stable
    by (auto simp: chain_view_def chain_height_def im_abs_def im_get_state_def pv_get_def
        checked_sub_def slice_get_def nz)
qed (auto simp: chain_view_def im_abs_def im_get_state_def pv_last_def last_map)

lemma im_get_state_ok: "im_ok sha s \<Longrightarrow> im_get_state h s = Some t \<Longrightarrow> avl_ok sha path_as_bytes t"
  by (cases h) (auto simp: im_ok_def im_get_state_def pv_last_def pv_get_def slice_get_def
      split: if_splits bind_splits)

lemma im_set_ok:
  assumes "im_ok sha s"
  shows "\<exists>s'. im_set sha p v s = (Ok (ch_pending (im_abs s) p), s') \<and> im_ok sha s' \<and>
           im_abs s' = chain_put p (Some v) (im_abs s)"
proof -
  have "avl_ok sha path_as_bytes (im_pending s)" using assms by (simp add: im_ok_def)
  from avl.ins_look [OF this, of p v] obtain t where
    "avl_insert sha path_as_bytes p v (im_pending s) = Some (avl_get p (im_pending s), t)"
    "avl_ok sha path_as_bytes t"
    and look: "\<And>j. avl_get j t = (if j = p then Some v else avl_get j (im_pending s))" by blast
  moreover have "tree_map t = (tree_map (im_pending s))(p := Some v)"
    using look by (auto simp: tree_map_def)
  ultimately show ?thesis using assms
    by (auto simp: im_set_def im_ok_def im_abs_def chain_put_def tree_map_def)
qed

lemma im_delete_ok:
  assumes "im_ok sha s"
  shows "\<exists>s'. im_delete sha p s = (Ok (), s') \<and> im_ok sha s' \<and>
           im_abs s' = chain_put p None (im_abs s)"
proof -
  have "avl_ok sha path_as_bytes (im_pending s)" using assms by (simp add: im_ok_def)
  from avl.del_look [OF this, of p] obtain t where
    "avl_remove sha p (im_pending s) = Some (avl_get p (im_pending s), t)"
    "avl_ok sha path_as_bytes t"
    and look: "\<And>j. avl_get j t = (if j = p then None else avl_get j (im_pending s))" by blast
  moreover have "tree_map t = (tree_map (im_pending s))(p := None)"
    using look by (auto simp: tree_map_def)
  ultimately show ?thesis using assms
    by (auto simp: im_delete_def im_ok_def im_abs_def chain_put_def)
qed

lemma im_keys_ok:
  assumes "im_ok sha s"
  shows "sorted_wrt (<) (im_get_keys pre s)"
    and "set (im_get_keys pre s) = {p. ch_pending (im_abs s) p \<noteq> None \<and>
           starts_with (path_as_bytes p) (path_as_bytes pre)}"
proof -
  have t: "avl_ok sha path_as_bytes (im_pending s)" using assms by (simp add: im_ok_def)
  show "sorted_wrt (<) (im_get_keys pre s)"
    using avl.keys_sorted [OF t] by (simp add: im_get_keys_def sorted_wrt_filter)
  show "set (im_get_keys pre s) = {p. ch_pending (im_abs s) p \<noteq> None \<and>
           starts_with (path_as_bytes p) (path_as_bytes pre)}"
    using avl.mem_keys [OF t] by (auto simp: im_get_keys_def im_abs_def tree_map_def)
qed

lemma im_prune_ok:
  assumes "im_ok sha s" and "unat n \<le> chain_height (im_abs s)"
  shows "\<exists>s'. im_prune n s = (Ok n, s') \<and> im_ok sha s' \<and>
           im_abs s' = chain_prune (unat n) (im_abs s)"
proof (cases "pv_pruned (im_store s) < unat n")
  case True
  then have "drain_front (unat n - pv_pruned (im_store s)) (pv_vec (im_store s)) =
      Some (drop (unat n - pv_pruned (im_store s)) (pv_vec (im_store s)))"
    using assms(2) by (simp add: drain_front_def chain_height_def im_abs_def)
  then show ?thesis using True assms(1)
    by (auto simp: im_prune_def pv_prune_def im_ok_def im_abs_def chain_prune_def drop_map
        dest: in_set_dropD)
next
  case False
  then show ?thesis using assms(1)
    by (simp add: im_prune_def pv_prune_def im_abs_def chain_prune_def)
qed

interpretation mem: pruning_store "in_memory_ops sha" "im_ok sha" im_abs for sha
proof (unfold_locales, goal_cases)
  case (1 s h p)
  then show ?case
    by (simp add: in_memory_ops_def im_get_def im_get_state_view)
      (cases "im_get_state h s"; simp add: tree_map_def)
next
  case (2 s p v)
  then show ?case using im_set_ok by (simp add: in_memory_ops_def)
next
  case (3 s p)
  then show ?case using im_delete_ok by (simp add: in_memory_ops_def)
next
  case (4 s)
  then show ?case by (simp add: in_memory_ops_def im_apply_def im_ok_def im_abs_def chain_apply_def)
next
  case (5 s)
  then show ?case by (simp add: in_memory_ops_def im_reset_def im_ok_def im_abs_def chain_reset_def)
next
  case (6 s)
  then show ?case
    by (auto simp: in_memory_ops_def im_commit_def im_apply_def im_ok_def im_abs_def
        chain_commit_def chain_apply_def pv_push_def Let_def)
next
  case (7 s)
  then show ?case
    by (simp add: in_memory_ops_def im_current_height_def original_length_def current_length_def
        pruned_length_def chain_height_def im_abs_def add.commute)
next
  case (8 s pre)
  then show ?case using im_keys_ok by (simp add: in_memory_ops_def)
next
  case (9 s n)
  then show ?case using im_prune_ok by (simp add: in_memory_ops_def)
qed


section \<open>Exact behaviour of the trees\<close>

text \<open>
  The block store contract speaks of maps; app hashes and proofs depend on the trees
  themselves. A write changes the pending tree only, and no operation but \<open>prune\<close> touches a
  tree that was committed.
\<close>

lemma write_pending_only:
  "is_write x \<Longrightarrow> store_step (in_memory_ops sha) x s = (r, s') \<Longrightarrow>
     \<exists>t. s' = s\<lparr>im_pending := t\<rparr>"
  by (cases x) (auto simp: im_set_def im_delete_def and_then_def split: option.splits intro: exI [of _ "im_pending s"])

lemma writes_pending_only:
  "list_all is_write xs \<Longrightarrow> store_run (in_memory_ops sha) xs s = (Ok (), s') \<Longrightarrow>
     \<exists>t. s' = s\<lparr>im_pending := t\<rparr>"
proof (induction xs arbitrary: s)
  case Nil
  then show ?case by (auto intro: exI [of _ "im_pending s"])
next
  case (Cons x xs)
  then obtain s1 where s1: "store_step (in_memory_ops sha) x s = (Ok (), s1)"
    and run: "store_run (in_memory_ops sha) xs s1 = (Ok (), s')"
    by (auto simp: and_then_Ok)
  from write_pending_only [OF _ s1] Cons.prems(1) obtain t1 where "s1 = s\<lparr>im_pending := t1\<rparr>" by auto
  moreover from Cons.IH [OF _ run] Cons.prems(1) obtain t where "s' = s1\<lparr>im_pending := t\<rparr>" by auto
  ultimately show ?case by auto
qed

lemma store_run_append:
  "store_run ops (xs @ ys) s = and_then (store_run ops xs s) (\<lambda>_. store_run ops ys)"
proof (induction xs arbitrary: s)
  case (Cons x xs)
  show ?case
    by (cases "store_step ops x s"; cases "fst (store_step ops x s)") (auto simp: Cons)
qed simp

lemma pv_get_push: "pv_get i v = Some t \<Longrightarrow> pv_get i (pv_push u v) = Some t"
  by (auto simp: pv_get_def pv_push_def checked_sub_def slice_get_def nth_append split: if_splits)

lemma step_keeps_block:
  assumes "im_get_state (Stable n) s = Some t" and "store_step (in_memory_ops sha) x s = (Ok (), s')"
  shows "im_get_state (Stable n) s' = Some t"
proof (cases "is_write x")
  case True
  then show ?thesis using write_pending_only [OF True assms(2)] assms(1)
    by (auto simp: im_get_state_def)
next
  case False
  then show ?thesis using assms
    by (cases x) (auto simp: im_apply_def im_reset_def im_commit_def im_get_state_def Let_def
        pv_get_push split: if_splits)
qed

lemma run_keeps_block:
  "im_get_state (Stable n) s = Some t \<Longrightarrow> store_run (in_memory_ops sha) xs s = (Ok (), s') \<Longrightarrow>
     im_get_state (Stable n) s' = Some t"
proof (induction xs arbitrary: s)
  case (Cons x xs)
  then obtain s1 where "store_step (in_memory_ops sha) x s = (Ok (), s1)"
    and "store_run (in_memory_ops sha) xs s1 = (Ok (), s')"
    by (auto simp: and_then_Ok)
  then show ?case using Cons.IH step_keeps_block [OF Cons.prems(1)] by blast
qed simp

lemma commit_result:
  assumes "im_commit s = (Ok h, s')"
  shows "s' = s\<lparr>im_staged := im_pending s, im_store := pv_push (im_pending s) (im_store s)\<rparr>"
    and "h = unwrap_or (replicate 32 0) (avl_root_hash (im_pending s))"
  using assms
  by (auto simp: im_commit_def im_apply_def Let_def im_root_hash_def im_get_state_def pv_last_def pv_push_def)

text \<open>The height of a block that has just been committed reads its tree.\<close>

lemma commit_new_block:
  assumes c: "im_commit s = (Ok h, s')" and small: "original_length (im_store s) + 1 < 2 ^ 64"
  shows "im_get_state (Stable (im_current_height s')) s' = Some (im_pending s)"
proof -
  have "unat (im_current_height s') = original_length (im_store s) + 1"
    using commit_result(1) [OF c] unat_u64 [OF small]
    by (simp add: im_current_height_def original_length_def current_length_def pruned_length_def
        pv_push_def)
  moreover from this have "im_current_height s' \<noteq> 0" by auto
  ultimately show ?thesis using commit_result(1) [OF c]
    by (simp add: im_get_state_def pv_get_def checked_sub_def slice_get_def pv_push_def
        original_length_def current_length_def pruned_length_def)
qed


section \<open>Properties\<close>

text \<open>
  C10. Every history of sets, deletes, applies, resets and commits on a fresh in-memory store
  ends without panic or error, and every read of the result, at any height, is the read of
  the abstract block store after the same history.
\<close>

theorem in_memory_refines_chain:
  "\<exists>s. store_run (in_memory_ops sha) xs im_default = (Ok (), s) \<and> im_ok sha s \<and>
     (\<forall>h p. im_get h p s =
        Option.bind (chain_view h (fold chain_step xs (im_abs im_default))) (\<lambda>m. m p))"
proof -
  from mem.store_run_refines [OF im_default_ok, of sha xs] obtain s where
    s: "store_run (in_memory_ops sha) xs im_default = (Ok (), s)" "im_ok sha s"
    and a: "im_abs s = fold chain_step xs (im_abs im_default)" by auto
  have "im_get h p s = Option.bind (chain_view h (im_abs s)) (\<lambda>m. m p)" for h p
    using mem.get_law [OF s(2), of h p] by (simp add: in_memory_ops_def)
  then show ?thesis using s unfolding a by blast
qed

text \<open>
  A transaction that is reset leaves no trace at all: whatever it set and deleted, the
  state is exactly the one before it, the Merkle trees with their hashes included.
\<close>

theorem in_memory_reset_exact:
  assumes "im_ok sha s" and "im_pending s = im_staged s" and "list_all is_write xs"
  shows "store_run (in_memory_ops sha) (xs @ [OpReset]) s = (Ok (), s)"
proof -
  from mem.store_run_refines [OF assms(1), of xs] obtain s' where
    run: "store_run (in_memory_ops sha) xs s = (Ok (), s')" by blast
  then obtain t where "s' = s\<lparr>im_pending := t\<rparr>"
    using writes_pending_only [OF assms(3)] by blast
  then show ?thesis using run assms(2) by (simp add: store_run_append im_reset_def)
qed

text \<open>
  A committed block is immutable: after any later history that does not prune, a read at
  its height returns what was pending when it was committed.
\<close>

theorem committed_block_immutable:
  assumes "im_ok sha s" and "im_commit s = (Ok h, s1)"
    and "original_length (im_store s) + 1 < 2 ^ 64"
    and "store_run (in_memory_ops sha) xs s1 = (Ok (), s2)"
  shows "im_get (Stable (im_current_height s1)) p s2 = im_get Pending p s"
  using run_keeps_block [OF commit_new_block [OF assms(2,3)] assms(4)]
  by (simp add: im_get_def im_get_state_def)

text \<open>
  C9. The hash that \<open>commit\<close> returns authenticates the block for good: at any later time a
  value read at the block's height has an existence proof, built from the store at that
  height, that leads to exactly that hash, and an absent path has a non-existence proof
  against it when the block is not empty.
\<close>

theorem commit_hash_authenticates:
  assumes "im_ok sha s" and "im_commit s = (Ok h, s1)"
    and "original_length (im_store s) + 1 < 2 ^ 64"
    and "store_run (in_memory_ops sha) xs s1 = (Ok (), s2)"
    and "n = im_current_height s1"
  shows "case im_get (Stable n) p s2 of
      Some v \<Rightarrow> (\<exists>pr. im_get_proof (Stable n) p s2 = Some \<lparr>cp_proof = Some (Exist pr)\<rparr> \<and>
        proves_entry sha path_as_bytes h pr (p, v))
    | None \<Rightarrow> avl_entries (im_pending s) = [] \<or>
        (\<exists>pr. im_get_proof (Stable n) p s2 = Some \<lparr>cp_proof = Some (Nonexist pr)\<rparr> \<and>
          absence_proof sha path_as_bytes h (avl_entries (im_pending s)) p pr)"
proof -
  let ?t = "im_pending s"
  have t: "im_get_state (Stable n) s2 = Some ?t"
    unfolding assms(5) by (rule run_keeps_block [OF commit_new_block [OF assms(2,3)] assms(4)])
  have ok: "avl_ok sha path_as_bytes ?t" using assms(1) by (simp add: im_ok_def)
  have get: "im_get (Stable n) p s2 = avl_get p ?t"
    and proof_at: "im_get_proof (Stable n) p s2 = Some (avl_get_proof path_as_bytes p ?t)"
    using t by (simp_all add: im_get_def im_get_proof_def)
  have hash: "avl_root_hash ?t = Some rh \<Longrightarrow> h = rh" for rh
    using commit_result(2) [OF assms(2)] by simp
  show ?thesis
  proof (cases "avl_get p ?t")
    case None
    show ?thesis
    proof (cases "root ?t = Empty")
      case True
      then show ?thesis using None get by (simp add: avl_entries_def)
    next
      case False
      from root_hash_mh [OF this] avl_nonexistence [OF ok None] show ?thesis
        using None get proof_at hash by (auto simp: avl_root_hash_def)
    qed
  next
    case (Some v)
    from avl_existence [OF ok this] show ?thesis
      using Some get proof_at hash by auto
  qed
qed

text \<open>
  Pruning to an existing height drops exactly the blocks up to that height: reads at
  later heights are unchanged, reads at or below it find nothing.
\<close>

theorem prune_drops_exactly:
  assumes "im_ok sha s" and "unat n \<le> original_length (im_store s)"
  shows "\<exists>s'. im_prune n s = (Ok n, s') \<and> im_ok sha s' \<and>
      (\<forall>m p. n < m \<longrightarrow> im_get (Stable m) p s' = im_get (Stable m) p s) \<and>
      (\<forall>m p. m \<le> n \<longrightarrow> im_get (Stable m) p s' = None)"
proof -
  have b: "unat n \<le> chain_height (im_abs s)"
    using assms(2) by (simp add: chain_height_def im_abs_def original_length_def current_length_def
        pruned_length_def)
  from mem.prune_law [OF assms(1) b] obtain s' where
    s': "im_prune n s = (Ok n, s')" "im_ok sha s'"
    by (auto simp: in_memory_ops_def)
  have later: "im_get (Stable m) p s' = im_get (Stable m) p s" if "n < m" for m p
    using mem.prune_keeps_later [OF assms(1) b that] s'(1) by (auto simp: in_memory_ops_def)
  have earlier: "im_get (Stable m) p s' = None" if "m \<le> n" for m p
  proof -
    have "im_abs s' = chain_prune (unat n) (im_abs s)"
      using mem.prune_law [OF assms(1) b] s'(1) by (auto simp: in_memory_ops_def)
    then show ?thesis
      using mem.get_law [OF s'(2), of "Stable m" p] that
      by (auto simp: in_memory_ops_def chain_view_def chain_prune_def word_le_nat_alt)
  qed
  show ?thesis using s' later earlier by blast
qed

text \<open>
  Pruning beyond the height of the store panics: \<open>drain\<close> is asked for more elements than
  the vector holds.
\<close>

theorem prune_beyond_height_panics:
  assumes "original_length (im_store s) < unat n"
  shows "im_prune n s = (Panic, s)"
  using assms
  by (auto simp: im_prune_def pv_prune_def drain_front_def original_length_def current_length_def
      pruned_length_def)

text \<open>
  Indexing after \<open>PrunedVec::prune\<close>: elements below the index are gone, the element at the
  index and all later ones keep their index. (The comment on \<open>prune\<close> calls the index inclusive.)
\<close>

theorem pruned_vec_index:
  assumes "pv_prune i v = Some v'"
  shows "pv_get j v' = (if j < i then None else pv_get j v) \<and> original_length v' = original_length v"
  using assms
  by (auto simp: pv_prune_def drain_front_def pv_get_def checked_sub_def slice_get_def
      original_length_def current_length_def pruned_length_def split: if_splits)


section \<open>Witnesses\<close>

text \<open>A store with one committed block: the hash is the identity.\<close>

definition one_block :: in_memory where
  "one_block = snd (im_commit (snd (im_set id (path_from_string ''a'') [1] im_default)))"

definition path_a :: path where
  "path_a = path_from_string ''a''"

lemma one_block_ok: "im_ok id one_block"
proof -
  obtain s where set: "im_set id (path_from_string ''a'') [1] im_default =
      (Ok (ch_pending (im_abs im_default) (path_from_string ''a'')), s)" and "im_ok id s"
    using im_set_ok [OF im_default_ok, of id "path_from_string ''a''" "[1]"] by blast
  then show ?thesis
    using mem.commit_law [of id s] by (auto simp: one_block_def)
qed

lemma one_block_length: "original_length (im_store one_block) = 1"
  by code_simp

theorem in_memory_reset_exact_witness:
  "store_run (in_memory_ops id) ([OpSet path_a [2], OpDelete path_a] @ [OpReset]) one_block =
     (Ok (), one_block)"
proof -
  have "im_pending one_block = im_staged one_block" by code_simp
  then show ?thesis
    using in_memory_reset_exact [OF one_block_ok, of "[OpSet path_a [2], OpDelete path_a]"] by simp
qed

theorem committed_block_immutable_witness:
  "\<exists>h s1 s2. im_commit one_block = (Ok h, s1) \<and>
     store_run (in_memory_ops id) [OpSet path_a [9], OpCommit] s1 = (Ok (), s2) \<and>
     im_get (Stable (im_current_height s1)) path_a s2 = Some [1]"
proof -
  obtain h s1 where c: "im_commit one_block = (Ok h, s1)" and s1: "im_ok id s1"
    using mem.commit_law [OF one_block_ok] by auto
  obtain s2 where run: "store_run (in_memory_ops id) [OpSet path_a [9], OpCommit] s1 = (Ok (), s2)"
    using mem.store_run_refines [OF s1] by blast
  have "im_get Pending path_a one_block = Some [1]" by code_simp
  with committed_block_immutable [OF one_block_ok c _ run, of path_a] show ?thesis
    using c run by (auto simp: one_block_length)
qed

theorem commit_hash_authenticates_witness:
  "\<exists>h s1 s2 pr. im_commit one_block = (Ok h, s1) \<and>
     store_run (in_memory_ops id) [OpDelete path_a, OpCommit] s1 = (Ok (), s2) \<and>
     im_get_proof (Stable 2) path_a s2 = Some \<lparr>cp_proof = Some (Exist pr)\<rparr> \<and>
     proves_entry id path_as_bytes h pr (path_a, [1])"
proof -
  obtain h s1 where c: "im_commit one_block = (Ok h, s1)" and s1: "im_ok id s1"
    using mem.commit_law [OF one_block_ok] by auto
  obtain s2 where run: "store_run (in_memory_ops id) [OpDelete path_a, OpCommit] s1 = (Ok (), s2)"
    using mem.store_run_refines [OF s1] by blast
  have pending: "im_get Pending path_a one_block = Some [1]"
    and height: "im_current_height (snd (im_commit one_block)) = 2"
    by code_simp+
  have len: "original_length (im_store one_block) + 1 < 2 ^ 64"
    by (simp add: one_block_length)
  have n: "2 = im_current_height s1" using height c by simp
  have "im_get (Stable 2) path_a s2 = Some [1]"
    using run_keeps_block [OF commit_new_block [OF c len] run] pending n
    by (simp add: im_get_def im_get_state_def)
  with commit_hash_authenticates [OF one_block_ok c len run n, of path_a] show ?thesis
    using c run by auto
qed

theorem prune_drops_exactly_witness:
  "\<exists>s'. im_prune 1 one_block = (Ok 1, s') \<and> im_get (Stable 1) path_a one_block = Some [1] \<and>
     im_get (Stable 1) path_a s' = None"
proof -
  have "im_get (Stable 1) path_a one_block = Some [1]" by code_simp
  then show ?thesis
    using prune_drops_exactly [OF one_block_ok, of 1] by (auto simp: one_block_length)
qed

theorem prune_beyond_height_panics_witness: "im_prune 2 one_block = (Panic, one_block)"
  by (rule prune_beyond_height_panics) (simp add: one_block_length)

theorem pruned_vec_index_witness:
  "\<exists>v'. pv_prune 2 \<lparr>pv_vec = [1, 2, 3 :: nat], pv_pruned = 0\<rparr> = Some v' \<and>
     pv_get 1 v' = None \<and> pv_get 2 v' = Some 3"
proof -
  obtain v' where p: "pv_prune 2 \<lparr>pv_vec = [1, 2, 3 :: nat], pv_pruned = 0\<rparr> = Some v'"
    by (simp add: pv_prune_def drain_front_def)
  show ?thesis
    using p pruned_vec_index [OF p, of 1] pruned_vec_index [OF p, of 2]
    by (simp add: pv_get_def checked_sub_def slice_get_def)
qed

end
