(* ===== verification/Store_Tests.thy ===== *)
theory Store_Tests
  imports Avl_Balance In_Memory
begin

text \<open>
  The unit tests of the repository on the model: \<open>store/src/avl/tests.rs\<close> with its helpers
  \<open>build_node\<close> and \<open>check_integrity\<close>, and the tests of \<open>impls/in_memory.rs\<close> and \<open>types/path.rs\<close>. A test
  with fixed inputs is evaluated, for any hash function; a test that shuffles its keys is proved for
  every order. What \<open>integration\<close> and \<open>test_shuffle_insert_get_remove\<close> say of lookups and of
  proofs holds by the theorems on histories in \<open>Avl_Tree\<close> and on proofs in \<open>Avl_Proof\<close>.
\<close>

section \<open>The helpers of the tree's tests\<close>

text \<open>The comparisons are with the keys of the children only, and heights are compared before the
  recursion, as in the source.\<close>

fun child_key :: "'k node_ref \<Rightarrow> 'k option" where
  "child_key Empty = None"
| "child_key (Node k v h m n l r) = Some k"

fun check_integrity :: "'k::linorder node_ref \<Rightarrow> bool" where
  "check_integrity Empty = True"
| "check_integrity (Node k v h m n l r) =
     (if (case child_key l of Some lk \<Rightarrow> k \<le> lk | None \<Rightarrow> False) then False
      else if (case child_key r of Some rk \<Rightarrow> rk \<le> k | None \<Rightarrow> False) then False
      else
        (let left_height = unwrap_or 0 (stored_height l);
             right_height = unwrap_or 0 (stored_height r);
             is_leaf = (child_key l = None \<and> child_key r = None);
             balance_factor = int left_height - int right_height in
         if balance_factor \<le> -2 then False
         else if 2 \<le> balance_factor then False
         else if n \<noteq> max left_height right_height + (if is_leaf then 0 else 1) then False
         else check_integrity l \<and> check_integrity r))"

definition build_node ::
  "(bytes \<Rightarrow> bytes) \<Rightarrow> ('k \<Rightarrow> bytes) \<Rightarrow> 'k \<Rightarrow> bytes \<Rightarrow> 'k node_ref \<Rightarrow> 'k node_ref \<Rightarrow> 'k node_ref" where
  "build_node sha ab key value left right = (case as_node_ref sha ab key value of
     Node k v h m n l r \<Rightarrow> update sha (Node k v h m n left right)
   | Empty \<Rightarrow> Empty)"


section \<open>Fixed inputs\<close>

lemma test_insert:
  "avl_run sha key_byte [Insert 1 [42], Insert 0 [42], Insert 2 [42]] avl_new =
     Some \<lparr>root = build_node sha key_byte 1 [42]
       (as_node_ref sha key_byte 0 [42]) (as_node_ref sha key_byte 2 [42])\<rparr>"
  by (simp add: build_node_def avl_insert_def avl_new_def as_node_ref_def new_node_def Let_def numeral_2_eq_2)

lemma test_get:
  assumes "avl_run sha key_byte [Insert 1 [1], Insert 2 [2], Insert 0 [0], Insert 5 [5]] avl_new = Some t"
  shows "avl_get 0 t = Some [0]" "avl_get 1 t = Some [1]" "avl_get 2 t = Some [2]" "avl_get 5 t = Some [5]"
    "avl_get 4 t = None"
proof -
  have "(\<lambda>k. avl_get k t) = fold map_step [Insert 1 [1], Insert 2 [2], Insert 0 [0], Insert 5 [5]] (\<lambda>k. avl_get k avl_new)"
    using avl_run_ok [OF avl.emp(1), of sha key_byte "[Insert 1 [1], Insert 2 [2], Insert 0 [0], Insert 5 [5]]"] assms
    by simp
  then show "avl_get 0 t = Some [0]" "avl_get 1 t = Some [1]" "avl_get 2 t = Some [2]" "avl_get 5 t = Some [5]"
    "avl_get 4 t = None"
    by (simp_all add: avl.look_emp fun_eq_iff)
qed

lemma test_rotate_right:
  "rotate_right sha (build_node sha ab k5 [5]
      (build_node sha ab k3 [3] (as_node_ref sha ab k2 [2]) (as_node_ref sha ab k4 [4])) (as_node_ref sha ab k6 [6])) =
   Some (build_node sha ab k3 [3] (as_node_ref sha ab k2 [2])
      (build_node sha ab k5 [5] (as_node_ref sha ab k4 [4]) (as_node_ref sha ab k6 [6])))"
  by (simp add: build_node_def as_node_ref_def new_node_def Let_def)

lemma test_rotate_left:
  "rotate_left sha (build_node sha ab k1 [1] (as_node_ref sha ab k0 [0])
      (build_node sha ab k3 [3] (as_node_ref sha ab k2 [2]) (as_node_ref sha ab k4 [4]))) =
   Some (build_node sha ab k3 [3]
      (build_node sha ab k1 [1] (as_node_ref sha ab k0 [0]) (as_node_ref sha ab k2 [2])) (as_node_ref sha ab k4 [4]))"
  by (simp add: build_node_def as_node_ref_def new_node_def Let_def)

lemma test_pruned_vec:
  "original_length (fold pv_push [1, 2, 3, 4, 5 :: nat] pv_default) = 5"
  "map_option (\<lambda>v. (original_length v, pruned_length v, current_length v,
       map (\<lambda>i. pv_get i v) [0, 1, 2, 3, 4, 5], pv_last v))
     (pv_prune 2 (fold pv_push [1, 2, 3, 4, 5 :: nat] pv_default)) =
   Some (5, 2, 3, [None, None, Some 3, Some 4, Some 5, None], Some 5)"
  by code_simp+

text \<open>The test of the store, for any path and values; its heights are the heights of the source.\<close>

lemma test_in_memory_store:
  "\<exists>s1 s2 s3 s4.
     im_current_height im_default = 0 \<and>
     im_set sha p v1 im_default = (Ok None, s1) \<and>
     map (\<lambda>h. im_get h p s1) [Pending, Latest, Stable 1] = [Some v1, None, None] \<and>
     snd (im_commit (snd (im_apply s1))) = s2 \<and>
     map (\<lambda>h. im_get h p s2) [Pending, Latest, Stable 1, Stable 2] = [Some v1, Some v1, Some v1, None] \<and>
     im_current_height s2 = 1 \<and>
     im_set sha p v2 s2 = (Ok (Some v1), s3) \<and>
     map (\<lambda>h. im_get h p s3) [Pending, Latest, Stable 1] = [Some v2, Some v1, Some v1] \<and>
     snd (im_commit (snd (im_apply s3))) = s4 \<and>
     map (\<lambda>h. im_get h p s4) [Pending, Latest, Stable 1, Stable 2, Stable 3] =
       [Some v2, Some v2, Some v1, Some v2, None] \<and>
     im_current_height s4 = 2"
  by (simp add: im_set_def im_get_def im_get_state_def im_commit_def im_apply_def im_default_def Let_def
      avl_insert_def avl_get_def avl_new_def as_node_ref_def new_node_def pv_push_def pv_last_def pv_get_def
      pv_default_def checked_sub_def slice_get_def im_current_height_def original_length_def
      current_length_def pruned_length_def)

lemma test_path_happy: "is_ok (path_try_from (string_bytes ''hello/world''))"
  by code_simp

lemma test_path_sad: "\<not> is_ok (path_try_from (string_bytes ''hello/'' @ [0xF0, 0x28, 0x8C, 0xBC]))"
  by code_simp


section \<open>Every order\<close>

text \<open>On the trees of the model, whose fields are up to date, \<open>check_integrity\<close> asks for the balance.\<close>

lemma check_integrity_balanced:
  assumes "integrity sha ab t" and "bst t"
  shows "check_integrity t \<longleftrightarrow> balanced t"
  using assms
proof (induction t)
  case (Node k v h m n l r)
  have l: "case child_key l of Some lk \<Rightarrow> \<not> k \<le> lk | None \<Rightarrow> True"
    and r: "case child_key r of Some rk \<Rightarrow> \<not> rk \<le> k | None \<Rightarrow> True"
    using Node.prems(2) by (cases l; cases r; auto simp: bst_Node)+
  have bst: "bst l" "bst r" using Node.prems(2) by (simp_all add: bst_Node)
  have n: "n = max (unwrap_or 0 (stored_height l)) (unwrap_or 0 (stored_height r)) +
      (if child_key l = None \<and> child_key r = None then 0 else 1)"
    using Node.prems(1) by (cases l; cases r; simp add: node_height_def)
  have bf: "balance_factor (Node k v h m n' l r) =
      int (unwrap_or 0 (stored_height l)) - int (unwrap_or 0 (stored_height r))" for n'
    by (cases l; cases r; simp add: balance_factor_def)
  have IH: "check_integrity l \<longleftrightarrow> balanced l" "check_integrity r \<longleftrightarrow> balanced r"
    using Node.IH bst Node.prems(1) by simp_all
  show ?case using l r n IH
    by (auto simp: Let_def bf simp del: balance_factor_Node split: option.splits)
qed simp

lemma insertions_balanced:
  assumes "avl_ok sha ab t" and "balanced (root t)"
  shows "\<exists>t'. avl_run sha ab (map (\<lambda>(k, v). Insert k v) entries) t = Some t' \<and>
     avl_ok sha ab t' \<and> balanced (root t')"
  using assms
proof (induction entries arbitrary: t)
  case (Cons e entries)
  obtain k v where e: "e = (k, v)" by (cases e)
  obtain t1 where t1: "avl_insert sha ab k v t = Some (avl_get k t, t1)" "avl_ok sha ab t1"
    using avl.ins_look [OF Cons.prems(1), of k v] by blast
  then have "balanced (root t1)" using avl_insert_balanced Cons.prems by blast
  then show ?case using Cons.IH [OF t1(2)] t1(1) by (simp add: e)
qed simp

text \<open>
  C35. The trees that insertions build, in whatever order and with whatever repetitions, pass
  \<open>check_integrity\<close>, the check of the test \<open>integration\<close>: keys in order, heights up to date, every
  balance factor in \<open>{-1, 0, 1}\<close>. Removals are not covered by that test, and one removal after eleven
  insertions is enough for the tree to fail the check.
\<close>

theorem insertions_pass_check_integrity:
  "(\<exists>t. avl_run sha ab (map (\<lambda>(k, v). Insert k v) entries) avl_new = Some t \<and> check_integrity (root t)) \<and>
   (\<exists>t. avl_run id key_byte unbalancing_history avl_new = Some t \<and> \<not> check_integrity (root t))"
proof
  have "balanced (root avl_new)" by (simp add: avl_new_def)
  from insertions_balanced [OF avl.emp(1) this]
  show "\<exists>t. avl_run sha ab (map (\<lambda>(k, v). Insert k v) entries) avl_new = Some t \<and> check_integrity (root t)"
    using check_integrity_balanced by (fastforce simp: avl_ok_def)
next
  have "map_option (\<lambda>t. check_integrity (root t)) (avl_run id key_byte unbalancing_history avl_new) = Some False"
    by code_simp
  then show "\<exists>t. avl_run id key_byte unbalancing_history avl_new = Some t \<and> \<not> check_integrity (root t)" by auto
qed


text \<open>The number of nodes on the longest path, which the stored height counts from zero.\<close>

fun levels :: "'k node_ref \<Rightarrow> nat" where
  "levels Empty = 0"
| "levels (Node k v h m n l r) = Suc (max (levels l) (levels r))"

lemma levels_ht: "integrity sha ab t \<Longrightarrow> levels t = (if t = Empty then 0 else Suc (ht t))"
  by (induction t) (auto simp: node_height_def)

lemma inserted_keys:
  "dom (fold map_step (map (\<lambda>(k, v). Insert k v) entries) f) = fst ` set entries \<union> dom f"
  by (induction entries arbitrary: f) auto

text \<open>
  C36. Insertions keep the tree flat: whatever entries are inserted into the empty tree, in whatever
  order and with whatever repetitions, the tree holds exactly their keys, and a longest path of
  \<open>n + 1\<close> nodes needs at least \<open>2 ^ (n div 2) - 1\<close> different keys. So the number of nodes that a lookup
  visits is logarithmic in the number of keys, the cost that the comments of \<open>insert\<close> promise.
\<close>

theorem insertions_height_logarithmic:
  "\<exists>t. avl_run sha ab (map (\<lambda>(k, v). Insert k v) entries) avl_new = Some t \<and>
     set (avl_get_keys t) = fst ` set entries \<and>
     2 ^ ((levels (root t) - 1) div 2) \<le> card (fst ` set entries) + 1"
proof -
  have "balanced (root avl_new)" by (simp add: avl_new_def)
  from insertions_balanced [OF avl.emp(1) this]
  obtain t where t: "avl_run sha ab (map (\<lambda>(k, v). Insert k v) entries) avl_new = Some t"
    "avl_ok sha ab t" "balanced (root t)" by blast
  have "(\<lambda>k. avl_get k t) = fold map_step (map (\<lambda>(k, v). Insert k v) entries) (\<lambda>k. None)"
    using avl_run_ok [OF avl.emp(1), of sha ab "map (\<lambda>(k, v). Insert k v) entries"] t(1)
    by (simp add: avl.look_emp)
  then have "dom (\<lambda>k. avl_get k t) = fst ` set entries" by (simp only: inserted_keys) simp
  then have keys: "set (avl_get_keys t) = fst ` set entries" using avl.mem_keys [OF t(2)] by auto
  have "distinct (avl_get_keys t)"
    using avl.keys_sorted [OF t(2)] by (simp add: strict_sorted_iff)
  then have "length (avl_get_keys t) = card (fst ` set entries)"
    using distinct_card keys by metis
  moreover have "length (avl_get_keys t) = entries_count (root t)"
    by (simp add: avl_get_keys_def get_keys_rec_inorder entries_count_inorder)
  moreover have "2 ^ (ht (root t) div 2) \<le> entries_count (root t) + 1"
    using half_height_bound t(2,3) by (auto simp: avl_ok_def)
  moreover have "levels (root t) - 1 = ht (root t)"
    using levels_ht [of sha ab "root t"] t(2) by (cases "root t = Empty") (simp_all add: avl_ok_def)
  ultimately show ?thesis using t(1) keys by auto
qed

text \<open>The test \<open>integration\<close> for any keys in any order: the tree passes \<open>check_integrity\<close>, every key has
  an existence proof and every other key a proof of absence against the root hash.\<close>

lemma integration_every_order:
  assumes "keys \<noteq> []" and run: "avl_run sha ab (map (\<lambda>k. Insert k [0]) keys) avl_new = Some t"
  shows "check_integrity (root t) \<and> (\<exists>rh. avl_root_hash t = Some rh \<and>
     (\<forall>key. if key \<in> set keys
        then \<exists>p. avl_get_proof ab key t = \<lparr>cp_proof = Some (Exist p)\<rparr> \<and> proves_entry sha ab rh p (key, [0])
        else \<exists>p. avl_get_proof ab key t = \<lparr>cp_proof = Some (Nonexist p)\<rparr> \<and>
          absence_proof sha ab rh (avl_entries t) key p))"
proof -
  have m: "map (\<lambda>k. Insert k [0]) keys = map (\<lambda>(k, v). Insert k v) (map (\<lambda>k. (k, [0])) keys)" by simp
  have new: "balanced (root avl_new)" by (simp add: avl_new_def)
  have ok: "avl_ok sha ab t" and bal: "balanced (root t)"
    using insertions_balanced [OF avl.emp(1) new, of sha ab "map (\<lambda>k. (k, [0])) keys"] run by (auto simp: m)
  have look: "fold map_step (map (\<lambda>k. Insert k [0]) ks) f key = (if key \<in> set ks then Some [0] else f key)"
    for ks f key
    by (induction ks arbitrary: f) auto
  have "(\<lambda>k. avl_get k t) = fold map_step (map (\<lambda>k. Insert k [0]) keys) (\<lambda>k. avl_get k avl_new)"
    using avl_run_ok [OF avl.emp(1), of sha ab "map (\<lambda>k. Insert k [0]) keys"] run by auto
  then have get: "avl_get key t = (if key \<in> set keys then Some [0] else None)" for key
    by (simp add: look avl.look_emp fun_eq_iff)
  have "avl_get (hd keys) t = Some [0]" using assms(1) by (simp add: get)
  from avl_existence [OF ok this] obtain rh where rh: "avl_root_hash t = Some rh" by blast
  then have mh: "rh = mh (root t)" by (cases "root t") (auto simp: avl_root_hash_def)
  have "\<exists>p. avl_get_proof ab key t = \<lparr>cp_proof = Some (Exist p)\<rparr> \<and> proves_entry sha ab rh p (key, [0])"
    if "key \<in> set keys" for key
    using avl_existence [OF ok, of key "[0]"] that rh by (metis get option.inject)
  moreover have "\<exists>p. avl_get_proof ab key t = \<lparr>cp_proof = Some (Nonexist p)\<rparr> \<and>
      absence_proof sha ab rh (avl_entries t) key p" if "key \<notin> set keys" for key
    using avl_nonexistence [OF ok, of key] that mh by (metis get)
  moreover have "check_integrity (root t)"
    using check_integrity_balanced [of sha ab "root t"] ok bal by (simp add: avl_ok_def)
  ultimately show ?thesis using rh by auto
qed

lemma test_proof:
  assumes "avl_run sha key_byte [Insert 65 [0], Insert 66 [1]] avl_new = Some t"
  shows "\<exists>p. avl_get_proof key_byte 66 t = \<lparr>cp_proof = Some (Exist p)\<rparr> \<and> length (ep_path p) = 2 \<and>
     existence_root sha p = avl_root_hash t"
proof -
  have t: "t = \<lparr>root = update sha (Node 65 [0] (local_hash sha key_byte 65 [0])
      (sha (EMPTY_CHILD @ local_hash sha key_byte 65 [0] @ EMPTY_CHILD)) 0 Empty (as_node_ref sha key_byte 66 [1]))\<rparr>"
    using assms by (simp add: avl_insert_def avl_new_def as_node_ref_def new_node_def local_hash_def Let_def)
  show ?thesis
    by (simp add: t avl_get_proof_def as_node_ref_def new_node_def get_local_existence_proof_def push_inner_def
        existence_root_def get_leaf_op_def apply_leaf_def apply_inner_def local_hash_def avl_root_hash_def Let_def)
qed

end
