(* ===== verification/Wrappers.thy ===== *)
theory Wrappers
  imports In_Memory
begin

text \<open>
  The stores that wrap another store: \<open>GrowingStore\<close> (\<open>impls/growing.rs\<close>) represents a deleted
  path by an empty value, \<open>RevertibleStore\<close> (\<open>impls/revertible.rs\<close>) keeps a log of inverse
  operations, and \<open>SharedStore\<close> (\<open>impls/shared.rs\<close>, \<open>utils/sync.rs\<close>) shares one store between
  several handles. Each takes the methods of the wrapped store and gives the methods of
  the wrapper, so the wrappers nest as in the source.

  A \<open>SharedStore\<close> is an address of a heap of stores (the \<open>Arc\<close>); its methods take the lock,
  work on the store at the address and release the lock, so they act on the heap as one step
  each. A lock is poisoned only by a panic while it is held, and a panic ends the modelled
  run, so the poisoned case has no counterpart.
\<close>

section \<open>The growing store\<close>

record 's growing =
  gr_store :: 's

text \<open>Run a method of the wrapped store.\<close>

definition gr_inner ::
  "('s \<Rightarrow> ('e, 'a) outcome \<times> 's) \<Rightarrow> 's growing \<Rightarrow> ('e, 'a) outcome \<times> 's growing" where
  "gr_inner f g = (case f (gr_store g) of (r, s) \<Rightarrow> (r, g\<lparr>gr_store := s\<rparr>))"

definition gr_new :: "'s \<Rightarrow> 's growing" where
  "gr_new store = \<lparr>gr_store = store\<rparr>"

definition gr_set ::
  "('s, 'e, 'z) store_ops_scheme \<Rightarrow> path \<Rightarrow> bytes \<Rightarrow> 's growing \<Rightarrow>
   ('e, bytes option) outcome \<times> 's growing" where
  "gr_set ops p v g = (if v = [] then (Panic, g) else gr_inner (st_set ops p v) g)"

definition gr_get :: "('s, 'e, 'z) store_ops_scheme \<Rightarrow> height \<Rightarrow> path \<Rightarrow> 's growing \<Rightarrow> bytes option" where
  "gr_get ops h p g = opt_filter (\<lambda>v. v \<noteq> []) (st_get ops h p (gr_store g))"

definition gr_delete ::
  "('s, 'e, 'z) store_ops_scheme \<Rightarrow> path \<Rightarrow> 's growing \<Rightarrow> ('e, unit) outcome \<times> 's growing" where
  "gr_delete ops p g =
     (case gr_inner (st_set ops p []) g of (r, g') \<Rightarrow> (unwrap (map_ok (\<lambda>_. ()) r), g'))"

definition gr_get_keys :: "('s, 'e, 'z) store_ops_scheme \<Rightarrow> path \<Rightarrow> 's growing \<Rightarrow> path list" where
  "gr_get_keys ops key_prefix g =
     filter (\<lambda>k. opt_filter (\<lambda>v. v \<noteq> []) (gr_get ops Pending k g) \<noteq> None)
       (st_get_keys ops key_prefix (gr_store g))"

definition gr_get_proof ::
  "('s, 'e, 'z) provable_ops_scheme \<Rightarrow> height \<Rightarrow> path \<Rightarrow> 's growing \<Rightarrow> commitment_proof option" where
  "gr_get_proof ops h key g =
     Option.bind (opt_filter (\<lambda>v. v \<noteq> []) (gr_get ops h key g))
       (\<lambda>_. st_get_proof ops h key (gr_store g))"

definition gr_is_deleted :: "('s, 'e, 'z) store_ops_scheme \<Rightarrow> path \<Rightarrow> 's growing \<Rightarrow> bool" where
  "gr_is_deleted ops p g \<longleftrightarrow> opt_filter (\<lambda>v. v = []) (gr_get ops Pending p g) \<noteq> None"

definition gr_deleted_keys :: "('s, 'e, 'z) store_ops_scheme \<Rightarrow> path \<Rightarrow> 's growing \<Rightarrow> path list" where
  "gr_deleted_keys ops key_prefix g =
     filter (\<lambda>k. opt_filter (\<lambda>v. v = []) (gr_get ops Pending k g) \<noteq> None)
       (st_get_keys ops key_prefix (gr_store g))"

definition growing_ops :: "('s, 'e, 'z) provable_ops_scheme \<Rightarrow> ('s growing, 'e) provable_ops" where
  "growing_ops ops = \<lparr>
     st_set = gr_set ops, st_get = gr_get ops, st_delete = gr_delete ops,
     st_commit = gr_inner (st_commit ops), st_apply = gr_inner (st_apply ops),
     st_reset = gr_inner (st_reset ops), st_prune = (\<lambda>h. gr_inner (st_prune ops h)),
     st_current_height = (\<lambda>g. st_current_height ops (gr_store g)),
     st_get_keys = gr_get_keys ops,
     st_root_hash = (\<lambda>g. st_root_hash ops (gr_store g)),
     st_get_proof = gr_get_proof ops\<rparr>"

lemma growing_ops_methods [simp]:
  "st_set (growing_ops ops) = gr_set ops" "st_get (growing_ops ops) = gr_get ops"
  "st_delete (growing_ops ops) = gr_delete ops"
  "st_commit (growing_ops ops) = gr_inner (st_commit ops)"
  "st_get_keys (growing_ops ops) = gr_get_keys ops"
  "st_get_proof (growing_ops ops) = gr_get_proof ops"
  by (simp_all add: growing_ops_def)

text \<open>Over any key-value store that takes empty values, the wrapper is a key-value store for the
  values that are not empty.\<close>

lemma growing_kv:
  assumes inner: "kv_store ops invar (\<lambda>v. True)"
  shows "kv_store (growing_ops ops) (\<lambda>g. invar (gr_store g)) (\<lambda>v. v \<noteq> [])"
proof
  fix g :: "'a growing" and v :: bytes and p
  assume inv: "invar (gr_store g)" and v: "v \<noteq> []"
  obtain r s where "st_set ops p v (gr_store g) = (Ok r, s)" "invar s"
    and upd: "kv_updated ops p (Some v) (gr_store g) s"
    using kv_store.set_law [OF inner inv] by blast
  then show "\<exists>r g'. st_set (growing_ops ops) p v g = (Ok r, g') \<and> invar (gr_store g') \<and>
      kv_updated (growing_ops ops) p (Some v) g g'"
    using v by (auto simp: gr_set_def gr_inner_def kv_updated_def gr_get_def)
next
  fix g :: "'a growing" and p
  assume inv: "invar (gr_store g)"
  obtain r s where "st_set ops p [] (gr_store g) = (Ok r, s)" "invar s"
    and upd: "kv_updated ops p (Some []) (gr_store g) s"
    using kv_store.set_law [OF inner inv] by blast
  then show "\<exists>g'. st_delete (growing_ops ops) p g = (Ok (), g') \<and> invar (gr_store g') \<and>
      kv_updated (growing_ops ops) p None g g'"
    by (auto simp: gr_delete_def gr_inner_def kv_updated_def gr_get_def)
qed

interpretation growing: kv_store "growing_ops (in_memory_ops sha)" "\<lambda>g. im_ok sha (gr_store g)"
  "\<lambda>v. v \<noteq> []" for sha
  by (rule growing_kv) (unfold_locales)


section \<open>The revertible store\<close>

datatype revert_op = RevertDelete path | RevertSet path bytes

record 's revertible =
  rv_store :: 's
  op_log :: "revert_op list"

definition rv_new :: "'s \<Rightarrow> 's revertible" where
  "rv_new store = \<lparr>rv_store = store, op_log = []\<rparr>"

definition rv_inner ::
  "('s \<Rightarrow> ('e, 'a) outcome \<times> 's) \<Rightarrow> 's revertible \<Rightarrow> ('e, 'a) outcome \<times> 's revertible" where
  "rv_inner f w = (case f (rv_store w) of (r, s) \<Rightarrow> (r, w\<lparr>rv_store := s\<rparr>))"

definition rv_push :: "revert_op \<Rightarrow> 's revertible \<Rightarrow> 's revertible" where
  "rv_push x w = w\<lparr>op_log := op_log w @ [x]\<rparr>"

definition rv_set ::
  "('s, 'e, 'z) store_ops_scheme \<Rightarrow> path \<Rightarrow> bytes \<Rightarrow> 's revertible \<Rightarrow>
   ('e, bytes option) outcome \<times> 's revertible" where
  "rv_set ops p v w = and_then (rv_inner (st_set ops p v) w) (\<lambda>old_value w.
     (Ok old_value,
      case old_value of
        None \<Rightarrow> rv_push (RevertDelete p) w
      | Some old \<Rightarrow> rv_push (RevertSet p old) w))"

definition rv_get :: "('s, 'e, 'z) store_ops_scheme \<Rightarrow> height \<Rightarrow> path \<Rightarrow> 's revertible \<Rightarrow> bytes option" where
  "rv_get ops h p w = st_get ops h p (rv_store w)"

definition rv_delete ::
  "('s, 'e, 'z) store_ops_scheme \<Rightarrow> path \<Rightarrow> 's revertible \<Rightarrow> ('e, unit) outcome \<times> 's revertible" where
  "rv_delete ops p w = rv_inner (st_delete ops p) w"

definition rv_apply :: "'s revertible \<Rightarrow> ('e, unit) outcome \<times> 's revertible" where
  "rv_apply w = (Ok (), w\<lparr>op_log := []\<rparr>)"

definition rv_commit ::
  "('s, 'e, 'z) store_ops_scheme \<Rightarrow> 's revertible \<Rightarrow> ('e, bytes) outcome \<times> 's revertible" where
  "rv_commit ops w = and_then (rv_apply w) (\<lambda>_. rv_inner (st_commit ops))"

text \<open>The body of the \<open>while\<close> loop of \<open>reset\<close> for one logged operation. The \<open>unwrap\<close> turns an
  error of \<open>set\<close> into a panic.\<close>

definition rv_undo ::
  "('s, 'e, 'z) store_ops_scheme \<Rightarrow> revert_op \<Rightarrow> 's revertible \<Rightarrow> ('e, unit) outcome \<times> 's revertible" where
  "rv_undo ops x w = (case x of
     RevertDelete p \<Rightarrow> rv_delete ops p w
   | RevertSet p v \<Rightarrow> (case rv_set ops p v w of (r, w') \<Rightarrow> (unwrap (map_ok (\<lambda>_. ()) r), w')))"

text \<open>The loop itself may run forever: \<open>None\<close> is a loop that never ends.\<close>

partial_function (option) rv_reset_loop ::
  "('s, 'e, 'z) store_ops_scheme \<Rightarrow> 's revertible \<Rightarrow> (('e, unit) outcome \<times> 's revertible) option" where
  [code]: "rv_reset_loop ops w =
     (if op_log w = [] then Some (Ok (), w)
      else (let res = rv_undo ops (last (op_log w)) (w\<lparr>op_log := butlast (op_log w)\<rparr>) in
        if is_ok (fst res) then rv_reset_loop ops (snd res) else Some res))"

definition rv_reset ::
  "('s, 'e, 'z) store_ops_scheme \<Rightarrow> 's revertible \<Rightarrow> ('e, unit) outcome \<times> 's revertible" where
  "rv_reset ops w = (case rv_reset_loop ops w of None \<Rightarrow> (Diverge, w) | Some res \<Rightarrow> res)"

definition revertible_ops :: "('s, 'e, 'z) provable_ops_scheme \<Rightarrow> ('s revertible, 'e) provable_ops" where
  "revertible_ops ops = \<lparr>
     st_set = rv_set ops, st_get = rv_get ops, st_delete = rv_delete ops,
     st_commit = rv_commit ops, st_apply = rv_apply, st_reset = rv_reset ops,
     st_prune = default_prune,
     st_current_height = (\<lambda>w. st_current_height ops (rv_store w)),
     st_get_keys = (\<lambda>pre w. st_get_keys ops pre (rv_store w)),
     st_root_hash = (\<lambda>w. st_root_hash ops (rv_store w)),
     st_get_proof = (\<lambda>h p w. st_get_proof ops h p (rv_store w))\<rparr>"

lemma revertible_ops_methods [simp]:
  "st_set (revertible_ops ops) = rv_set ops" "st_get (revertible_ops ops) = rv_get ops"
  "st_delete (revertible_ops ops) = rv_delete ops" "st_reset (revertible_ops ops) = rv_reset ops"
  "st_apply (revertible_ops ops) = rv_apply" "st_commit (revertible_ops ops) = rv_commit ops"
  by (simp_all add: revertible_ops_def)

lemma rv_set_exact:
  assumes inner: "exact_kv_store ops invar (\<lambda>v. True)" and inv: "invar (rv_store w)"
  obtains s where "rv_set ops p v w =
      (Ok (rv_get ops Pending p w),
       w\<lparr>rv_store := s, op_log := op_log w @ [case rv_get ops Pending p w of
          None \<Rightarrow> RevertDelete p | Some old \<Rightarrow> RevertSet p old]\<rparr>)"
    and "invar s" and "kv_updated ops p (Some v) (rv_store w) s"
proof -
  obtain s where "st_set ops p v (rv_store w) = (Ok (st_get ops Pending p (rv_store w)), s)"
    "invar s" "kv_updated ops p (Some v) (rv_store w) s"
    using exact_kv_store.set_exact [OF inner inv] by blast
  then show ?thesis
    by (intro that [of s]) (auto simp: rv_set_def rv_inner_def rv_get_def rv_push_def split: option.splits)
qed

lemma revertible_kv:
  assumes inner: "exact_kv_store ops invar (\<lambda>v. True)"
  shows "exact_kv_store (revertible_ops ops) (\<lambda>w. invar (rv_store w)) (\<lambda>v. True)"
proof
  fix w :: "'a revertible" and v :: bytes and p
  assume inv: "invar (rv_store w)"
  obtain s where set: "rv_set ops p v w =
      (Ok (rv_get ops Pending p w),
       w\<lparr>rv_store := s, op_log := op_log w @ [case rv_get ops Pending p w of
          None \<Rightarrow> RevertDelete p | Some old \<Rightarrow> RevertSet p old]\<rparr>)"
    and "invar s" "kv_updated ops p (Some v) (rv_store w) s"
    by (rule rv_set_exact [OF inner inv])
  then show "\<exists>r w'. st_set (revertible_ops ops) p v w = (Ok r, w') \<and> invar (rv_store w') \<and>
      kv_updated (revertible_ops ops) p (Some v) w w'"
    by (auto simp: kv_updated_def rv_get_def)
  show "fst (st_set (revertible_ops ops) p v w) = Ok (st_get (revertible_ops ops) Pending p w)"
    using set by simp
next
  fix w :: "'a revertible" and p
  assume inv: "invar (rv_store w)"
  obtain s where "st_delete ops p (rv_store w) = (Ok (), s)" "invar s"
    "kv_updated ops p None (rv_store w) s"
    using kv_store.delete_law [OF exact_kv_store.axioms(1) [OF inner] inv] by blast
  then show "\<exists>w'. st_delete (revertible_ops ops) p w = (Ok (), w') \<and> invar (rv_store w') \<and>
      kv_updated (revertible_ops ops) p None w w'"
    by (auto simp: rv_delete_def rv_inner_def kv_updated_def rv_get_def)
qed

interpretation revertible: exact_kv_store "revertible_ops (in_memory_ops sha)"
  "\<lambda>w. im_ok sha (rv_store w)" "\<lambda>v. True" for sha
  by (rule revertible_kv) (unfold_locales)


text \<open>
  What \<open>reset\<close> does. A logged \<open>RevertSet\<close> on a path that is still present never ends: \<open>set\<close>
  finds a value there and logs the next \<open>RevertSet\<close>. A log of \<open>RevertDelete\<close> entries only is
  undone as intended.
\<close>

definition rv_stuck :: "('s, 'e, 'z) store_ops_scheme \<Rightarrow> 's revertible \<Rightarrow> bool" where
  "rv_stuck ops w \<longleftrightarrow> op_log w \<noteq> [] \<and>
     (\<exists>p v. last (op_log w) = RevertSet p v \<and> rv_get ops Pending p w \<noteq> None)"

lemma rv_stuck_step:
  assumes inner: "exact_kv_store ops invar (\<lambda>v. True)" and inv: "invar (rv_store w)"
    and stuck: "rv_stuck ops w"
  obtains w' where "rv_undo ops (last (op_log w)) (w\<lparr>op_log := butlast (op_log w)\<rparr>) = (Ok (), w')"
    and "invar (rv_store w')" and "rv_stuck ops w'"
proof -
  let ?w = "w\<lparr>op_log := butlast (op_log w)\<rparr>"
  from stuck obtain p v old where last: "last (op_log w) = RevertSet p v"
    and old: "rv_get ops Pending p w = Some old" by (auto simp: rv_stuck_def)
  have old': "rv_get ops Pending p ?w = Some old" using old by (simp add: rv_get_def)
  have inv': "invar (rv_store ?w)" using inv by simp
  obtain s where set: "rv_set ops p v ?w =
      (Ok (rv_get ops Pending p ?w),
       ?w\<lparr>rv_store := s, op_log := op_log ?w @ [case rv_get ops Pending p ?w of
          None \<Rightarrow> RevertDelete p | Some old \<Rightarrow> RevertSet p old]\<rparr>)"
    and s: "invar s" "kv_updated ops p (Some v) (rv_store ?w) s"
    by (rule rv_set_exact [OF inner inv'])
  let ?w' = "?w\<lparr>rv_store := s, op_log := op_log ?w @ [RevertSet p old]\<rparr>"
  have "rv_undo ops (last (op_log w)) ?w = (Ok (), ?w')"
    unfolding last using set old' by (simp add: rv_undo_def)
  moreover have "rv_stuck ops ?w'"
    using s(2) by (simp add: rv_stuck_def rv_get_def kv_updated_def)
  ultimately show ?thesis using that [of ?w'] s(1) by simp
qed

lemma rv_reset_loop_stuck:
  assumes "rv_reset_loop ops w = Some res" and "exact_kv_store ops invar (\<lambda>v. True)"
    and "invar (rv_store w)" and "rv_stuck ops w"
  shows False
  using assms
proof (induction ops w res rule: rv_reset_loop.raw_induct [rotated, consumes 1, case_names step])
  case (step loop ops w res)
  obtain w' where "rv_undo ops (last (op_log w)) (w\<lparr>op_log := butlast (op_log w)\<rparr>) = (Ok (), w')"
    and "invar (rv_store w')" and "rv_stuck ops w'"
    by (rule rv_stuck_step [OF step(3,4,5)])
  moreover have "op_log w \<noteq> []" using step(5) by (simp add: rv_stuck_def)
  ultimately show False using step(1) [of ops w' res] step(2,3) by (simp add: Let_def)
qed

lemma rv_reset_diverges:
  assumes "exact_kv_store ops invar (\<lambda>v. True)" and "invar (rv_store w)" and "rv_stuck ops w"
  shows "rv_reset ops w = (Diverge, w)"
  using rv_reset_loop_stuck [OF _ assms] by (cases "rv_reset_loop ops w") (auto simp: rv_reset_def)

lemma rv_reset_deletes:
  assumes inner: "exact_kv_store ops invar (\<lambda>v. True)"
  shows "invar (rv_store w) \<Longrightarrow> op_log w = map RevertDelete ps \<Longrightarrow>
     \<exists>s. rv_reset_loop ops w = Some (Ok (), w\<lparr>rv_store := s, op_log := []\<rparr>) \<and> invar s \<and>
       (\<forall>h q. st_get ops h q s =
          (if h = Pending \<and> q \<in> set ps then None else st_get ops h q (rv_store w)))"
proof (induction ps arbitrary: w rule: rev_induct)
  case Nil
  then have "w\<lparr>op_log := []\<rparr> = w" by simp
  then show ?case using Nil by (subst rv_reset_loop.simps) (auto intro!: exI [of _ "rv_store w"])
next
  case (snoc p ps)
  let ?w = "w\<lparr>op_log := map RevertDelete ps\<rparr>"
  have "invar (rv_store ?w)" using snoc.prems by simp
  then obtain s where del: "st_delete ops p (rv_store ?w) = (Ok (), s)" and s: "invar s"
    and upd: "kv_updated ops p None (rv_store ?w) s"
    using kv_store.delete_law [OF exact_kv_store.axioms(1) [OF inner]] by blast
  have step: "rv_reset_loop ops w = rv_reset_loop ops (?w\<lparr>rv_store := s\<rparr>)"
    using snoc.prems del
    by (subst rv_reset_loop.simps) (simp add: Let_def rv_undo_def rv_delete_def rv_inner_def)
  obtain s' where
    "rv_reset_loop ops (?w\<lparr>rv_store := s\<rparr>) = Some (Ok (), ?w\<lparr>rv_store := s', op_log := []\<rparr>)"
    and s': "invar s'" "\<forall>h q. st_get ops h q s' =
        (if h = Pending \<and> q \<in> set ps then None else st_get ops h q s)"
    using snoc.IH [of "?w\<lparr>rv_store := s\<rparr>"] s by auto
  moreover have "st_get ops h q s' =
      (if h = Pending \<and> q \<in> set (ps @ [p]) then None else st_get ops h q (rv_store w))" for h q
    using s'(2) upd by (cases "h = Pending") (auto simp: kv_updated_def)
  ultimately show ?case using step by auto
qed

text \<open>A transaction that sets fresh paths only, each once, logs one \<open>RevertDelete\<close> per path.\<close>

lemma rv_fresh_sets:
  assumes inner: "exact_kv_store ops invar (\<lambda>v. True)"
  shows "invar (rv_store w) \<Longrightarrow> distinct (map fst kvs) \<Longrightarrow>
     \<forall>p \<in> fst ` set kvs. st_get ops Pending p (rv_store w) = None \<Longrightarrow>
     \<exists>s. store_run (revertible_ops ops) (map (\<lambda>(p, v). OpSet p v) kvs) w =
           (Ok (), w\<lparr>rv_store := s, op_log := op_log w @ map RevertDelete (map fst kvs)\<rparr>) \<and> invar s \<and>
       (\<forall>h q. h \<noteq> Pending \<or> q \<notin> fst ` set kvs \<longrightarrow> st_get ops h q s = st_get ops h q (rv_store w))"
proof (induction kvs arbitrary: w)
  case Nil
  then show ?case by (auto intro!: exI [of _ "rv_store w"])
next
  case (Cons kv kvs)
  obtain p v where kv: "kv = (p, v)" by (cases kv)
  have none: "rv_get ops Pending p w = None" using Cons.prems(3) kv by (simp add: rv_get_def)
  obtain s where set: "rv_set ops p v w =
      (Ok (rv_get ops Pending p w),
       w\<lparr>rv_store := s, op_log := op_log w @ [case rv_get ops Pending p w of
          None \<Rightarrow> RevertDelete p | Some old \<Rightarrow> RevertSet p old]\<rparr>)"
    and s: "invar s" and upd: "kv_updated ops p (Some v) (rv_store w) s"
    by (rule rv_set_exact [OF inner Cons.prems(1)])
  let ?w = "w\<lparr>rv_store := s, op_log := op_log w @ [RevertDelete p]\<rparr>"
  have "\<forall>q \<in> fst ` set kvs. st_get ops Pending q (rv_store ?w) = None"
    using Cons.prems(2,3) upd kv by (auto simp: kv_updated_def)
  then obtain s' where
    run: "store_run (revertible_ops ops) (map (\<lambda>(p, v). OpSet p v) kvs) ?w =
      (Ok (), ?w\<lparr>rv_store := s', op_log := op_log ?w @ map RevertDelete (map fst kvs)\<rparr>)"
    and s': "invar s'" "\<forall>h q. h \<noteq> Pending \<or> q \<notin> fst ` set kvs \<longrightarrow>
        st_get ops h q s' = st_get ops h q (rv_store ?w)"
    using Cons.IH [of ?w] Cons.prems(2) s by auto
  have "st_get ops h q s' = st_get ops h q (rv_store w)"
    if "h \<noteq> Pending \<or> q \<notin> fst ` set (kv # kvs)" for h q
    using that s'(2) upd kv by (cases "h = Pending") (auto simp: kv_updated_def)
  then show ?case using set none run s' kv by auto
qed


section \<open>The shared store\<close>

text \<open>
  The heap of shared stores. \<open>next_addr\<close> is the next free address; a handle is an address, and
  \<open>share\<close> copies the handle.
\<close>

record 's heap =
  next_addr :: nat
  cell :: "nat \<Rightarrow> 's"

definition sh_new :: "'s \<Rightarrow> ('s, 'y) heap_scheme \<Rightarrow> nat \<times> ('s, 'y) heap_scheme" where
  "sh_new store h =
     (next_addr h, h\<lparr>next_addr := next_addr h + 1, cell := (cell h)(next_addr h := store)\<rparr>)"

definition sh_share :: "nat \<Rightarrow> nat" where
  "sh_share a = a"

text \<open>\<open>write_access\<close> and \<open>read_access\<close> around one method of the store.\<close>

definition write_access ::
  "nat \<Rightarrow> ('s \<Rightarrow> ('e, 'a) outcome \<times> 's) \<Rightarrow> ('s, 'y) heap_scheme \<Rightarrow> ('e, 'a) outcome \<times> ('s, 'y) heap_scheme" where
  "write_access a f h = (case f (cell h a) of (r, s) \<Rightarrow> (r, h\<lparr>cell := (cell h)(a := s)\<rparr>))"

definition read_access :: "nat \<Rightarrow> ('s \<Rightarrow> 'a) \<Rightarrow> ('s, 'y) heap_scheme \<Rightarrow> 'a" where
  "read_access a f h = f (cell h a)"

text \<open>\<open>SharedStore\<close> does not define \<open>prune\<close>, so it has the default of the trait.\<close>

definition shared_ops ::
  "('s, 'e, 'z) provable_ops_scheme \<Rightarrow> nat \<Rightarrow> (('s, 'y) heap_scheme, 'e) provable_ops" where
  "shared_ops ops a = \<lparr>
     st_set = (\<lambda>p v. write_access a (st_set ops p v)),
     st_get = (\<lambda>h p. read_access a (st_get ops h p)),
     st_delete = (\<lambda>p. write_access a (st_delete ops p)),
     st_commit = write_access a (st_commit ops),
     st_apply = write_access a (st_apply ops),
     st_reset = write_access a (st_reset ops),
     st_prune = default_prune,
     st_current_height = read_access a (st_current_height ops),
     st_get_keys = (\<lambda>pre. read_access a (st_get_keys ops pre)),
     st_root_hash = read_access a (st_root_hash ops),
     st_get_proof = (\<lambda>h p. read_access a (st_get_proof ops h p))\<rparr>"

lemma shared_ops_methods [simp]:
  "st_set (shared_ops ops a) p v = write_access a (st_set ops p v)"
  "st_get (shared_ops ops a) h p = read_access a (st_get ops h p)"
  "st_delete (shared_ops ops a) p = write_access a (st_delete ops p)"
  "st_commit (shared_ops ops a) = write_access a (st_commit ops)"
  "st_apply (shared_ops ops a) = write_access a (st_apply ops)"
  "st_reset (shared_ops ops a) = write_access a (st_reset ops)"
  "st_prune (shared_ops ops a) = default_prune"
  "st_current_height (shared_ops ops a) = read_access a (st_current_height ops)"
  "st_get_keys (shared_ops ops a) pre = read_access a (st_get_keys ops pre)"
  "st_root_hash (shared_ops ops a) = read_access a (st_root_hash ops)"
  "st_get_proof (shared_ops ops a) h p = read_access a (st_get_proof ops h p)"
  by (simp_all add: shared_ops_def)

lemma write_access_eq:
  "f (cell h a) = (r, s) \<Longrightarrow> write_access a f h = (r, h\<lparr>cell := (cell h)(a := s)\<rparr>)"
  by (simp add: write_access_def)

lemma write_access_law:
  assumes "\<exists>s'. f (cell h a) = (r, s') \<and> invar s' \<and> view s' = c"
  shows "\<exists>h'. write_access a f h = (r, h') \<and> invar (cell h' a) \<and> view (cell h' a) = c"
  using assms by (auto simp: write_access_eq)

text \<open>Through any handle the shared store is the block store that the wrapped store is.\<close>

lemma shared_chain:
  assumes inner: "chain_store ops invar view"
  shows "chain_store (shared_ops ops a) (\<lambda>h. invar (cell h a)) (\<lambda>h. view (cell h a))"
proof (unfold_locales, goal_cases)
  case (1 h n p)
  then show ?case using chain_store.get_law [OF inner] by (simp add: read_access_def)
next
  case (2 h p v)
  show ?case unfolding shared_ops_methods
    by (rule write_access_law) (rule chain_store.set_law [OF inner 2])
next
  case (3 h p)
  show ?case unfolding shared_ops_methods
    by (rule write_access_law) (rule chain_store.delete_law [OF inner 3])
next
  case (4 h)
  show ?case unfolding shared_ops_methods
    by (rule write_access_law) (rule chain_store.apply_law [OF inner 4])
next
  case (5 h)
  show ?case unfolding shared_ops_methods
    by (rule write_access_law) (rule chain_store.reset_law [OF inner 5])
next
  case (6 h)
  then show ?case using chain_store.commit_law [OF inner] write_access_law [where a = a]
    unfolding shared_ops_methods by metis
next
  case (7 h)
  then show ?case using chain_store.height_law [OF inner] by (simp add: read_access_def)
next
  case (8 h pre)
  then show ?case using chain_store.keys_law [OF inner] by (simp add: read_access_def)
qed

interpretation shared: chain_store "shared_ops (in_memory_ops sha) a" "\<lambda>h. im_ok sha (cell h a)"
  "\<lambda>h. im_abs (cell h a)" for sha a
  by (rule shared_chain) (unfold_locales)

text \<open>A step through a handle leaves every other cell alone.\<close>

lemma shared_step_frame:
  assumes "store_step (shared_ops ops a) x h = (r, h')" and "b \<noteq> a"
  shows "cell h' b = cell h b"
  using assms
  by (cases x)
    (auto simp: write_access_def and_then_def split: prod.splits outcome.splits)

lemma shared_run_frame:
  "store_run (shared_ops ops a) xs h = (r, h') \<Longrightarrow> b \<noteq> a \<Longrightarrow> cell h' b = cell h b"
proof (induction xs arbitrary: h)
  case (Cons x xs)
  obtain r1 h1 where step: "store_step (shared_ops ops a) x h = (r1, h1)"
    by (cases "store_step (shared_ops ops a) x h")
  have "cell h1 b = cell h b" by (rule shared_step_frame [OF step Cons.prems(2)])
  then show ?case using Cons step by (cases r1) auto
qed simp


section \<open>Properties\<close>

text \<open>
  C30. A handle obtained by \<open>share\<close> and the original handle are one store: after any history
  through the clone, every read through the original is the read of the abstract store after
  that history, and the stores at all other addresses are untouched.
\<close>

theorem shared_handles_coherent:
  assumes "im_ok sha (cell h a)"
  shows "\<exists>h'. store_run (shared_ops (in_memory_ops sha) (sh_share a)) xs h = (Ok (), h') \<and>
     (\<forall>n p. st_get (shared_ops (in_memory_ops sha) a) n p h' =
        Option.bind (chain_view n (fold chain_step xs (im_abs (cell h a)))) (\<lambda>m. m p)) \<and>
     (\<forall>b. b \<noteq> a \<longrightarrow> cell h' b = cell h b)"
proof -
  from shared.store_run_refines [OF assms, of xs] obtain h' where
    run: "store_run (shared_ops (in_memory_ops sha) a) xs h = (Ok (), h')"
    and ok: "im_ok sha (cell h' a)"
    and abs: "im_abs (cell h' a) = fold chain_step xs (im_abs (cell h a))" by blast
  have "\<forall>n p. st_get (shared_ops (in_memory_ops sha) a) n p h' =
      Option.bind (chain_view n (im_abs (cell h' a))) (\<lambda>m. m p)"
    using shared.get_law [OF ok] by blast
  then show ?thesis
    using run shared_run_frame [OF run] unfolding abs sh_share_def by blast
qed

text \<open>
  Pruning through a shared handle reports success for every height and drops nothing: the
  method is not forwarded to the wrapped store, although that store implements it.
\<close>

theorem shared_prune_is_noop:
  "st_prune (shared_ops (in_memory_ops sha) a) n h = (Ok n, h)"
  by (simp add: default_prune_def)

text \<open>
  A growing store over the in-memory store behaves as a map for values that are not
  empty: a set value is read back, a deleted path reads as absent and yields no proof, and
  other paths and all committed heights are unchanged.
\<close>

theorem growing_store_map:
  assumes "im_ok sha (gr_store g)" and "v \<noteq> []"
  shows "(\<exists>r g'. gr_set (in_memory_ops sha) p v g = (Ok r, g') \<and> im_ok sha (gr_store g') \<and>
       kv_updated (growing_ops (in_memory_ops sha)) p (Some v) g g') \<and>
     (\<exists>g'. gr_delete (in_memory_ops sha) p g = (Ok (), g') \<and> im_ok sha (gr_store g') \<and>
       kv_updated (growing_ops (in_memory_ops sha)) p None g g' \<and>
       gr_get_proof (in_memory_ops sha) Pending p g' = None)"
proof -
  have "\<exists>r g'. gr_set (in_memory_ops sha) p v g = (Ok r, g') \<and> im_ok sha (gr_store g') \<and>
       kv_updated (growing_ops (in_memory_ops sha)) p (Some v) g g'"
    using growing.set_law [OF assms] by simp
  moreover obtain g' where "gr_delete (in_memory_ops sha) p g = (Ok (), g')"
    "im_ok sha (gr_store g')" and upd: "kv_updated (growing_ops (in_memory_ops sha)) p None g g'"
    using growing.delete_law [OF assms(1)] by auto
  moreover from upd have "gr_get_proof (in_memory_ops sha) Pending p g' = None"
    by (simp add: kv_updated_def gr_get_proof_def)
  ultimately show ?thesis by blast
qed

text \<open>
  \<open>is_deleted\<close> is never true and \<open>deleted_keys\<close> is always empty, over every store: both
  look for an empty value in the result of \<open>get\<close>, which has filtered empty values out.
\<close>

theorem growing_never_deleted:
  "\<not> gr_is_deleted ops p g \<and> gr_deleted_keys ops pre g = []"
  by (auto simp: gr_is_deleted_def gr_deleted_keys_def gr_get_def opt_filter_def filter_empty_conv
      split: option.splits)

text \<open>
  Setting a deleted path of a growing store returns the empty value that marks the
  deletion as the previous value, while \<open>get\<close> reported the path as absent.
\<close>

theorem growing_set_after_delete:
  assumes "im_ok sha (gr_store g)" and "v \<noteq> []"
    and "gr_delete (in_memory_ops sha) p g = (Ok (), g')"
  shows "gr_get (in_memory_ops sha) Pending p g' = None \<and>
    fst (gr_set (in_memory_ops sha) p v g') = Ok (Some [])"
proof -
  obtain s where set: "st_set (in_memory_ops sha) p [] (gr_store g) =
      (Ok (st_get (in_memory_ops sha) Pending p (gr_store g)), s)"
    and s: "im_ok sha s" "kv_updated (in_memory_ops sha) p (Some []) (gr_store g) s"
    using mem.kv.set_exact [OF assms(1)] by blast
  then have g': "g' = g\<lparr>gr_store := s\<rparr>"
    using assms(3) by (simp add: gr_delete_def gr_inner_def)
  have now: "st_get (in_memory_ops sha) Pending p s = Some []"
    using s(2) by (simp add: kv_updated_def)
  have "fst (st_set (in_memory_ops sha) p v s) = Ok (Some [])"
    using mem.kv.old_law [OF s(1) TrueI, of p v] now by simp
  then show ?thesis
    using now assms(2)
    by (cases "im_set sha p v s") (simp add: g' gr_get_def gr_set_def gr_inner_def)
qed

text \<open>
  C39. Resetting a revertible store never ends when the last logged operation is an overwrite
  of a path that is still present: undoing it is a \<open>set\<close>, which logs an operation again.
\<close>

theorem revertible_reset_diverges:
  assumes "im_ok sha (rv_store w)" and "rv_get (in_memory_ops sha) Pending p w \<noteq> None"
    and "rv_set (in_memory_ops sha) p v w = (r, w')"
  shows "rv_reset (in_memory_ops sha) w' = (Diverge, w')"
proof -
  have inner: "exact_kv_store (in_memory_ops sha) (im_ok sha) (\<lambda>v. True)" by unfold_locales
  from rv_set_exact [OF inner assms(1), of p v] obtain s where
    "w' = w\<lparr>rv_store := s, op_log := op_log w @ [case rv_get (in_memory_ops sha) Pending p w of
          None \<Rightarrow> RevertDelete p | Some old \<Rightarrow> RevertSet p old]\<rparr>"
    and "im_ok sha s" "kv_updated (in_memory_ops sha) p (Some v) (rv_store w) s"
    using assms(3) by (metis prod.inject)
  then have "rv_stuck (in_memory_ops sha) w'" and "im_ok sha (rv_store w')"
    using assms(2) by (auto simp: rv_stuck_def rv_get_def kv_updated_def)
  then show ?thesis using rv_reset_diverges [OF inner] by blast
qed

text \<open>
  A transaction that sets each of some fresh paths once is undone by \<open>reset\<close>: it ends,
  and every read at every height is the one before the transaction.
\<close>

theorem revertible_reset_inserts:
  assumes "im_ok sha (rv_store w)" and "op_log w = []" and "distinct (map fst kvs)"
    and "\<forall>p \<in> fst ` set kvs. rv_get (in_memory_ops sha) Pending p w = None"
  shows "\<exists>w' w''. store_run (revertible_ops (in_memory_ops sha)) (map (\<lambda>(p, v). OpSet p v) kvs) w =
       (Ok (), w') \<and> rv_reset (in_memory_ops sha) w' = (Ok (), w'') \<and> op_log w'' = [] \<and>
     (\<forall>h q. rv_get (in_memory_ops sha) h q w'' = rv_get (in_memory_ops sha) h q w)"
proof -
  have inner: "exact_kv_store (in_memory_ops sha) (im_ok sha) (\<lambda>v. True)" by unfold_locales
  obtain s where
    run: "store_run (revertible_ops (in_memory_ops sha)) (map (\<lambda>(p, v). OpSet p v) kvs) w =
      (Ok (), w\<lparr>rv_store := s, op_log := map RevertDelete (map fst kvs)\<rparr>)"
    and s: "im_ok sha s" "\<forall>h q. h \<noteq> Pending \<or> q \<notin> fst ` set kvs \<longrightarrow>
        st_get (in_memory_ops sha) h q s = st_get (in_memory_ops sha) h q (rv_store w)"
    using rv_fresh_sets [OF inner assms(1,3)] assms(2,4) by (auto simp: rv_get_def)
  let ?w = "w\<lparr>rv_store := s, op_log := map RevertDelete (map fst kvs)\<rparr>"
  obtain s' where
    "rv_reset_loop (in_memory_ops sha) ?w = Some (Ok (), ?w\<lparr>rv_store := s', op_log := []\<rparr>)"
    and s': "\<forall>h q. st_get (in_memory_ops sha) h q s' =
       (if h = Pending \<and> q \<in> set (map fst kvs) then None else st_get (in_memory_ops sha) h q s)"
    using rv_reset_deletes [OF inner, of ?w "map fst kvs"] s(1) by auto
  moreover have "st_get (in_memory_ops sha) h q s' = st_get (in_memory_ops sha) h q (rv_store w)" for h q
    using s(2) s' assms(4) by (cases "h = Pending \<and> q \<in> fst ` set kvs") (auto simp: rv_get_def)
  ultimately show ?thesis using run by (simp add: rv_reset_def rv_get_def)
qed

text \<open>
  A deletion is not logged, so \<open>reset\<close> does not bring the path back.
\<close>

theorem revertible_delete_not_undone:
  assumes "im_ok sha (rv_store w)" and "op_log w = []"
    and "rv_delete (in_memory_ops sha) p w = (r, w')"
  shows "\<exists>w''. rv_reset (in_memory_ops sha) w' = (Ok (), w'') \<and>
     rv_get (in_memory_ops sha) Pending p w'' = None"
proof -
  obtain s where "st_delete (in_memory_ops sha) p (rv_store w) = (Ok (), s)"
    and upd: "kv_updated (in_memory_ops sha) p None (rv_store w) s"
    using mem.kv.delete_law [OF assms(1)] by blast
  then have w': "w' = w\<lparr>rv_store := s\<rparr>"
    using assms(3) by (simp add: rv_delete_def rv_inner_def)
  have "rv_reset_loop (in_memory_ops sha) w' = Some (Ok (), w')"
    using assms(2) by (subst rv_reset_loop.simps) (simp add: w')
  then show ?thesis using upd by (simp add: rv_reset_def w' rv_get_def kv_updated_def)
qed


text \<open>A store with three paths, and the same after a failed insertion of a fourth.\<close>

definition tag :: "bytes \<Rightarrow> bytes" where
  "tag bs = 1 # bs"

definition three_paths :: "in_memory revertible" where
  "three_paths = snd (store_run (revertible_ops (in_memory_ops tag))
     [OpSet (path_from_string ''a'') [1], OpSet (path_from_string ''b'') [1],
      OpSet (path_from_string ''c'') [1], OpApply]
     (rv_new im_default))"

definition failed_insert :: "in_memory revertible" where
  "failed_insert = snd (store_run (revertible_ops (in_memory_ops tag))
     [OpSet (path_from_string ''d'') [1], OpReset] three_paths)"

text \<open>
  Even where a revertible store restores every entry, it does not restore the Merkle
  root: after a set of a fresh path and a reset the entries of the tree are the old ones,
  but committing gives another root hash than committing before the transaction did, since
  the removal does not undo the rotation of the insertion. The in-memory store's own reset
  gives the old root hash. (The hash of the example, an injective one, prepends a byte.)
\<close>

theorem revertible_root_not_restored:
  "fst (store_run (revertible_ops (in_memory_ops tag))
     [OpSet (path_from_string ''d'') [1], OpReset] three_paths) = Ok () \<and>
   avl_entries (im_pending (rv_store failed_insert)) = avl_entries (im_pending (rv_store three_paths)) \<and>
   fst (rv_commit (in_memory_ops tag) failed_insert) \<noteq> fst (rv_commit (in_memory_ops tag) three_paths)"
  by code_simp


section \<open>Witnesses\<close>

theorem shared_handles_coherent_witness:
  "\<exists>h'. store_run (shared_ops (in_memory_ops id) (sh_share 0)) [OpSet path_a [7]]
       \<lparr>next_addr = 1, cell = (\<lambda>_. im_default)\<rparr> = (Ok (), h') \<and>
     st_get (shared_ops (in_memory_ops id) 0) Pending path_a h' = Some [7] \<and>
     cell h' 1 = im_default"
proof -
  let ?h = "\<lparr>next_addr = 1, cell = (\<lambda>_ :: nat. im_default)\<rparr>"
  have "im_ok id (cell ?h 0)" by simp
  from shared_handles_coherent [OF this, of "[OpSet path_a [7]]"] show ?thesis
    by (auto simp: chain_view_def chain_put_def)
qed

theorem growing_store_map_witness:
  "\<exists>g'. gr_delete (in_memory_ops id) path_a (gr_new one_block) = (Ok (), g') \<and>
     gr_get (in_memory_ops id) Latest path_a g' = Some [1] \<and>
     gr_get (in_memory_ops id) Pending path_a g' = None"
proof -
  have ok: "im_ok id (gr_store (gr_new one_block))" by (simp add: gr_new_def one_block_ok)
  have "gr_get (in_memory_ops id) Latest path_a (gr_new one_block) = Some [1]" by code_simp
  with growing_store_map [OF ok, of "[3]" path_a] show ?thesis by (auto simp: kv_updated_def)
qed

theorem growing_set_after_delete_witness:
  "\<exists>g'. gr_delete (in_memory_ops id) path_a (gr_new one_block) = (Ok (), g') \<and>
     fst (gr_set (in_memory_ops id) path_a [5] g') = Ok (Some [])"
proof -
  have ok: "im_ok id (gr_store (gr_new one_block))" by (simp add: gr_new_def one_block_ok)
  obtain g' where del: "gr_delete (in_memory_ops id) path_a (gr_new one_block) = (Ok (), g')"
    using growing.delete_law [OF ok] by auto
  from growing_set_after_delete [OF ok _ del, of "[5]"] del show ?thesis by auto
qed

theorem revertible_reset_diverges_witness:
  "\<exists>r w'. rv_set (in_memory_ops id) path_a [5] (rv_new one_block) = (r, w') \<and>
     rv_reset (in_memory_ops id) w' = (Diverge, w')"
proof -
  have ok: "im_ok id (rv_store (rv_new one_block))" by (simp add: rv_new_def one_block_ok)
  obtain r w' where set: "rv_set (in_memory_ops id) path_a [5] (rv_new one_block) = (r, w')"
    by (cases "rv_set (in_memory_ops id) path_a [5] (rv_new one_block)")
  have "rv_get (in_memory_ops id) Pending path_a (rv_new one_block) \<noteq> None" by code_simp
  from revertible_reset_diverges [OF ok this set] set show ?thesis by blast
qed

theorem revertible_reset_inserts_witness:
  "\<exists>w' w''. store_run (revertible_ops (in_memory_ops id))
       [OpSet (path_from_string ''b'') [2], OpSet (path_from_string ''c'') [3]] (rv_new one_block) = (Ok (), w') \<and>
     rv_reset (in_memory_ops id) w' = (Ok (), w'') \<and>
     rv_get (in_memory_ops id) Pending path_a w'' = Some [1]"
proof -
  let ?kvs = "[(path_from_string ''b'', [2]), (path_from_string ''c'', [3])]"
  have ok: "im_ok id (rv_store (rv_new one_block))" by (simp add: rv_new_def one_block_ok)
  have log: "op_log (rv_new one_block) = []" by (simp add: rv_new_def)
  have d: "distinct (map fst ?kvs)" by (simp add: path_from_string_inj)
  have absent: "\<forall>p \<in> fst ` set ?kvs. rv_get (in_memory_ops id) Pending p (rv_new one_block) = None"
    by code_simp
  have "rv_get (in_memory_ops id) Pending path_a (rv_new one_block) = Some [1]" by code_simp
  with revertible_reset_inserts [OF ok log d absent] show ?thesis by auto
qed

theorem revertible_delete_not_undone_witness:
  "\<exists>r w' w''. rv_get (in_memory_ops id) Pending path_a (rv_new one_block) = Some [1] \<and>
     rv_delete (in_memory_ops id) path_a (rv_new one_block) = (r, w') \<and>
     rv_reset (in_memory_ops id) w' = (Ok (), w'') \<and>
     rv_get (in_memory_ops id) Pending path_a w'' = None"
proof -
  have ok: "im_ok id (rv_store (rv_new one_block))" by (simp add: rv_new_def one_block_ok)
  have log: "op_log (rv_new one_block) = []" by (simp add: rv_new_def)
  obtain r w' where del: "rv_delete (in_memory_ops id) path_a (rv_new one_block) = (r, w')"
    by (cases "rv_delete (in_memory_ops id) path_a (rv_new one_block)")
  have "rv_get (in_memory_ops id) Pending path_a (rv_new one_block) = Some [1]" by code_simp
  with revertible_delete_not_undone [OF ok log del] del show ?thesis by blast
qed

end
