(* ===== verification/Modules.thy ===== *)
theory Modules
  imports Wrappers
begin

text \<open>
  The interface between the application and its modules: \<open>basecoin/modules/src/context.rs\<close>,
  \<open>error.rs\<close>, \<open>types.rs\<close> and \<open>bank/error.rs\<close>, \<open>gov/error.rs\<close>.

  A module is the record of its methods on the world \<open>'w\<close>, the heap of shared stores with
  whatever private state the modules keep beside it, and the address of its store. The
  types of third-party crates are parameters: \<open>'id\<close> is \<open>AccountId\<close>, \<open>'ie\<close> the \<open>HandlerError\<close> of
  \<open>ibc-rs\<close>, \<open>'ev\<close> a Tendermint event, \<open>'h\<close> a block header and \<open>'j\<close> a \<open>serde_json::Value\<close>; the
  protobuf messages \<open>Any\<close> and \<open>ProofOp\<close> are records of their fields.
\<close>

section \<open>Errors\<close>

datatype 'id bank_error =
    MsgDecodeFailure
  | MsgValidationFailure string
  | NonExistentAccount 'id
  | InsufficientSourceFunds
  | DestFundOverflow
  | BankStore string

datatype gov_error =
    InvalidProposal string
  | ValidationFailure string
  | ExecutionFailure string

datatype ('id, 'ie) app_error =
    NotHandled
  | Custom string
  | BankErr "'id bank_error"
  | IbcErr 'ie
  | GovErr gov_error

text \<open>The texts of the errors, as \<open>displaydoc\<close> derives them from the comments of the source.\<close>

fun bank_error_display :: "('id \<Rightarrow> string) \<Rightarrow> 'id bank_error \<Rightarrow> string" where
  "bank_error_display show_id MsgDecodeFailure = ''failed to decode message''"
| "bank_error_display show_id (MsgValidationFailure reason) =
     ''failed to validate message: `'' @ reason @ ''`''"
| "bank_error_display show_id (NonExistentAccount account) =
     ''account `'' @ show_id account @ ''` doesn't exist''"
| "bank_error_display show_id InsufficientSourceFunds = ''insufficient funds in sender account''"
| "bank_error_display show_id DestFundOverflow = ''receiver account funds overflow''"
| "bank_error_display show_id (BankStore reason) = ''Store error: `'' @ reason @ ''`''"

fun gov_error_display :: "gov_error \<Rightarrow> string" where
  "gov_error_display (InvalidProposal reason) = ''invalid proposal: `'' @ reason @ ''`''"
| "gov_error_display (ValidationFailure reason) = ''failed to validate: `'' @ reason @ ''`''"
| "gov_error_display (ExecutionFailure reason) = ''failed to execute: `'' @ reason @ ''`''"

fun app_error_display ::
  "('id \<Rightarrow> string) \<Rightarrow> ('ie \<Rightarrow> string) \<Rightarrow> ('id, 'ie) app_error \<Rightarrow> string" where
  "app_error_display show_id show_ie NotHandled = ''no module could handle specified message''"
| "app_error_display show_id show_ie (Custom reason) = ''custom error: `'' @ reason @ ''`''"
| "app_error_display show_id show_ie (BankErr e) =
     ''bank module error: `'' @ bank_error_display show_id e @ ''`''"
| "app_error_display show_id show_ie (IbcErr e) = ''IBC module error: `'' @ show_ie e @ ''`''"
| "app_error_display show_id show_ie (GovErr e) =
     ''Governance module error: `'' @ gov_error_display e @ ''`''"


section \<open>Messages and modules\<close>

record any =
  type_url :: string
  any_value :: bytes

record proof_op =
  po_field_type :: string
  po_key :: bytes
  po_data :: bytes

record query_result =
  qr_data :: bytes
  qr_proof :: "proof_op list option"

record ('w, 'id, 'ie, 'ev, 'h, 'j) module_ops =
  md_check :: "any \<Rightarrow> 'w \<Rightarrow> (('id, 'ie) app_error, unit) outcome"
  md_deliver :: "any \<Rightarrow> 'id \<Rightarrow> 'w \<Rightarrow> (('id, 'ie) app_error, 'ev list) outcome \<times> 'w"
  md_init :: "'j \<Rightarrow> 'w \<Rightarrow> (infallible, unit) outcome \<times> 'w"
  md_query :: "bytes \<Rightarrow> path option \<Rightarrow> height \<Rightarrow> bool \<Rightarrow> 'w \<Rightarrow> (('id, 'ie) app_error, query_result) outcome"
  md_begin_block :: "'h \<Rightarrow> 'w \<Rightarrow> (infallible, 'ev list) outcome \<times> 'w"
  md_store :: nat

text \<open>The default methods of the trait.\<close>

definition default_check :: "any \<Rightarrow> 'w \<Rightarrow> (('id, 'ie) app_error, unit) outcome" where
  "default_check message w = Ok ()"

definition default_deliver :: "any \<Rightarrow> 'id \<Rightarrow> 'w \<Rightarrow> (('id, 'ie) app_error, 'ev list) outcome \<times> 'w" where
  "default_deliver message signer w = (Err NotHandled, w)"

definition default_init :: "'j \<Rightarrow> 'w \<Rightarrow> (infallible, unit) outcome \<times> 'w" where
  "default_init app_state w = (Ok (), w)"

definition default_query ::
  "bytes \<Rightarrow> path option \<Rightarrow> height \<Rightarrow> bool \<Rightarrow> 'w \<Rightarrow> (('id, 'ie) app_error, query_result) outcome" where
  "default_query data path height prove w = Err NotHandled"

definition default_begin_block :: "'h \<Rightarrow> 'w \<Rightarrow> (infallible, 'ev list) outcome \<times> 'w" where
  "default_begin_block header w = (Ok [], w)"

text \<open>The module prefixes.\<close>

definition bank_prefix :: ident where
  "bank_prefix = identifier_from_string ''bank''"

definition ibc_prefix :: ident where
  "ibc_prefix = identifier_from_string ''ibc''"

definition auth_prefix :: ident where
  "auth_prefix = identifier_from_string ''auth''"

definition gov_prefix :: ident where
  "gov_prefix = identifier_from_string ''gov''"

definition staking_prefix :: ident where
  "staking_prefix = identifier_from_string ''staking''"

definition upgrade_prefix :: ident where
  "upgrade_prefix = identifier_from_string ''upgrade''"

record ('w, 'id, 'ie, 'ev, 'h, 'j) identified_module =
  mod_id :: ident
  mod_ops :: "('w, 'id, 'ie, 'ev, 'h, 'j) module_ops"


section \<open>Numbers as text\<close>

text \<open>An encoding of lists of numbers as text, for the examples of the module theories, and the
  world they start from.\<close>

definition unary :: "nat list \<Rightarrow> string" where
  "unary ns = concat (map (\<lambda>n. replicate n (CHR ''1'') @ [CHR ''0'']) ns)"

fun of_unary :: "nat \<Rightarrow> string \<Rightarrow> nat list" where
  "of_unary n [] = []"
| "of_unary n (c # cs) = (if c = CHR ''1'' then of_unary (Suc n) cs else n # of_unary 0 cs)"

lemma of_unary_unary: "of_unary 0 (unary ns) = ns"
proof -
  have "of_unary m (replicate n (CHR ''1'') @ (CHR ''0'') # cs) = (m + n) # of_unary 0 cs" for m n cs
    by (induction n arbitrary: m) auto
  then show ?thesis by (induction ns) (auto simp: unary_def)
qed

lemma rust_string_unary: "rust_string (unary ns)"
  by (rule ascii_rust_string) (auto simp: unary_def)

definition empty_world :: "in_memory heap" where
  "empty_world = \<lparr>next_addr = 1, cell = (\<lambda>_. im_default)\<rparr>"

end
