(* ===== verification/Ibc_Host.thy ===== *)
theory Ibc_Host
  imports Modules
begin

text \<open>
  The IBC host state: \<open>IbcContext\<close> of \<open>basecoin/modules/src/ibc/impls.rs\<close> with its validation
  and execution contexts, and the client contexts of \<open>client_contexts.rs\<close>.

  All typed stores of the context are views of the one store of the module, at the paths of
  ICS 24. The path, identifier, height and state types come from the \<open>ibc-rs\<close> crates: paths
  are the data type \<open>ibc_path\<close> with the variants this code uses, identifiers are the strings
  they wrap, a \<open>Sequence\<close> is its \<open>u64\<close>, a commitment its bytes, and everything those crates
  compute is a field of \<open>ibc_env\<close>. An error of a foreign crate is known to this code by its
  two texts only.
\<close>

section \<open>Data\<close>

type_synonym client_id = string
type_synonym connection_id = string
type_synonym port_id = string
type_synonym channel_id = string

datatype ibc_path =
    NextClientSequencePath
  | NextConnectionSequencePath
  | NextChannelSequencePath
  | ClientStatePath client_id
  | ClientConsensusStatePath client_id u64 u64
  | ClientUpdateTimePath client_id u64 u64
  | ClientUpdateHeightPath client_id u64 u64
  | ClientConnectionPath client_id
  | ConnectionPath connection_id
  | ChannelEndPath port_id channel_id
  | SeqSendPath port_id channel_id
  | SeqRecvPath port_id channel_id
  | SeqAckPath port_id channel_id
  | CommitmentPath port_id channel_id u64
  | ReceiptPath port_id channel_id u64
  | AckPath port_id channel_id u64
  | UpgradeClientStatePath u64
  | UpgradeConsensusStatePath u64

record ibc_height =
  revision_number :: u64
  revision_height :: u64

record foreign_error =
  fe_display :: string
  fe_debug :: string

datatype host_error =
    InvalidState string
  | MissingState string
  | FailedToStore string
  | OtherHostError string

text \<open>Serialisation of one type: the two halves of \<open>serde_json\<close> or of \<open>prost\<close> with the
  conversions to and from the message type.\<close>

record 'v json =
  to_json :: "'v \<Rightarrow> string option"
  from_json :: "string \<Rightarrow> 'v option"

record 'v proto =
  encode_message :: "'v \<Rightarrow> bytes"
  decode_message :: "bytes \<Rightarrow> 'v option"

record ('tcs, 'tcons, 'conn, 'chan, 'ts, 'e) ibc_env =
  ie_show :: "ibc_path \<Rightarrow> string"
  ie_parse :: "string \<Rightarrow> ibc_path option"
  ie_height_new :: "u64 \<Rightarrow> u64 \<Rightarrow> (foreign_error, ibc_height) outcome"
  ie_show_height :: "ibc_height \<Rightarrow> string"
  ie_debug_height :: "ibc_height \<Rightarrow> string"
  ie_debug_id :: "string \<Rightarrow> string"
  ie_debug_sequence :: "u64 \<Rightarrow> string"
  ie_debug_store :: "'e \<Rightarrow> string"
  ie_missing_local :: "ibc_height \<Rightarrow> foreign_error"
  ie_timestamp :: "'tcons \<Rightarrow> (foreign_error, 'ts) outcome"
  ie_u64 :: "u64 json"
  ie_sequence :: "u64 json"
  ie_time :: "'ts json"
  ie_ids :: "connection_id list json"
  ie_raw_height :: "ibc_height proto"
  ie_any :: "any proto"
  ie_client_url :: string
  ie_consensus_url :: string
  ie_client_into :: "'tcs \<Rightarrow> any"
  ie_client_try :: "any \<Rightarrow> (foreign_error, 'tcs) outcome"
  ie_consensus_into :: "'tcons \<Rightarrow> any"
  ie_consensus_try :: "any \<Rightarrow> (foreign_error, 'tcons) outcome"
  ie_connection :: "'conn proto"
  ie_channel :: "'chan proto"


section \<open>Client and consensus states\<close>

datatype 'tcs any_client_state = Tendermint 'tcs

datatype 'tcons any_consensus_state = TendermintConsensus 'tcons

datatype decoding_error = UnknownTypeUrl string | OtherDecoding foreign_error

fun client_state_into_any ::
  "('tcs, 'tcons, 'conn, 'chan, 'ts, 'e) ibc_env \<Rightarrow> 'tcs any_client_state \<Rightarrow> any" where
  "client_state_into_any env (Tendermint tm) = ie_client_into env tm"

definition client_state_try_from ::
  "('tcs, 'tcons, 'conn, 'chan, 'ts, 'e) ibc_env \<Rightarrow> any \<Rightarrow> (decoding_error, 'tcs any_client_state) outcome" where
  "client_state_try_from env raw =
     (if type_url raw = ie_client_url env
      then map_ok Tendermint (map_err OtherDecoding (ie_client_try env raw))
      else Err (UnknownTypeUrl (type_url raw)))"

fun consensus_state_into_any ::
  "('tcs, 'tcons, 'conn, 'chan, 'ts, 'e) ibc_env \<Rightarrow> 'tcons any_consensus_state \<Rightarrow> any" where
  "consensus_state_into_any env (TendermintConsensus tm) = ie_consensus_into env tm"

definition consensus_state_try_from ::
  "('tcs, 'tcons, 'conn, 'chan, 'ts, 'e) ibc_env \<Rightarrow> any \<Rightarrow>
   (decoding_error, 'tcons any_consensus_state) outcome" where
  "consensus_state_try_from env value' =
     (if type_url value' = ie_consensus_url env
      then map_ok TendermintConsensus (map_err OtherDecoding (ie_consensus_try env value'))
      else Err (UnknownTypeUrl (type_url value')))"


section \<open>The typed stores\<close>

definition some_ok :: "('e, 'a) outcome \<Rightarrow> 'a option" where
  "some_ok r = (case r of Ok a \<Rightarrow> Some a | _ \<Rightarrow> None)"

definition ibc_typed ::
  "('tcs, 'tcons, 'conn, 'chan, 'ts, 'e) ibc_env \<Rightarrow> ('k \<Rightarrow> ibc_path) \<Rightarrow> 'v codec \<Rightarrow> ('k, 'v) typed" where
  "ibc_typed env con c = \<lparr>key_string = (\<lambda>k. ie_show env (con k)), codec = c\<rparr>"

definition json_of :: "'v json \<Rightarrow> 'v codec" where
  "json_of j = json_codec (to_json j) (from_json j)"

definition proto_of :: "'v proto \<Rightarrow> 'v codec" where
  "proto_of p = protobuf_codec (\<lambda>v. v) Some (encode_message p) (decode_message p)"

text \<open>The fields of \<open>IbcContext\<close>. Keys with several components are tuples.\<close>

definition client_counter_ty where
  "client_counter_ty env = ibc_typed env (\<lambda>_::unit. NextClientSequencePath) (json_of (ie_u64 env))"
definition conn_counter_ty where
  "conn_counter_ty env = ibc_typed env (\<lambda>_::unit. NextConnectionSequencePath) (json_of (ie_u64 env))"
definition channel_counter_ty where
  "channel_counter_ty env = ibc_typed env (\<lambda>_::unit. NextChannelSequencePath) (json_of (ie_u64 env))"
definition client_processed_times_ty where
  "client_processed_times_ty env =
  ibc_typed env (\<lambda>(c, r, h). ClientUpdateTimePath c r h) (json_of (ie_time env))"
definition client_processed_heights_ty where
  "client_processed_heights_ty env =
  ibc_typed env (\<lambda>(c, r, h). ClientUpdateHeightPath c r h) (proto_of (ie_raw_height env))"
definition client_state_ty where
  "client_state_ty env = ibc_typed env ClientStatePath
  (protobuf_codec (client_state_into_any env) (\<lambda>a. some_ok (client_state_try_from env a))
    (encode_message (ie_any env)) (decode_message (ie_any env)))"
definition consensus_state_ty where
  "consensus_state_ty env = ibc_typed env (\<lambda>(c, r, h). ClientConsensusStatePath c r h)
  (protobuf_codec (consensus_state_into_any env) (\<lambda>a. some_ok (consensus_state_try_from env a))
    (encode_message (ie_any env)) (decode_message (ie_any env)))"
definition connection_end_ty where
  "connection_end_ty env = ibc_typed env ConnectionPath (proto_of (ie_connection env))"
definition connection_ids_ty where
  "connection_ids_ty env = ibc_typed env ClientConnectionPath (json_of (ie_ids env))"
definition channel_end_ty where
  "channel_end_ty env = ibc_typed env (\<lambda>(p, c). ChannelEndPath p c) (proto_of (ie_channel env))"
definition send_sequence_ty where
  "send_sequence_ty env = ibc_typed env (\<lambda>(p, c). SeqSendPath p c) (json_of (ie_sequence env))"
definition recv_sequence_ty where
  "recv_sequence_ty env = ibc_typed env (\<lambda>(p, c). SeqRecvPath p c) (json_of (ie_sequence env))"
definition ack_sequence_ty where
  "ack_sequence_ty env = ibc_typed env (\<lambda>(p, c). SeqAckPath p c) (json_of (ie_sequence env))"
definition packet_commitment_ty where
  "packet_commitment_ty env =
  ibc_typed env (\<lambda>(p, c, s). CommitmentPath p c s) (bin_codec (\<lambda>bs::bytes. bs) (\<lambda>bs. bs))"
definition packet_receipt_ty where
  "packet_receipt_ty env = ibc_typed env (\<lambda>(p, c, s). ReceiptPath p c s) null_codec"
definition packet_ack_ty where
  "packet_ack_ty env =
  ibc_typed env (\<lambda>(p, c, s). AckPath p c s) (bin_codec (\<lambda>bs::bytes. bs) (\<lambda>bs. bs))"

lemmas ibc_ty_defs = client_counter_ty_def conn_counter_ty_def channel_counter_ty_def
  client_processed_times_ty_def client_processed_heights_ty_def client_state_ty_def
  consensus_state_ty_def connection_end_ty_def connection_ids_ty_def channel_end_ty_def
  send_sequence_ty_def recv_sequence_ty_def ack_sequence_ty_def packet_commitment_ty_def
  packet_receipt_ty_def packet_ack_ty_def

text \<open>What the context keeps beside the store: the host's own consensus states by height, the
  events and the log.\<close>

record ('s, 'tcons, 'iev) ibc_heap = "'s heap" +
  host_consensus_states :: "u64 \<Rightarrow> 'tcons option"
  ibc_events :: "'iev list"
  ibc_logs :: "string list"


section \<open>Validation context\<close>

definition host_get ::
  "('w, 'e, 'z) store_ops_scheme \<Rightarrow> ('k, 'v) typed \<Rightarrow> string \<Rightarrow> 'k \<Rightarrow> 'w \<Rightarrow> (host_error, 'v) outcome" where
  "host_get ops ty missing k w = (case ts_get ops ty Pending k w of
     Some v \<Rightarrow> Ok v
   | None \<Rightarrow> Err (MissingState missing))"

definition CHAIN_REVISION_NUMBER :: u64 where
  "CHAIN_REVISION_NUMBER = 0"

definition host_height ::
  "('w, 'e, 'z) store_ops_scheme \<Rightarrow> ('tcs, 'tcons, 'conn, 'chan, 'ts, 'e) ibc_env \<Rightarrow> 'w \<Rightarrow>
   (host_error, ibc_height) outcome" where
  "host_height ops env w = map_err (\<lambda>e. InvalidState (fe_display e))
     (ie_height_new env CHAIN_REVISION_NUMBER (st_current_height ops w))"

definition host_consensus_state ::
  "('tcs, 'tcons, 'conn, 'chan, 'ts, 'e) ibc_env \<Rightarrow> ibc_height \<Rightarrow> ('s, 'tcons, 'iev, 'y) ibc_heap_scheme \<Rightarrow>
   (host_error, 'tcons) outcome" where
  "host_consensus_state env height w = (case host_consensus_states w (revision_height height) of
     Some cs \<Rightarrow> Ok cs
   | None \<Rightarrow> Err (MissingState (fe_display (ie_missing_local env height))))"

definition host_timestamp ::
  "(('s, 'tcons, 'iev, 'y) ibc_heap_scheme, 'e, 'z) store_ops_scheme \<Rightarrow>
   ('tcs, 'tcons, 'conn, 'chan, 'ts, 'e) ibc_env \<Rightarrow> ('s, 'tcons, 'iev, 'y) ibc_heap_scheme \<Rightarrow>
   (host_error, 'ts) outcome" where
  "host_timestamp ops env w =
     fst (and_then (host_height ops env w, w) (\<lambda>height w.
          and_then (host_consensus_state env height w, w) (\<lambda>cs w.
            (map_err (\<lambda>e. InvalidState (fe_display e)) (ie_timestamp env cs), w))))"

definition client_counter where
  "client_counter ops env w = host_get ops (client_counter_ty env) ''client counter'' () w"

definition connection_counter where
  "connection_counter ops env w = host_get ops (conn_counter_ty env) ''connection counter'' () w"

definition channel_counter where
  "channel_counter ops env w = host_get ops (channel_counter_ty env) ''channel counter'' () w"

definition connection_end where
  "connection_end ops env conn_id w =
     host_get ops (connection_end_ty env) (''connection end: '' @ conn_id) conn_id w"

definition validate_self_client :: "'tcs \<Rightarrow> (host_error, unit) outcome" where
  "validate_self_client counterparty_client_state = Ok ()"

definition commitment_prefix :: bytes where
  "commitment_prefix = string_bytes (identifier_to_string ibc_prefix)"

definition channel_end where
  "channel_end ops env port chan w = host_get ops (channel_end_ty env)
     (''port: '' @ port @ '', channel_id: '' @ chan) (port, chan) w"

definition get_next_sequence_send where
  "get_next_sequence_send ops env port chan w =
     host_get ops (send_sequence_ty env) ''sequence send'' (port, chan) w"

definition get_next_sequence_recv where
  "get_next_sequence_recv ops env port chan w =
     host_get ops (recv_sequence_ty env) ''sequence recv'' (port, chan) w"

definition get_next_sequence_ack where
  "get_next_sequence_ack ops env port chan w =
     host_get ops (ack_sequence_ty env) ''sequence ack'' (port, chan) w"

definition get_packet_commitment where
  "get_packet_commitment ops env port chan seq w =
     host_get ops (packet_commitment_ty env) ''packet commitment'' (port, chan, seq) w"

text \<open>The receipt is \<open>Receipt::Ok\<close>, its only value.\<close>

definition get_packet_receipt ::
  "('w, 'e, 'z) store_ops_scheme \<Rightarrow> ('tcs, 'tcons, 'conn, 'chan, 'ts, 'e) ibc_env \<Rightarrow> port_id \<Rightarrow>
   channel_id \<Rightarrow> u64 \<Rightarrow> 'w \<Rightarrow> (host_error, unit) outcome" where
  "get_packet_receipt ops env port chan seq w =
     (if ts_is_path_set ops (packet_receipt_ty env) Pending (port, chan, seq) w then Ok ()
      else Err (MissingState ''packet receipt''))"

definition get_packet_acknowledgement where
  "get_packet_acknowledgement ops env port chan seq w = host_get ops (packet_ack_ty env)
     (''packet ack: '' @ ie_debug_sequence env seq) (port, chan, seq) w"

definition max_expected_time_per_block :: nat where
  "max_expected_time_per_block = 8"

definition validate_message_signer :: "string \<Rightarrow> (host_error, unit) outcome" where
  "validate_message_signer signer = Ok ()"

definition client_state where
  "client_state ops env client w = host_get ops (client_state_ty env)
     (''client state for client_id '' @ client) client w"

definition consensus_state ::
  "('w, 'e, 'z) store_ops_scheme \<Rightarrow> ('tcs, 'tcons, 'conn, 'chan, 'ts, 'e) ibc_env \<Rightarrow>
   client_id \<times> u64 \<times> u64 \<Rightarrow> 'w \<Rightarrow> (host_error, 'tcons any_consensus_state) outcome" where
  "consensus_state ops env path w = (case path of (client, r, h) \<Rightarrow>
     fst (and_then (map_err (\<lambda>e. InvalidState (''consensus state height: '' @ fe_debug e))
                      (ie_height_new env r h), w) (\<lambda>height w.
       (host_get ops (consensus_state_ty env)
         (''consensus state for client_id '' @ client @ '' at height '' @ ie_show_height env height)
         path w, w))))"

definition client_update_meta where
  "client_update_meta ops env client (height :: ibc_height) w =
     fst (and_then (host_get ops (client_processed_times_ty env)
            (''update time for client_id '' @ client @ '' at height '' @ ie_show_height env height)
            (client, revision_number height, revision_height height) w, w) (\<lambda>processed_timestamp w.
          and_then (host_get ops (client_processed_heights_ty env)
            (''update height for client_id '' @ client @ '' at height '' @ ie_show_height env height)
            (client, revision_number height, revision_height height) w, w) (\<lambda>processed_height w.
            (Ok (processed_timestamp, processed_height), w))))"


section \<open>Execution context\<close>

text \<open>\<open>set\<close> with its error conversion, and \<open>delete\<close>.\<close>

definition host_set ::
  "('w, 'e, 'z) store_ops_scheme \<Rightarrow> ('tcs, 'tcons, 'conn, 'chan, 'ts, 'e) ibc_env \<Rightarrow> ('k, 'v) typed \<Rightarrow>
   string \<Rightarrow> 'k \<Rightarrow> 'v \<Rightarrow> 'w \<Rightarrow> (host_error, unit) outcome \<times> 'w" where
  "host_set ops env ty label k v w = (case ts_set ops ty k v w of (r, w') \<Rightarrow>
     (map_err (\<lambda>e. FailedToStore (label @ '': '' @ ie_debug_store env e)) (map_ok (\<lambda>_. ()) r), w'))"

definition host_delete ::
  "('w, 'e, 'z) store_ops_scheme \<Rightarrow> ('k, 'v) typed \<Rightarrow> 'k \<Rightarrow> 'w \<Rightarrow> (host_error, unit) outcome \<times> 'w" where
  "host_delete ops ty k w = expect (ts_delete ops ty k w)"

text \<open>The counters are \<open>u64\<close> whose increment wraps around, as in a release build.\<close>

definition increase_client_counter where
  "increase_client_counter ops env w =
     and_then (client_counter ops env w, w) (\<lambda>current_sequence.
       host_set ops env (client_counter_ty env) ''client counter'' () (current_sequence + 1))"

definition increase_connection_counter where
  "increase_connection_counter ops env w =
     and_then (connection_counter ops env w, w) (\<lambda>current_sequence.
       host_set ops env (conn_counter_ty env) ''connection counter'' () (current_sequence + 1))"

definition increase_channel_counter where
  "increase_channel_counter ops env w =
     and_then (channel_counter ops env w, w) (\<lambda>current_sequence.
       host_set ops env (channel_counter_ty env) ''channel counter'' () (current_sequence + 1))"

definition store_connection where
  "store_connection ops env conn_id new_end w =
     host_set ops env (connection_end_ty env) ''connection end'' conn_id new_end w"

definition store_connection_to_client where
  "store_connection_to_client ops env client conn_id w =
     (let conn_ids = unwrap_or [] (ts_get ops (connection_ids_ty env) Pending client w) in
      host_set ops env (connection_ids_ty env) ''connection ids'' client (conn_ids @ [conn_id]) w)"

definition store_packet_commitment where
  "store_packet_commitment ops env port chan seq commitment w =
     host_set ops env (packet_commitment_ty env) ''packet commitment'' (port, chan, seq) commitment w"

definition delete_packet_commitment where
  "delete_packet_commitment ops env port chan seq w =
     host_delete ops (packet_commitment_ty env) (port, chan, seq) w"

definition store_packet_receipt ::
  "('w, 'e, 'z) store_ops_scheme \<Rightarrow> ('tcs, 'tcons, 'conn, 'chan, 'ts, 'e) ibc_env \<Rightarrow> port_id \<Rightarrow>
   channel_id \<Rightarrow> u64 \<Rightarrow> 'w \<Rightarrow> (host_error, unit) outcome \<times> 'w" where
  "store_packet_receipt ops env port chan seq w =
     (case ts_set_path ops (packet_receipt_ty env) (port, chan, seq) w of (r, w') \<Rightarrow>
        (map_err (\<lambda>e. FailedToStore (''packet receipt: '' @ ie_debug_store env e)) r, w'))"

definition store_packet_acknowledgement where
  "store_packet_acknowledgement ops env port chan seq ack_commitment w =
     host_set ops env (packet_ack_ty env) ''packet ack'' (port, chan, seq) ack_commitment w"

definition delete_packet_acknowledgement where
  "delete_packet_acknowledgement ops env port chan seq w =
     host_delete ops (packet_ack_ty env) (port, chan, seq) w"

definition store_channel where
  "store_channel ops env port chan new_end w =
     host_set ops env (channel_end_ty env) ''channel end'' (port, chan) new_end w"

definition store_next_sequence_send where
  "store_next_sequence_send ops env port chan seq w =
     host_set ops env (send_sequence_ty env) ''sequence send'' (port, chan) seq w"

definition store_next_sequence_recv where
  "store_next_sequence_recv ops env port chan seq w =
     host_set ops env (recv_sequence_ty env) ''sequence recv'' (port, chan) seq w"

definition store_next_sequence_ack where
  "store_next_sequence_ack ops env port chan seq w =
     host_set ops env (ack_sequence_ty env) ''sequence ack'' (port, chan) seq w"

definition emit_ibc_event ::
  "'iev \<Rightarrow> ('s, 'tcons, 'iev, 'y) ibc_heap_scheme \<Rightarrow>
   (host_error, unit) outcome \<times> ('s, 'tcons, 'iev, 'y) ibc_heap_scheme" where
  "emit_ibc_event event w = (Ok (), w\<lparr>ibc_events := ibc_events w @ [event]\<rparr>)"

definition log_message ::
  "string \<Rightarrow> ('s, 'tcons, 'iev, 'y) ibc_heap_scheme \<Rightarrow>
   (host_error, unit) outcome \<times> ('s, 'tcons, 'iev, 'y) ibc_heap_scheme" where
  "log_message message w = (Ok (), w\<lparr>ibc_logs := ibc_logs w @ [message]\<rparr>)"

definition store_client_state where
  "store_client_state ops env client new_state w =
     host_set ops env (client_state_ty env) ''client state'' client new_state w"

definition store_consensus_state where
  "store_consensus_state ops env path new_state w =
     host_set ops env (consensus_state_ty env) ''consensus state'' path new_state w"

definition delete_consensus_state where
  "delete_consensus_state ops env path w = host_delete ops (consensus_state_ty env) path w"

definition store_update_meta where
  "store_update_meta ops env client (height :: ibc_height) timestamp now w =
     and_then (host_set ops env (client_processed_times_ty env)
         (''update time for client '' @ client @ '' as height '' @ ie_show_height env height)
         (client, revision_number height, revision_height height) timestamp w) (\<lambda>_.
       host_set ops env (client_processed_heights_ty env)
         (''update height for client '' @ client @ '' as height '' @ ie_show_height env height)
         (client, revision_number height, revision_height height) now)"

definition delete_update_meta where
  "delete_update_meta ops env client (height :: ibc_height) w =
     and_then (host_delete ops (client_processed_times_ty env)
         (client, revision_number height, revision_height height) w) (\<lambda>_.
       host_delete ops (client_processed_heights_ty env)
         (client, revision_number height, revision_height height))"

text \<open>\<open>IbcContext::new\<close> writes the three counters.\<close>

definition ibc_context_new ::
  "('w, 'e, 'z) store_ops_scheme \<Rightarrow> ('tcs, 'tcons, 'conn, 'chan, 'ts, 'e) ibc_env \<Rightarrow> 'w \<Rightarrow>
   (infallible, unit) outcome \<times> 'w" where
  "ibc_context_new ops env w =
     and_then (expect (ts_set ops (client_counter_ty env) () 0 w)) (\<lambda>_ w.
     and_then (expect (ts_set ops (conn_counter_ty env) () 0 w)) (\<lambda>_ w.
     and_then (expect (ts_set ops (channel_counter_ty env) () 0 w)) (\<lambda>_ w. (Ok (), w))))"

end
