(* ===== verification/Ibc_Steps.thy ===== *)
theory Ibc_Steps
  imports Ibc_Host
begin

text \<open>
  What the IBC host guarantees however its methods are called. The abstract host is a map from
  ICS 24 paths to bytes (\<open>ibc_view\<close>) that changes one path at a time, under the conditions of
  \<open>write_ok\<close>: counters are only ever incremented and receipts only ever set. Every method of
  the execution contexts simulates such steps (\<open>ctx_step_refines\<close>), so what the abstract
  machine keeps, every sequence of calls keeps.
\<close>

named_theorems sim_intros

section \<open>The abstract host\<close>

type_synonym view = "ibc_path \<Rightarrow> bytes option"

definition ibc_view ::
  "('w, 'e, 'z) store_ops_scheme \<Rightarrow> ('tcs, 'tcons, 'conn, 'chan, 'ts, 'e) ibc_env \<Rightarrow> 'w \<Rightarrow> view" where
  "ibc_view ops env w p = st_get ops Pending (path_from_string (ie_show env p)) w"

definition decode_u64 :: "('tcs, 'tcons, 'conn, 'chan, 'ts, 'e) ibc_env \<Rightarrow> bytes option \<Rightarrow> u64 option" where
  "decode_u64 env x = Option.bind x (decode (json_of (ie_u64 env)))"

definition incremented ::
  "('tcs, 'tcons, 'conn, 'chan, 'ts, 'e) ibc_env \<Rightarrow> bytes option \<Rightarrow> bytes option \<Rightarrow> bool" where
  "incremented env old new \<longleftrightarrow> (\<exists>n. decode_u64 env old = Some n \<and> decode_u64 env new = Some (n + 1))"

fun write_ok ::
  "('tcs, 'tcons, 'conn, 'chan, 'ts, 'e) ibc_env \<Rightarrow> view \<Rightarrow> ibc_path \<Rightarrow> bytes option \<Rightarrow> bool" where
  "write_ok env V NextClientSequencePath x = incremented env (V NextClientSequencePath) x"
| "write_ok env V NextConnectionSequencePath x = incremented env (V NextConnectionSequencePath) x"
| "write_ok env V NextChannelSequencePath x = incremented env (V NextChannelSequencePath) x"
| "write_ok env V (ReceiptPath port chan seq) x = (x = Some [0])"
| "write_ok env V (SeqSendPath port chan) x = (x \<noteq> None)"
| "write_ok env V (SeqRecvPath port chan) x = (x \<noteq> None)"
| "write_ok env V (SeqAckPath port chan) x = (x \<noteq> None)"
| "write_ok env V (ClientStatePath client) x = (x \<noteq> None)"
| "write_ok env V (ConnectionPath conn_id) x = (x \<noteq> None)"
| "write_ok env V (ClientConnectionPath client) x = (x \<noteq> None)"
| "write_ok env V (ChannelEndPath port chan) x = (x \<noteq> None)"
| "write_ok env V (UpgradeClientStatePath h) x = False"
| "write_ok env V (UpgradeConsensusStatePath h) x = False"
| "write_ok env V p x = True"

inductive view_step ::
  "('tcs, 'tcons, 'conn, 'chan, 'ts, 'e) ibc_env \<Rightarrow> view \<Rightarrow> view \<Rightarrow> bool" for env where
  "write_ok env V p x \<Longrightarrow> view_step env V (V(p := x))"

abbreviation view_steps ::
  "('tcs, 'tcons, 'conn, 'chan, 'ts, 'e) ibc_env \<Rightarrow> view \<Rightarrow> view \<Rightarrow> bool" where
  "view_steps env \<equiv> (view_step env)\<^sup>*\<^sup>*"

inductive_cases view_stepE: "view_step env V V'"

text \<open>What the abstract machine keeps. The paths of \<open>permanent\<close> are never removed.\<close>

fun permanent :: "ibc_path \<Rightarrow> bool" where
  "permanent NextClientSequencePath = True"
| "permanent NextConnectionSequencePath = True"
| "permanent NextChannelSequencePath = True"
| "permanent (ReceiptPath port chan seq) = True"
| "permanent (SeqSendPath port chan) = True"
| "permanent (SeqRecvPath port chan) = True"
| "permanent (SeqAckPath port chan) = True"
| "permanent (ClientStatePath client) = True"
| "permanent (ConnectionPath conn_id) = True"
| "permanent (ClientConnectionPath client) = True"
| "permanent (ChannelEndPath port chan) = True"
| "permanent p = False"

lemma incremented_some: "incremented env old new \<Longrightarrow> new \<noteq> None"
  by (auto simp: incremented_def decode_u64_def split: bind_splits)

lemma write_ok_permanent: "write_ok env V p x \<Longrightarrow> permanent p \<Longrightarrow> x \<noteq> None"
  by (cases p) (auto dest: incremented_some)

lemma view_steps_permanent:
  assumes "view_steps env V V'" and "permanent p" and "V p \<noteq> None"
  shows "V' p \<noteq> None"
  using assms
proof (induction rule: rtranclp_induct)
  case (step V1 V2)
  then show ?case by (auto elim!: view_stepE dest: write_ok_permanent)
qed

lemma view_steps_readable:
  assumes "view_steps env V V'" and "decode_u64 env (V p) \<noteq> None"
    and p: "p \<in> {NextClientSequencePath, NextConnectionSequencePath, NextChannelSequencePath}"
  shows "decode_u64 env (V' p) \<noteq> None"
  using assms(1,2)
proof (induction rule: rtranclp_induct)
  case (step V1 V2)
  from step.hyps(2) show ?case
  proof (cases rule: view_step.cases)
    case (1 q x)
    then show ?thesis using step.IH [OF step.prems] p by (cases "q = p") (auto simp: incremented_def)
  qed
qed simp

lemma view_steps_receipt:
  assumes "view_steps env V V'"
  shows "V' (ReceiptPath port chan seq) = V (ReceiptPath port chan seq) \<or>
         V' (ReceiptPath port chan seq) = Some [0]"
  using assms
proof (induction rule: rtranclp_induct)
  case (step V1 V2)
  then show ?case by (auto elim!: view_stepE)
qed simp


section \<open>Stores the host can run on\<close>

text \<open>A key-value store inside the world of the context, which the events and the log do not
  touch.\<close>

locale host_store = kv_store ops invar storable
  for ops :: "(('s, 'tcons, 'iev, 'y) ibc_heap_scheme, 'e, 'z) store_ops_scheme"
    and invar :: "('s, 'tcons, 'iev, 'y) ibc_heap_scheme \<Rightarrow> bool"
    and storable :: "bytes \<Rightarrow> bool" +
  assumes all_storable: "storable v"
    and events_invar: "invar (ibc_events_update f w) \<longleftrightarrow> invar w"
    and logs_invar: "invar (ibc_logs_update g w) \<longleftrightarrow> invar w"
    and events_get: "st_get ops h p (ibc_events_update f w) = st_get ops h p w"
    and logs_get: "st_get ops h p (ibc_logs_update g w) = st_get ops h p w"

interpretation host: host_store "shared_ops (in_memory_ops sha) a" "\<lambda>w. im_ok sha (cell w a)" "\<lambda>_. True"
  for sha a
  by unfold_locales (simp_all add: read_access_def)


section \<open>Every method simulates the abstract host\<close>

text \<open>What the context relies on of the crates: the printer of paths is injective and the
  parser undoes it, JSON round trips on \<open>u64\<close>.\<close>

definition json_ok :: "'v json \<Rightarrow> bool" where
  "json_ok j \<longleftrightarrow> (\<forall>v. \<exists>s. to_json j v = Some s \<and> rust_string s \<and> from_json j s = Some v)"

definition ibc_env_ok :: "('tcs, 'tcons, 'conn, 'chan, 'ts, 'e) ibc_env \<Rightarrow> bool" where
  "ibc_env_ok env \<longleftrightarrow> inj (ie_show env) \<and> (\<forall>p. ie_parse env (ie_show env p) = Some p) \<and>
     json_ok (ie_u64 env)"

lemma json_of_ok: "json_ok j \<Longrightarrow> codec_ok (json_of j) v"
  unfolding json_ok_def json_of_def by (metis json_codec_ok)

lemma ibc_path_inj:
  "ibc_env_ok env \<Longrightarrow> path_from_string (ie_show env p) = path_from_string (ie_show env q) \<longleftrightarrow> p = q"
  by (auto simp: ibc_env_ok_def path_from_string_inj dest: injD)

lemma ts_get_view:
  "ts_get ops (ibc_typed env con c) Pending k w = Option.bind (ibc_view ops env w (con k)) (decode c)"
  by (simp add: ts_get_def ibc_typed_def ibc_view_def typed_path_def)

context host_store
begin

text \<open>One write changes the view at its path.\<close>

lemma ts_set_view:
  assumes env: "ibc_env_ok env" and w: "invar w" and bs: "encode c v = Some bs"
  obtains r w' where "ts_set ops (ibc_typed env con c) k v w = (Ok r, w')" and "invar w'"
    and "ibc_view ops env w' = (ibc_view ops env w)(con k := Some bs)"
proof -
  let ?p = "path_from_string (ie_show env (con k))"
  from set_law [OF w all_storable] obtain r w' where
    w': "st_set ops ?p bs w = (Ok r, w')" "invar w'" "kv_updated ops ?p (Some bs) w w'" by blast
  have "ibc_view ops env w' = (ibc_view ops env w)(con k := Some bs)"
    using w'(3) by (auto simp: kv_updated_def ibc_view_def ibc_path_inj [OF env])
  with w' show ?thesis using that bs by (simp add: ts_set_def ibc_typed_def typed_path_def)
qed

lemma host_set_view:
  assumes env: "ibc_env_ok env" and w: "invar w" and bs: "encode c v = Some bs"
  obtains w' where "host_set ops env (ibc_typed env con c) label k v w = (Ok (), w')" and "invar w'"
    and "ibc_view ops env w' = (ibc_view ops env w)(con k := Some bs)"
proof -
  obtain r w' where "ts_set ops (ibc_typed env con c) k v w = (Ok r, w')" "invar w'"
    "ibc_view ops env w' = (ibc_view ops env w)(con k := Some bs)"
    by (rule ts_set_view [OF assms])
  then show ?thesis using that by (simp add: host_set_def)
qed

lemma store_receipt_view:
  assumes env: "ibc_env_ok env" and w: "invar w"
  obtains w' where "store_packet_receipt ops env port chan seq w = (Ok (), w')" and "invar w'"
    and "ibc_view ops env w' = (ibc_view ops env w)(ReceiptPath port chan seq := Some [0])"
proof -
  let ?p = "path_from_string (ie_show env (ReceiptPath port chan seq))"
  from set_law [OF w all_storable, of ?p "[0]"] obtain r w' where
    w': "st_set ops ?p [0] w = (Ok r, w')" "invar w'" "kv_updated ops ?p (Some [0]) w w'" by blast
  have "ibc_view ops env w' = (ibc_view ops env w)(ReceiptPath port chan seq := Some [0])"
    using w'(3) by (auto simp: kv_updated_def ibc_view_def ibc_path_inj [OF env])
  with w' show ?thesis using that
    by (simp add: store_packet_receipt_def ts_set_path_def null_codec_def packet_receipt_ty_def
        ibc_typed_def typed_path_def)
qed

lemma host_delete_view:
  assumes env: "ibc_env_ok env" and w: "invar w"
  obtains w' where "host_delete ops (ibc_typed env con c) k w = (Ok (), w')" and "invar w'"
    and "ibc_view ops env w' = (ibc_view ops env w)(con k := None)"
proof -
  let ?p = "path_from_string (ie_show env (con k))"
  from delete_law [OF w] obtain w' where
    w': "st_delete ops ?p w = (Ok (), w')" "invar w'" "kv_updated ops ?p None w w'" by blast
  have "ibc_view ops env w' = (ibc_view ops env w)(con k := None)"
    using w'(3) by (auto simp: kv_updated_def ibc_view_def ibc_path_inj [OF env])
  with w' show ?thesis using that
    by (simp add: host_delete_def ts_delete_def ibc_typed_def typed_path_def expect_def)
qed

end

text \<open>\<open>simulates f\<close>: a call of \<open>f\<close> keeps the invariant of the store and changes the view by steps of
  the abstract host.\<close>

definition simulates ::
  "('w, 'e, 'z) store_ops_scheme \<Rightarrow> ('w \<Rightarrow> bool) \<Rightarrow> ('tcs, 'tcons, 'conn, 'chan, 'ts, 'e) ibc_env \<Rightarrow>
   ('w \<Rightarrow> ('f, 'a) outcome \<times> 'w) \<Rightarrow> bool" where
  "simulates ops invar env f \<longleftrightarrow> (\<forall>w r w'. invar w \<longrightarrow> f w = (r, w') \<longrightarrow>
     invar w' \<and> view_steps env (ibc_view ops env w) (ibc_view ops env w'))"

lemma simulatesI:
  "(\<And>w r w'. invar w \<Longrightarrow> f w = (r, w') \<Longrightarrow>
      invar w' \<and> view_steps env (ibc_view ops env w) (ibc_view ops env w')) \<Longrightarrow> simulates ops invar env f"
  by (simp add: simulates_def)

lemma simulatesD:
  "simulates ops invar env f \<Longrightarrow> invar w \<Longrightarrow> f w = (r, w') \<Longrightarrow>
     invar w' \<and> view_steps env (ibc_view ops env w) (ibc_view ops env w')"
  by (simp add: simulates_def)

lemma simulates_return [sim_intros]: "simulates ops invar env (\<lambda>w. (g w, w))"
  by (auto intro!: simulatesI)

lemma simulates_and_then [sim_intros]:
  assumes m: "simulates ops invar env m" and f: "\<And>x. simulates ops invar env (f x)"
  shows "simulates ops invar env (\<lambda>w. and_then (m w) f)"
proof (rule simulatesI)
  fix w r w2
  assume w: "invar w" and eq: "and_then (m w) f = (r, w2)"
  obtain r1 w1 where m1: "m w = (r1, w1)" by (cases "m w")
  note s1 = simulatesD [OF m w m1]
  show "invar w2 \<and> view_steps env (ibc_view ops env w) (ibc_view ops env w2)"
  proof (cases r1)
    case (Ok x)
    then have "f x w1 = (r, w2)" using eq m1 by simp
    from simulatesD [OF f conjunct1 [OF s1] this] show ?thesis
      using rtranclp_trans [OF conjunct2 [OF s1]] by blast
  qed (use s1 eq m1 in auto)
qed

context host_store
begin

lemma simulates_set [sim_intros]:
  assumes env: "ibc_env_ok env" and ok: "\<And>V bs. write_ok env V (con k) (Some bs)"
  shows "simulates ops invar env (host_set ops env (ibc_typed env con c) label k v)"
proof (rule simulatesI)
  fix w r w'
  assume w: "invar w" and eq: "host_set ops env (ibc_typed env con c) label k v w = (r, w')"
  show "invar w' \<and> view_steps env (ibc_view ops env w) (ibc_view ops env w')"
  proof (cases "encode c v")
    case None
    then have "w' = w" using eq by (simp add: host_set_def ts_set_def ibc_typed_def)
    then show ?thesis using w by simp
  next
    case (Some bs)
    obtain w1 where "host_set ops env (ibc_typed env con c) label k v w = (Ok (), w1)" "invar w1"
      "ibc_view ops env w1 = (ibc_view ops env w)(con k := Some bs)"
      by (rule host_set_view [OF env w Some])
    then show ?thesis using eq ok by (auto intro: view_step.intros)
  qed
qed

lemma simulates_delete [sim_intros]:
  assumes env: "ibc_env_ok env" and ok: "\<And>V. write_ok env V (con k) None"
  shows "simulates ops invar env (host_delete ops (ibc_typed env con c) k)"
proof (rule simulatesI)
  fix w r w'
  assume w: "invar w" and eq: "host_delete ops (ibc_typed env con c) k w = (r, w')"
  obtain w1 where "host_delete ops (ibc_typed env con c) k w = (Ok (), w1)" "invar w1"
    "ibc_view ops env w1 = (ibc_view ops env w)(con k := None)"
    by (rule host_delete_view [OF env w])
  then show "invar w' \<and> view_steps env (ibc_view ops env w) (ibc_view ops env w')"
    using eq ok by (auto intro: view_step.intros)
qed

text \<open>The counters: what is written is one more than what was read.\<close>

lemma increase_view:
  assumes env: "ibc_env_ok env" and w: "invar w"
    and ty: "ty = ibc_typed env (\<lambda>_::unit. p) (json_of (ie_u64 env))"
    and old: "decode_u64 env (ibc_view ops env w p) = Some n"
  obtains w' bs where "and_then (host_get ops ty missing () w, w)
      (\<lambda>n. host_set ops env ty label () (n + 1)) = (Ok (), w')" and "invar w'"
    and "ibc_view ops env w' = (ibc_view ops env w)(p := Some bs)" and "decode_u64 env (Some bs) = Some (n + 1)"
proof -
  have "codec_ok (json_of (ie_u64 env)) (n + 1)"
    using env by (intro json_of_ok) (simp add: ibc_env_ok_def)
  then obtain bs where bs: "encode (json_of (ie_u64 env)) (n + 1) = Some bs"
    "decode (json_of (ie_u64 env)) bs = Some (n + 1)"
    by (auto simp: codec_ok_def split: option.splits)
  obtain w1 where w1: "host_set ops env ty label () (n + 1) w = (Ok (), w1)" "invar w1"
    "ibc_view ops env w1 = (ibc_view ops env w)(p := Some bs)"
    unfolding ty by (rule host_set_view [OF env w bs(1)])
  have "ts_get ops ty Pending () w = Some n"
    using old unfolding ty ts_get_view decode_u64_def .
  then show ?thesis using that [of w1 bs] w1 bs(2) by (simp add: host_get_def decode_u64_def)
qed

lemma increase_unreadable:
  assumes "ty = ibc_typed env (\<lambda>_::unit. p) (json_of (ie_u64 env))"
    and "decode_u64 env (ibc_view ops env w p) = None"
  shows "snd (and_then (host_get ops ty missing () w, w) f) = w"
proof -
  have "ts_get ops ty Pending () w = None"
    using assms(2) unfolding assms(1) ts_get_view decode_u64_def .
  then show ?thesis by (simp add: host_get_def)
qed

lemma simulates_increase:
  assumes env: "ibc_env_ok env" and ty: "ty = ibc_typed env (\<lambda>_::unit. p) (json_of (ie_u64 env))"
    and ok: "\<And>V x. incremented env (V p) x \<Longrightarrow> write_ok env V p x"
  shows "simulates ops invar env (\<lambda>w. and_then (host_get ops ty missing () w, w)
     (\<lambda>n. host_set ops env ty label () (n + 1)))"
proof (rule simulatesI)
  fix w r w'
  assume w: "invar w"
    and eq: "and_then (host_get ops ty missing () w, w) (\<lambda>n. host_set ops env ty label () (n + 1)) = (r, w')"
  show "invar w' \<and> view_steps env (ibc_view ops env w) (ibc_view ops env w')"
  proof (cases "decode_u64 env (ibc_view ops env w p)")
    case None
    then have "w' = w" using increase_unreadable [OF ty None, of missing] eq by (metis snd_conv)
    then show ?thesis using w by simp
  next
    case (Some n)
    obtain w1 bs where w1: "and_then (host_get ops ty missing () w, w)
        (\<lambda>n. host_set ops env ty label () (n + 1)) = (Ok (), w1)" "invar w1"
      "ibc_view ops env w1 = (ibc_view ops env w)(p := Some bs)" "decode_u64 env (Some bs) = Some (n + 1)"
      by (rule increase_view [OF env w ty Some])
    have "view_step env (ibc_view ops env w) ((ibc_view ops env w)(p := Some bs))"
      using Some w1(4) by (intro view_step.intros ok) (simp add: incremented_def)
    then show ?thesis using eq w1(1-3) by auto
  qed
qed

lemma simulates_receipt:
  assumes env: "ibc_env_ok env"
  shows "simulates ops invar env (store_packet_receipt ops env port chan seq)"
proof (rule simulatesI)
  fix w r w'
  assume w: "invar w" and eq: "store_packet_receipt ops env port chan seq w = (r, w')"
  show "invar w' \<and> view_steps env (ibc_view ops env w) (ibc_view ops env w')"
    by (rule store_receipt_view [OF env w, of port chan seq]) (use eq in \<open>auto intro!: r_into_rtranclp view_step.intros\<close>)
qed

end


section \<open>Sequences of calls\<close>

text \<open>One call of a method of \<open>ExecutionContext\<close> or \<open>ClientExecutionContext\<close>, whatever its
  arguments and its outcome.\<close>

inductive ctx_step ::
  "(('s, 'tcons, 'iev, 'y) ibc_heap_scheme, 'e, 'z) store_ops_scheme \<Rightarrow>
   ('tcs, 'tcons, 'conn, 'chan, 'ts, 'e) ibc_env \<Rightarrow>
   ('s, 'tcons, 'iev, 'y) ibc_heap_scheme \<Rightarrow> ('s, 'tcons, 'iev, 'y) ibc_heap_scheme \<Rightarrow> bool"
  for ops env where
  "increase_client_counter ops env w = (r, w') \<Longrightarrow> ctx_step ops env w w'"
| "increase_connection_counter ops env w = (r, w') \<Longrightarrow> ctx_step ops env w w'"
| "increase_channel_counter ops env w = (r, w') \<Longrightarrow> ctx_step ops env w w'"
| "store_connection ops env conn_id conn w = (r, w') \<Longrightarrow> ctx_step ops env w w'"
| "store_connection_to_client ops env client conn_id w = (r, w') \<Longrightarrow> ctx_step ops env w w'"
| "store_packet_commitment ops env port chan seq commitment w = (r, w') \<Longrightarrow> ctx_step ops env w w'"
| "delete_packet_commitment ops env port chan seq w = (r, w') \<Longrightarrow> ctx_step ops env w w'"
| "store_packet_receipt ops env port chan seq w = (r, w') \<Longrightarrow> ctx_step ops env w w'"
| "store_packet_acknowledgement ops env port chan seq ack w = (r, w') \<Longrightarrow> ctx_step ops env w w'"
| "delete_packet_acknowledgement ops env port chan seq w = (r, w') \<Longrightarrow> ctx_step ops env w w'"
| "store_channel ops env port chan end' w = (r, w') \<Longrightarrow> ctx_step ops env w w'"
| "store_next_sequence_send ops env port chan seq w = (r, w') \<Longrightarrow> ctx_step ops env w w'"
| "store_next_sequence_recv ops env port chan seq w = (r, w') \<Longrightarrow> ctx_step ops env w w'"
| "store_next_sequence_ack ops env port chan seq w = (r, w') \<Longrightarrow> ctx_step ops env w w'"
| "emit_ibc_event event w = (r, w') \<Longrightarrow> ctx_step ops env w w'"
| "log_message message w = (r, w') \<Longrightarrow> ctx_step ops env w w'"
| "store_client_state ops env client cs w = (r, w') \<Longrightarrow> ctx_step ops env w w'"
| "store_consensus_state ops env path cons w = (r, w') \<Longrightarrow> ctx_step ops env w w'"
| "delete_consensus_state ops env path w = (r, w') \<Longrightarrow> ctx_step ops env w w'"
| "store_update_meta ops env client height timestamp now w = (r, w') \<Longrightarrow> ctx_step ops env w w'"
| "delete_update_meta ops env client height w = (r, w') \<Longrightarrow> ctx_step ops env w w'"

lemmas method_defs = increase_client_counter_def increase_connection_counter_def
  increase_channel_counter_def client_counter_def connection_counter_def channel_counter_def
  store_connection_def store_connection_to_client_def
  store_packet_commitment_def delete_packet_commitment_def store_packet_acknowledgement_def
  delete_packet_acknowledgement_def store_channel_def store_next_sequence_send_def
  store_next_sequence_recv_def store_next_sequence_ack_def store_client_state_def
  store_consensus_state_def delete_consensus_state_def store_update_meta_def delete_update_meta_def


lemma simulates_reader:
  "(\<And>x. simulates ops invar env (f x)) \<Longrightarrow> simulates ops invar env (\<lambda>w. f (g w) w)"
  by (simp add: simulates_def)

context host_store
begin

lemma counters_simulate:
  assumes env: "ibc_env_ok env"
  shows "simulates ops invar env (increase_client_counter ops env)"
    and "simulates ops invar env (increase_connection_counter ops env)"
    and "simulates ops invar env (increase_channel_counter ops env)"
  unfolding method_defs [abs_def]
  by (rule simulates_increase [OF env client_counter_ty_def] simulates_increase [OF env conn_counter_ty_def]
      simulates_increase [OF env channel_counter_ty_def]; simp)+

lemma records_simulate:
  assumes env: "ibc_env_ok env"
  shows "simulates ops invar env (store_connection ops env conn_id conn)"
    and "simulates ops invar env (store_packet_commitment ops env port chan seq commitment)"
    and "simulates ops invar env (delete_packet_commitment ops env port chan seq)"
    and "simulates ops invar env (store_packet_acknowledgement ops env port chan seq ack)"
    and "simulates ops invar env (delete_packet_acknowledgement ops env port chan seq)"
    and "simulates ops invar env (store_channel ops env port chan chan_end)"
    and "simulates ops invar env (store_next_sequence_send ops env port chan seq)"
    and "simulates ops invar env (store_next_sequence_recv ops env port chan seq)"
    and "simulates ops invar env (store_next_sequence_ack ops env port chan seq)"
    and "simulates ops invar env (store_client_state ops env client cs)"
    and "simulates ops invar env (store_consensus_state ops env path cons)"
    and "simulates ops invar env (delete_consensus_state ops env path)"
    and "simulates ops invar env (store_update_meta ops env client height timestamp now)"
    and "simulates ops invar env (delete_update_meta ops env client height)"
  unfolding method_defs [abs_def] ibc_ty_defs
  by (intro sim_intros env; auto split: prod.splits)+

lemma connection_ids_simulate:
  assumes env: "ibc_env_ok env"
  shows "simulates ops invar env (store_connection_to_client ops env client conn_id)"
  unfolding method_defs [abs_def] Let_def
  by (rule simulates_reader) (auto simp: connection_ids_ty_def intro!: sim_intros env)

lemma output_simulates:
  "simulates ops invar env (emit_ibc_event event)" "simulates ops invar env (log_message message)"
  by (auto simp: simulates_def emit_ibc_event_def log_message_def ibc_view_def [abs_def]
      events_invar events_get logs_invar logs_get)

lemmas methods_simulate = counters_simulate records_simulate connection_ids_simulate simulates_receipt

lemma ctx_step_refines:
  assumes env: "ibc_env_ok env" and "ctx_step ops env w w'" and w: "invar w"
  shows "invar w' \<and> view_steps env (ibc_view ops env w) (ibc_view ops env w')"
  using assms(2)
  by cases (erule simulatesD [where invar = invar and w = w, OF _ w, rotated], rule methods_simulate [OF env] output_simulates)+

lemma ctx_steps_refine:
  assumes env: "ibc_env_ok env" and "(ctx_step ops env)\<^sup>*\<^sup>* w w'" and w: "invar w"
  shows "invar w' \<and> view_steps env (ibc_view ops env w) (ibc_view ops env w')"
  using assms(2,3)
proof (induction rule: rtranclp_induct)
  case (step w1 w2)
  then show ?case using ctx_step_refines [OF env step.hyps(2)] by (auto intro: rtranclp_trans)
qed simp

end


section \<open>Properties\<close>

text \<open>The store of the module: a shared in-memory store.\<close>

abbreviation ibc_store ::
  "(bytes \<Rightarrow> bytes) \<Rightarrow> nat \<Rightarrow> ((in_memory, 'tcons, 'iev, 'y) ibc_heap_scheme, infallible) provable_ops" where
  "ibc_store sha a \<equiv> shared_ops (in_memory_ops sha) a"

lemma get_packet_receipt_view:
  "get_packet_receipt ops env port chan seq w = Ok () \<longleftrightarrow> ibc_view ops env w (ReceiptPath port chan seq) \<noteq> None"
  by (simp add: get_packet_receipt_def ts_is_path_set_def packet_receipt_ty_def ibc_typed_def typed_path_def
      ibc_view_def)

lemma counter_view:
  "client_counter ops env w = Ok n \<longleftrightarrow> decode_u64 env (ibc_view ops env w NextClientSequencePath) = Some n"
  "connection_counter ops env w = Ok n \<longleftrightarrow> decode_u64 env (ibc_view ops env w NextConnectionSequencePath) = Some n"
  "channel_counter ops env w = Ok n \<longleftrightarrow> decode_u64 env (ibc_view ops env w NextChannelSequencePath) = Some n"
  by (auto simp: client_counter_def connection_counter_def channel_counter_def host_get_def
      client_counter_ty_def conn_counter_ty_def channel_counter_ty_def ts_get_view decode_u64_def
      split: option.splits)

lemma counter_readable:
  "is_ok (client_counter ops env w) \<longleftrightarrow> decode_u64 env (ibc_view ops env w NextClientSequencePath) \<noteq> None"
  "is_ok (connection_counter ops env w) \<longleftrightarrow> decode_u64 env (ibc_view ops env w NextConnectionSequencePath) \<noteq> None"
  "is_ok (channel_counter ops env w) \<longleftrightarrow> decode_u64 env (ibc_view ops env w NextChannelSequencePath) \<noteq> None"
  by (auto simp: client_counter_def connection_counter_def channel_counter_def host_get_def
      client_counter_ty_def conn_counter_ty_def channel_counter_ty_def ts_get_view decode_u64_def
      split: option.splits)

text \<open>A new context has all three counters at zero.\<close>

context host_store
begin

lemma context_new_ok:
  assumes env: "ibc_env_ok env" and w: "invar w"
  obtains w' where "ibc_context_new ops env w = (Ok (), w')" and "invar w'"
    and "client_counter ops env w' = Ok 0" and "connection_counter ops env w' = Ok 0"
    and "channel_counter ops env w' = Ok 0"
proof -
  let ?c = "json_of (ie_u64 env)"
  have "codec_ok ?c 0" using env by (intro json_of_ok) (simp add: ibc_env_ok_def)
  then obtain bs where bs: "encode ?c 0 = Some bs" "decode_u64 env (Some bs) = Some 0"
    by (auto simp: codec_ok_def decode_u64_def split: option.splits)
  obtain r1 w1 where w1: "ts_set ops (ibc_typed env (\<lambda>_. NextClientSequencePath) ?c) () 0 w = (Ok r1, w1)"
    "invar w1" "ibc_view ops env w1 = (ibc_view ops env w)(NextClientSequencePath := Some bs)"
    by (rule ts_set_view [OF env w bs(1)])
  obtain r2 w2 where w2: "ts_set ops (ibc_typed env (\<lambda>_. NextConnectionSequencePath) ?c) () 0 w1 = (Ok r2, w2)"
    "invar w2" "ibc_view ops env w2 = (ibc_view ops env w1)(NextConnectionSequencePath := Some bs)"
    by (rule ts_set_view [OF env w1(2) bs(1)])
  obtain r3 w3 where w3: "ts_set ops (ibc_typed env (\<lambda>_. NextChannelSequencePath) ?c) () 0 w2 = (Ok r3, w3)"
    "invar w3" "ibc_view ops env w3 = (ibc_view ops env w2)(NextChannelSequencePath := Some bs)"
    by (rule ts_set_view [OF env w2(2) bs(1)])
  have "ibc_context_new ops env w = (Ok (), w3)"
    using w1(1) w2(1) w3(1)
    by (simp add: ibc_context_new_def client_counter_ty_def conn_counter_ty_def channel_counter_ty_def expect_def)
  then show ?thesis
    by (rule that [OF _ w3(2)]) (simp_all add: counter_view w1(3) w2(3) w3(3) bs(2))
qed

end

text \<open>
  A packet receipt is permanent: whatever methods of the execution contexts are called
  afterwards, in any order and with any arguments and outcomes, the receipt is still there.
  This is what the replay protection of unordered channels rests on.
\<close>

theorem receipt_permanent:
  assumes "ibc_env_ok env" and "im_ok sha (cell w a)"
    and "get_packet_receipt (ibc_store sha a) env port chan seq w = Ok ()"
    and "(ctx_step (ibc_store sha a) env)\<^sup>*\<^sup>* w w'"
  shows "get_packet_receipt (ibc_store sha a) env port chan seq w' = Ok ()"
proof -
  have "view_steps env (ibc_view (ibc_store sha a) env w) (ibc_view (ibc_store sha a) env w')"
    using host.ctx_steps_refine [OF assms(1,4,2)] by simp
  from view_steps_permanent [OF this, of "ReceiptPath port chan seq"] show ?thesis
    using assms(3) unfolding get_packet_receipt_view by simp
qed

text \<open>
  C34. A packet commitment can be read back exactly until it is deleted, and then it is missing;
  storing and deleting it touches no other path of the host.
\<close>

theorem packet_commitment_lifecycle:
  fixes env :: "('tcs, 'tcons, 'conn, 'chan, 'ts, infallible) ibc_env"
    and w :: "(in_memory, 'tcons, 'iev, 'y) ibc_heap_scheme"
  assumes env: "ibc_env_ok env" and w: "im_ok sha (cell w a)"
  shows "\<exists>w1 w2. store_packet_commitment (ibc_store sha a) env port chan seq commitment w = (Ok (), w1) \<and>
     get_packet_commitment (ibc_store sha a) env port chan seq w1 = Ok commitment \<and>
     ibc_view (ibc_store sha a) env w1 =
       (ibc_view (ibc_store sha a) env w)(CommitmentPath port chan seq := Some commitment) \<and>
     delete_packet_commitment (ibc_store sha a) env port chan seq w1 = (Ok (), w2) \<and>
     get_packet_commitment (ibc_store sha a) env port chan seq w2 = Err (MissingState ''packet commitment'') \<and>
     ibc_view (ibc_store sha a) env w2 =
       (ibc_view (ibc_store sha a) env w)(CommitmentPath port chan seq := None)"
proof -
  let ?c = "bin_codec (\<lambda>bs::bytes. bs) (\<lambda>bs. bs)"
  let ?con = "\<lambda>(p, c, s). CommitmentPath p c s"
  have enc: "encode ?c commitment = Some commitment" by (simp add: bin_codec_def)
  obtain w1 where w1: "host_set (ibc_store sha a) env (ibc_typed env ?con ?c) ''packet commitment''
      (port, chan, seq) commitment w = (Ok (), w1)" "im_ok sha (cell w1 a)"
    "ibc_view (ibc_store sha a) env w1 =
       (ibc_view (ibc_store sha a) env w)(?con (port, chan, seq) := Some commitment)"
    by (rule host.host_set_view [OF env w enc])
  obtain w2 where w2: "host_delete (ibc_store sha a) (ibc_typed env ?con ?c) (port, chan, seq) w1 = (Ok (), w2)"
    "ibc_view (ibc_store sha a) env w2 = (ibc_view (ibc_store sha a) env w1)(?con (port, chan, seq) := None)"
    by (rule host.host_delete_view [OF env w1(2)])
  have get: "get_packet_commitment (ibc_store sha a) env port chan seq w' =
      (case ibc_view (ibc_store sha a) env w' (CommitmentPath port chan seq) of
         Some bs \<Rightarrow> Ok bs | None \<Rightarrow> Err (MissingState ''packet commitment''))"
    for w' :: "(in_memory, 'tcons, 'iev, 'y) ibc_heap_scheme"
    by (simp add: get_packet_commitment_def host_get_def packet_commitment_ty_def ts_get_view bin_codec_def
        split: option.splits)
  show ?thesis
    using w1 w2 by (intro exI [of _ w1] exI [of _ w2])
      (simp add: store_packet_commitment_def delete_packet_commitment_def packet_commitment_ty_def get)
qed


section \<open>Witnesses\<close>

text \<open>An executable instance of the crates' functions: a path is printed as the numbers of its
  variant, its strings and its integers.\<close>

fun path_parts :: "ibc_path \<Rightarrow> nat \<times> string list \<times> u64 list" where
  "path_parts NextClientSequencePath = (0, [], [])"
| "path_parts NextConnectionSequencePath = (1, [], [])"
| "path_parts NextChannelSequencePath = (2, [], [])"
| "path_parts (ClientStatePath c) = (3, [c], [])"
| "path_parts (ClientConsensusStatePath c r h) = (4, [c], [r, h])"
| "path_parts (ClientUpdateTimePath c r h) = (5, [c], [r, h])"
| "path_parts (ClientUpdateHeightPath c r h) = (6, [c], [r, h])"
| "path_parts (ClientConnectionPath c) = (7, [c], [])"
| "path_parts (ConnectionPath c) = (8, [c], [])"
| "path_parts (ChannelEndPath p c) = (9, [p, c], [])"
| "path_parts (SeqSendPath p c) = (10, [p, c], [])"
| "path_parts (SeqRecvPath p c) = (11, [p, c], [])"
| "path_parts (SeqAckPath p c) = (12, [p, c], [])"
| "path_parts (CommitmentPath p c s) = (13, [p, c], [s])"
| "path_parts (ReceiptPath p c s) = (14, [p, c], [s])"
| "path_parts (AckPath p c s) = (15, [p, c], [s])"
| "path_parts (UpgradeClientStatePath h) = (16, [], [h])"
| "path_parts (UpgradeConsensusStatePath h) = (17, [], [h])"

definition parts_path :: "nat \<times> string list \<times> u64 list \<Rightarrow> ibc_path option" where
  "parts_path parts = (case parts of
     (t, [], []) \<Rightarrow> Some (if t = 0 then NextClientSequencePath
                           else if t = 1 then NextConnectionSequencePath else NextChannelSequencePath)
   | (t, [], [h]) \<Rightarrow> Some (if t = 16 then UpgradeClientStatePath h else UpgradeConsensusStatePath h)
   | (t, [c], []) \<Rightarrow> Some (if t = 3 then ClientStatePath c else if t = 7 then ClientConnectionPath c
                         else ConnectionPath c)
   | (t, [c], [r, h]) \<Rightarrow> Some (if t = 4 then ClientConsensusStatePath c r h
                             else if t = 5 then ClientUpdateTimePath c r h else ClientUpdateHeightPath c r h)
   | (t, [p, c], []) \<Rightarrow> Some (if t = 9 then ChannelEndPath p c else if t = 10 then SeqSendPath p c
                            else if t = 11 then SeqRecvPath p c else SeqAckPath p c)
   | (t, [p, c], [s]) \<Rightarrow> Some (if t = 13 then CommitmentPath p c s else if t = 14 then ReceiptPath p c s
                             else AckPath p c s)
   | _ \<Rightarrow> None)"

definition parts_nats :: "nat \<times> string list \<times> u64 list \<Rightarrow> nat list" where
  "parts_nats parts = (case parts of (t, ss, ns) \<Rightarrow>
     t # length ss # concat (map (\<lambda>s. length s # map of_char s) ss) @ map unat ns)"

fun take_strings :: "nat \<Rightarrow> nat list \<Rightarrow> string list \<times> nat list" where
  "take_strings (Suc k) (n # ns) =
     (case take_strings k (drop n ns) of (ss, rest) \<Rightarrow> (map char_of (take n ns) # ss, rest))"
| "take_strings k ns = ([], ns)"

definition nats_parts :: "nat list \<Rightarrow> nat \<times> string list \<times> u64 list" where
  "nats_parts ns = (case ns of
     t # k # rest \<Rightarrow> (case take_strings k rest of (ss, ns) \<Rightarrow> (t, ss, map word_of_nat ns))
   | _ \<Rightarrow> (0, [], []))"

lemma parts_path_parts: "parts_path (path_parts p) = Some p"
  by (cases p) (simp_all add: parts_path_def)

lemma take_strings_concat:
  "take_strings (length ss) (concat (map (\<lambda>s. length s # map of_char s) ss) @ ns) = (ss, ns)"
  by (induction ss) (auto simp: o_def)

lemma nats_parts_nats: "nats_parts (parts_nats parts) = parts"
  by (cases parts) (simp add: parts_nats_def nats_parts_def take_strings_concat o_def)

definition demo_show :: "ibc_path \<Rightarrow> string" where
  "demo_show p = unary (parts_nats (path_parts p))"

definition demo_parse :: "string \<Rightarrow> ibc_path option" where
  "demo_parse s = parts_path (nats_parts (of_unary 0 s))"

lemma demo_parse_show: "demo_parse (demo_show p) = Some p"
  by (simp add: demo_parse_def demo_show_def of_unary_unary nats_parts_nats parts_path_parts)

definition demo_json :: "u64 json" where
  "demo_json = \<lparr>to_json = (\<lambda>n. Some (unary [unat n])),
     from_json = (\<lambda>s. case of_unary 0 s of [n] \<Rightarrow> Some (word_of_nat n) | _ \<Rightarrow> None)\<rparr>"

definition demo_height_proto :: "ibc_height proto" where
  "demo_height_proto = \<lparr>
     encode_message = (\<lambda>h. string_bytes (unary [unat (revision_number h), unat (revision_height h)])),
     decode_message = (\<lambda>bs. case of_unary 0 (bytes_string bs) of
       [r, h] \<Rightarrow> Some \<lparr>revision_number = word_of_nat r, revision_height = word_of_nat h\<rparr> | _ \<Rightarrow> None)\<rparr>"

definition unit_proto :: "unit proto" where
  "unit_proto = \<lparr>encode_message = (\<lambda>_. []), decode_message = (\<lambda>_. Some ())\<rparr>"

definition demo_ienv :: "(unit, unit, unit, unit, u64, infallible) ibc_env" where
  "demo_ienv = \<lparr>ie_show = demo_show, ie_parse = demo_parse,
     ie_height_new = (\<lambda>r h. if h = 0 then Err \<lparr>fe_display = ''zero'', fe_debug = ''zero''\<rparr>
       else Ok \<lparr>revision_number = r, revision_height = h\<rparr>),
     ie_show_height = (\<lambda>_. []), ie_debug_height = (\<lambda>_. []), ie_debug_id = id, ie_debug_sequence = (\<lambda>_. []),
     ie_debug_store = (\<lambda>_. []), ie_missing_local = (\<lambda>_. \<lparr>fe_display = [], fe_debug = []\<rparr>),
     ie_timestamp = (\<lambda>_. Ok 0), ie_u64 = demo_json, ie_sequence = demo_json, ie_time = demo_json,
     ie_ids = \<lparr>to_json = (\<lambda>_. None), from_json = (\<lambda>_. None)\<rparr>, ie_raw_height = demo_height_proto,
     ie_any = \<lparr>encode_message = any_value, decode_message = (\<lambda>bs. Some \<lparr>type_url = [], any_value = bs\<rparr>)\<rparr>,
     ie_client_url = [], ie_consensus_url = [],
     ie_client_into = (\<lambda>_. \<lparr>type_url = [], any_value = []\<rparr>), ie_client_try = (\<lambda>_. Ok ()),
     ie_consensus_into = (\<lambda>_. \<lparr>type_url = [], any_value = []\<rparr>), ie_consensus_try = (\<lambda>_. Ok ()),
     ie_connection = unit_proto, ie_channel = unit_proto\<rparr>"

lemma demo_json_ok: "json_ok demo_json"
  by (auto simp: json_ok_def demo_json_def of_unary_unary rust_string_unary)

lemma demo_ienv_ok: "ibc_env_ok demo_ienv"
proof -
  have "inj demo_show" by (rule inj_on_inverseI [where g = "the \<circ> demo_parse"]) (simp add: demo_parse_show)
  then show ?thesis
    by (simp add: ibc_env_ok_def demo_ienv_def demo_parse_show demo_json_ok)
qed


definition demo_iworld :: "(in_memory, unit, unit) ibc_heap" where
  "demo_iworld = \<lparr>next_addr = 1, cell = (\<lambda>_. im_default), host_consensus_states = (\<lambda>_. None),
     ibc_events = [], ibc_logs = []\<rparr>"

lemma demo_iworld_ok: "im_ok id (cell demo_iworld a)"
  by (simp add: demo_iworld_def)

theorem receipt_permanent_witness:
  "\<exists>w1 w2 w3. store_packet_receipt (ibc_store id 0) demo_ienv ''transfer'' ''channel-0'' 7 demo_iworld = (Ok (), w1) \<and>
     delete_packet_acknowledgement (ibc_store id 0) demo_ienv ''transfer'' ''channel-0'' 7 w1 = (Ok (), w2) \<and>
     emit_ibc_event () w2 = (Ok (), w3) \<and>
     get_packet_receipt (ibc_store id 0) demo_ienv ''transfer'' ''channel-0'' 7 w3 = Ok ()"
proof -
  let ?ops = "ibc_store id 0 :: ((in_memory, unit, unit) ibc_heap, infallible) provable_ops"
  obtain w1 where w1: "store_packet_receipt ?ops demo_ienv ''transfer'' ''channel-0'' 7 demo_iworld = (Ok (), w1)"
    "im_ok id (cell w1 0)"
    "ibc_view ?ops demo_ienv w1 =
       (ibc_view ?ops demo_ienv demo_iworld)(ReceiptPath ''transfer'' ''channel-0'' 7 := Some [0])"
    by (rule host.store_receipt_view [OF demo_ienv_ok demo_iworld_ok])
  obtain w2 where w2: "delete_packet_acknowledgement ?ops demo_ienv ''transfer'' ''channel-0'' 7 w1 = (Ok (), w2)"
    unfolding delete_packet_acknowledgement_def packet_ack_ty_def
    by (rule host.host_delete_view [OF demo_ienv_ok w1(2)])
  obtain w3 where w3: "emit_ibc_event () w2 = (Ok (), w3)" by (simp add: emit_ibc_event_def)
  have "get_packet_receipt ?ops demo_ienv ''transfer'' ''channel-0'' 7 w1 = Ok ()"
    by (simp add: get_packet_receipt_view w1(3))
  moreover have "(ctx_step ?ops demo_ienv)\<^sup>*\<^sup>* w1 w3"
    using ctx_step.intros(10) [OF w2] ctx_step.intros(15) [OF w3]
    by (meson r_into_rtranclp rtranclp.rtrancl_into_rtrancl)
  ultimately have "get_packet_receipt ?ops demo_ienv ''transfer'' ''channel-0'' 7 w3 = Ok ()"
    using receipt_permanent [OF demo_ienv_ok w1(2)] by blast
  then show ?thesis using w1(1) w2 w3 by blast
qed

text \<open>A new context has all counters at zero.\<close>

lemma demo_context_new:
  obtains w where "ibc_context_new (ibc_store id 0) demo_ienv demo_iworld = (Ok (), w)"
    and "im_ok id (cell w 0)" and "client_counter (ibc_store id 0) demo_ienv w = Ok 0"
  using host.context_new_ok [OF demo_ienv_ok demo_iworld_ok] by metis

theorem packet_commitment_lifecycle_witness:
  "\<exists>w1 w2. store_packet_commitment (ibc_store id 0) demo_ienv ''transfer'' ''channel-0'' 7 [1, 2] demo_iworld = (Ok (), w1) \<and>
     get_packet_commitment (ibc_store id 0) demo_ienv ''transfer'' ''channel-0'' 7 w1 = Ok [1, 2] \<and>
     delete_packet_commitment (ibc_store id 0) demo_ienv ''transfer'' ''channel-0'' 7 w1 = (Ok (), w2) \<and>
     get_packet_commitment (ibc_store id 0) demo_ienv ''transfer'' ''channel-0'' 7 w2 =
       Err (MissingState ''packet commitment'')"
  using packet_commitment_lifecycle [OF demo_ienv_ok demo_iworld_ok] by blast

end
