(* ===== verification/Ibc_Queries.thy ===== *)
theory Ibc_Queries
  imports Ibc_Steps
begin

text \<open>
  The queries of the IBC host: \<open>QueryContext\<close> of \<open>impls.rs\<close> and \<open>ExtClientValidationContext\<close>
  of \<open>client_contexts.rs\<close>. They list the keys under a prefix, in the order of the store, and
  keep those that parse as a path of the wanted variant.
\<close>

section \<open>Listing keys\<close>

text \<open>\<open>path.try_into()\<close> to a path of the host.\<close>

definition to_ibc_path ::
  "('tcs, 'tcons, 'conn, 'chan, 'ts, 'e) ibc_env \<Rightarrow> path \<Rightarrow> ibc_path option" where
  "to_ibc_path env p = ie_parse env (path_to_string p)"

definition keys_under ::
  "('w, 'e, 'z) store_ops_scheme \<Rightarrow> ('tcs, 'tcons, 'conn, 'chan, 'ts, 'e) ibc_env \<Rightarrow> string \<Rightarrow>
   (ibc_path \<Rightarrow> 'k option) \<Rightarrow> 'w \<Rightarrow> 'k list" where
  "keys_under ops env prefix variant w =
     List.map_filter (\<lambda>p. Option.bind (to_ibc_path env p) variant)
       (ts_get_keys ops (path_from_string prefix) w)"

text \<open>\<open>collect\<close> into a \<open>Result\<close>: the first error, or all values.\<close>

fun collect :: "('e, 'a) outcome list \<Rightarrow> ('e, 'a list) outcome" where
  "collect [] = Ok []"
| "collect (Ok x # rs) = map_ok ((#) x) (collect rs)"
| "collect (Err e # rs) = Err e"
| "collect (Panic # rs) = Panic"
| "collect (Diverge # rs) = Diverge"

fun client_state_key :: "ibc_path \<Rightarrow> client_id option" where
  "client_state_key (ClientStatePath c) = Some c"
| "client_state_key p = None"

fun consensus_state_key :: "ibc_path \<Rightarrow> (client_id \<times> u64 \<times> u64) option" where
  "consensus_state_key (ClientConsensusStatePath c r h) = Some (c, r, h)"
| "consensus_state_key p = None"

fun connection_key :: "ibc_path \<Rightarrow> connection_id option" where
  "connection_key (ConnectionPath c) = Some c"
| "connection_key p = None"

fun channel_end_key :: "ibc_path \<Rightarrow> (port_id \<times> channel_id) option" where
  "channel_end_key (ChannelEndPath p c) = Some (p, c)"
| "channel_end_key p = None"

fun commitment_key :: "ibc_path \<Rightarrow> (port_id \<times> channel_id \<times> u64) option" where
  "commitment_key (CommitmentPath p c s) = Some (p, c, s)"
| "commitment_key p = None"

fun ack_key :: "ibc_path \<Rightarrow> (port_id \<times> channel_id \<times> u64) option" where
  "ack_key (AckPath p c s) = Some (p, c, s)"
| "ack_key p = None"


section \<open>Query context\<close>

definition client_states where
  "client_states ops env w = collect (map (\<lambda>client.
     map_ok (\<lambda>cs. (client, cs))
       (host_get ops (client_state_ty env) (''client state: '' @ ie_debug_id env client) client w))
     (keys_under ops env ''clients'' client_state_key w))"

definition consensus_prefix :: "client_id \<Rightarrow> string" where
  "consensus_prefix client = ''clients/'' @ client @ ''/consensusStates''"

definition consensus_states where
  "consensus_states ops env client w = collect (map (\<lambda>(c, r, h).
     fst (and_then (map_err (\<lambda>e. InvalidState (fe_display e)) (ie_height_new env r h), w) (\<lambda>height w.
       (map_ok (\<lambda>cs. (height, cs))
         (host_get ops (consensus_state_ty env)
           (''consensus state for client '' @ client @ '' at height '' @ ie_debug_height env height)
           (c, r, h) w), w))))
     (keys_under ops env (consensus_prefix client) consensus_state_key w))"

text \<open>The same list in both contexts, with other error texts.\<close>

definition consensus_state_heights where
  "consensus_state_heights ops env client w = collect (map (\<lambda>(c, r, h).
     map_err (\<lambda>e. InvalidState (fe_display e)) (ie_height_new env r h))
     (keys_under ops env (consensus_prefix client) consensus_state_key w))"

definition client_consensus_state_heights where
  "client_consensus_state_heights ops env client w = collect (map (\<lambda>(c, r, h).
     map_err (\<lambda>e. InvalidState (''consensus state height: '' @ fe_debug e)) (ie_height_new env r h))
     (keys_under ops env (consensus_prefix client) consensus_state_key w))"

definition connection_ends where
  "connection_ends ops env w = collect (map (\<lambda>conn_id.
     map_ok (\<lambda>conn_end. (conn_id, conn_end))
       (host_get ops (connection_end_ty env) (''connection: '' @ ie_debug_id env conn_id) conn_id w))
     (keys_under ops env ''connections'' connection_key w))"

definition client_connection_ends ::
  "('w, 'e, 'z) store_ops_scheme \<Rightarrow> ('tcs, 'tcons, 'conn, 'chan, 'ts, 'e) ibc_env \<Rightarrow> client_id \<Rightarrow> 'w \<Rightarrow>
   (host_error, connection_id list) outcome" where
  "client_connection_ends ops env client w =
     Ok (unwrap_or [] (ts_get ops (connection_ids_ty env) Pending client w))"

definition channel_ends where
  "channel_ends ops env w = collect (map (\<lambda>(port, chan).
     map_ok (\<lambda>chan_end. (port, chan, chan_end))
       (host_get ops (channel_end_ty env) (''port: '' @ port @ '', channel_id: '' @ chan) (port, chan) w))
     (keys_under ops env ''channelEnds'' channel_end_key w))"

record packet_state =
  ps_port :: port_id
  ps_chan :: channel_id
  ps_seq :: u64
  ps_data :: bytes

definition sequence_prefix :: "string \<Rightarrow> port_id \<Rightarrow> channel_id \<Rightarrow> string" where
  "sequence_prefix kind port chan = kind @ ''/ports/'' @ port @ ''/channels/'' @ chan @ ''/sequences''"

definition packet_commitments where
  "packet_commitments ops env port chan w = collect (map (\<lambda>(p, c, s).
     map_ok (\<lambda>packet. \<lparr>ps_port = p, ps_chan = c, ps_seq = s, ps_data = packet\<rparr>)
       (get_packet_commitment ops env p c s w))
     (filter (\<lambda>key. ts_get ops (packet_commitment_ty env) Pending key w \<noteq> None)
       (keys_under ops env (sequence_prefix ''commitments'' port chan) commitment_key w)))"

definition packet_acknowledgements where
  "packet_acknowledgements ops env port chan sequences w =
     (let collected_paths = (if sequences = []
          then keys_under ops env (sequence_prefix ''acks'' port chan) ack_key w
          else map (\<lambda>seq. (port, chan, seq)) sequences)
      in collect (map (\<lambda>(p, c, s).
        map_ok (\<lambda>packet. \<lparr>ps_port = p, ps_chan = c, ps_seq = s, ps_data = packet\<rparr>)
          (get_packet_acknowledgement ops env p c s w))
        (filter (\<lambda>key. ts_get ops (packet_ack_ty env) Pending key w \<noteq> None) collected_paths)))"

definition unreceived_packets ::
  "('w, 'e, 'z) store_ops_scheme \<Rightarrow> ('tcs, 'tcons, 'conn, 'chan, 'ts, 'e) ibc_env \<Rightarrow> port_id \<Rightarrow>
   channel_id \<Rightarrow> u64 list \<Rightarrow> 'w \<Rightarrow> (host_error, u64 list) outcome" where
  "unreceived_packets ops env port chan sequences w =
     Ok (filter (\<lambda>seq. ts_get ops (packet_receipt_ty env) Pending (port, chan, seq) w = None) sequences)"

definition unreceived_acks ::
  "('w, 'e, 'z) store_ops_scheme \<Rightarrow> ('tcs, 'tcons, 'conn, 'chan, 'ts, 'e) ibc_env \<Rightarrow> port_id \<Rightarrow>
   channel_id \<Rightarrow> u64 list \<Rightarrow> 'w \<Rightarrow> (host_error, u64 list) outcome" where
  "unreceived_acks ops env port chan sequences w =
     (let collected_paths = (if sequences = []
          then keys_under ops env (sequence_prefix ''commitments'' port chan) commitment_key w
          else map (\<lambda>seq. (port, chan, seq)) sequences)
      in Ok (map (\<lambda>(p, c, s). s)
        (filter (\<lambda>key. ts_get ops (packet_commitment_ty env) Pending key w \<noteq> None) collected_paths)))"

text \<open>The proof of a path, for the gRPC services.\<close>

definition ibc_get_proof ::
  "('w, 'e, 'z) provable_ops_scheme \<Rightarrow> ('tcs, 'tcons, 'conn, 'chan, 'ts, 'e) ibc_env \<Rightarrow>
   (commitment_proof \<Rightarrow> bytes) \<Rightarrow> ibc_height \<Rightarrow> ibc_path \<Rightarrow> 'w \<Rightarrow> bytes option" where
  "ibc_get_proof ops env encode_proof height p w = map_option encode_proof
     (st_get_proof ops (height_from (revision_height height)) (path_from_string (ie_show env p)) w)"


section \<open>The next and the previous consensus state\<close>

text \<open>\<open>Height\<close> is ordered by its revision number first.\<close>

definition height_less :: "ibc_height \<Rightarrow> ibc_height \<Rightarrow> bool" where
  "height_less a b \<longleftrightarrow> revision_number a < revision_number b \<or>
     (revision_number a = revision_number b \<and> revision_height a < revision_height b)"

text \<open>\<open>find_map\<close> over the keys; \<open>IbcHeight::new\<close> is unwrapped.\<close>

fun next_scan ::
  "('tcs, 'tcons, 'conn, 'chan, 'ts, 'e) ibc_env \<Rightarrow> ibc_height \<Rightarrow> path list \<Rightarrow>
   (host_error, (client_id \<times> u64 \<times> u64) option) outcome" where
  "next_scan env height [] = Ok None"
| "next_scan env height (p # ps) = (case Option.bind (to_ibc_path env p) consensus_state_key of
     Some (c, r, h) \<Rightarrow> (case ie_height_new env r h of
         Ok found \<Rightarrow> (if height_less found height then Ok (Some (c, r, h)) else next_scan env height ps)
       | _ \<Rightarrow> Panic)
   | None \<Rightarrow> next_scan env height ps)"

definition next_consensus_state where
  "next_consensus_state ops env client height w =
     fst (and_then (next_scan env height (st_get_keys ops (path_from_string (consensus_prefix client)) w), w)
       (\<lambda>found_path w. case found_path of
          Some path \<Rightarrow> (map_ok Some (host_get ops (consensus_state_ty env)
              (''consensus state for client_id '' @ client @ '' at height '' @ ie_show_height env height)
              path w), w)
        | None \<Rightarrow> (Ok None, w)))"

fun prev_position ::
  "('tcs, 'tcons, 'conn, 'chan, 'ts, 'e) ibc_env \<Rightarrow> ibc_height \<Rightarrow> nat \<Rightarrow> path list \<Rightarrow>
   (host_error, nat option) outcome" where
  "prev_position env height i [] = Ok None"
| "prev_position env height i (p # ps) = (case Option.bind (to_ibc_path env p) consensus_state_key of
     Some (c, r, h) \<Rightarrow> (case ie_height_new env r h of
         Ok found \<Rightarrow> (if \<not> height_less height found then Ok (Some i) else prev_position env height (Suc i) ps)
       | _ \<Rightarrow> Panic)
   | None \<Rightarrow> prev_position env height (Suc i) ps)"

definition prev_consensus_state where
  "prev_consensus_state ops env client height w =
     (let keys = st_get_keys ops (path_from_string (consensus_prefix client)) w in
      fst (and_then (prev_position env height 0 keys, w) (\<lambda>pos w. case pos of
          Some pos \<Rightarrow>
            (if 0 < pos
             then (case Option.bind (to_ibc_path env (keys ! (pos - 1))) consensus_state_key of
                 Some prev_path \<Rightarrow> (map_ok Some (host_get ops (consensus_state_ty env)
                     (''consensus state for client_id '' @ client @ '' at height '' @ ie_show_height env height)
                     prev_path w), w)
               | None \<Rightarrow> (Panic, w))
             else (Ok None, w))
        | None \<Rightarrow> (Ok None, w))))"


section \<open>Properties\<close>

text \<open>\<open>IbcHeight::new\<close> returns the height of its arguments or an error.\<close>

definition height_new_ok :: "('tcs, 'tcons, 'conn, 'chan, 'ts, 'e) ibc_env \<Rightarrow> bool" where
  "height_new_ok env \<longleftrightarrow> (\<forall>r h ht. ie_height_new env r h = Ok ht \<longrightarrow>
     ht = \<lparr>revision_number = r, revision_height = h\<rparr>)"

lemma next_scan_cases:
  assumes "height_new_ok env"
  shows "(case next_scan env height ps of
       Ok (Some (c, r, h)) \<Rightarrow> height_less \<lparr>revision_number = r, revision_height = h\<rparr> height
     | Ok None \<Rightarrow> (\<forall>(c, r, h) \<in> set (List.map_filter (\<lambda>p. Option.bind (to_ibc_path env p) consensus_state_key) ps).
         \<not> height_less \<lparr>revision_number = r, revision_height = h\<rparr> height)
     | _ \<Rightarrow> True)"
proof (induction ps)
  case Nil
  then show ?case by (simp add: map_filter_simps)
next
  case (Cons p ps)
  then show ?case
    using assms
    by (auto simp: map_filter_simps height_new_ok_def split: option.splits outcome.splits)
qed

text \<open>
  \<open>next_consensus_state\<close> looks in the wrong direction: what it returns is always the state
  stored for an earlier height, and it returns nothing exactly when the client has no earlier
  state, however many later ones there are. (Or it reports that the state does not decode.)
\<close>

theorem next_consensus_state_is_earlier:
  assumes height_new: "height_new_ok env"
  shows "case next_consensus_state ops env client height w of
       Ok (Some cs) \<Rightarrow> \<exists>c r h. height_less \<lparr>revision_number = r, revision_height = h\<rparr> height \<and>
         ts_get ops (consensus_state_ty env) Pending (c, r, h) w = Some cs
     | Ok None \<Rightarrow> \<forall>(c, r, h) \<in> set (keys_under ops env (consensus_prefix client) consensus_state_key w).
         \<not> height_less \<lparr>revision_number = r, revision_height = h\<rparr> height
     | _ \<Rightarrow> True"
proof -
  let ?keys = "st_get_keys ops (path_from_string (consensus_prefix client)) w"
  note scan = next_scan_cases [OF height_new, where height = height and ps = ?keys]
  show ?thesis
  proof (cases "next_scan env height ?keys")
    case (Ok found)
    then show ?thesis using scan
      by (cases found) (auto simp: next_consensus_state_def host_get_def keys_under_def ts_get_keys_def
          split: option.splits)
  qed (simp_all add: next_consensus_state_def)
qed


section \<open>Concrete histories\<close>

text \<open>Paths printed as in ICS 24, for one client; the parser knows the paths of the examples.\<close>

fun ics_show :: "ibc_path \<Rightarrow> string" where
  "ics_show (ClientConsensusStatePath c r h) =
     ''clients/'' @ c @ ''/consensusStates/'' @ dec_string (unat r) @ ''-'' @ dec_string (unat h)"
| "ics_show (ClientUpdateTimePath c r h) =
     ''clients/'' @ c @ ''/consensusStates/'' @ dec_string (unat r) @ ''-'' @ dec_string (unat h) @ ''/processedTime''"
| "ics_show (ClientUpdateHeightPath c r h) =
     ''clients/'' @ c @ ''/consensusStates/'' @ dec_string (unat r) @ ''-'' @ dec_string (unat h) @ ''/processedHeight''"
| "ics_show p = []"

definition ics_paths :: "ibc_path list" where
  "ics_paths = concat (map (\<lambda>h. [ClientConsensusStatePath ''c0'' 0 h, ClientUpdateTimePath ''c0'' 0 h,
     ClientUpdateHeightPath ''c0'' 0 h]) [9, 10])"

definition ics_env :: "(unit, unit, unit, unit, u64, infallible) ibc_env" where
  "ics_env = demo_ienv\<lparr>ie_show := ics_show, ie_parse := (\<lambda>s. find (\<lambda>p. ics_show p = s) ics_paths)\<rparr>"

abbreviation plain_store :: "(in_memory, infallible) provable_ops" where
  "plain_store \<equiv> in_memory_ops (\<lambda>_. [])"

text \<open>A client update at a height: its consensus state and its metadata.\<close>

definition client_update :: "u64 \<Rightarrow> in_memory \<Rightarrow> (host_error, unit) outcome \<times> in_memory" where
  "client_update h s =
     and_then (store_consensus_state plain_store ics_env (''c0'', 0, h) (TendermintConsensus ()) s) (\<lambda>_.
       store_update_meta plain_store ics_env ''c0'' \<lparr>revision_number = 0, revision_height = h\<rparr> 1
         \<lparr>revision_number = 0, revision_height = 1\<rparr>)"

definition updated_twice :: in_memory where
  "updated_twice = snd (client_update 10 (snd (client_update 9 im_default)))"

text \<open>
  \<open>prev_consensus_state\<close> panics on an ordinary history: a client updated at heights 9 and 10,
  asked for the state before height 9. The keys are ordered as text, so \<open>0-10\<close> comes before
  \<open>0-9\<close>; the key just before \<open>0-9\<close> is the processed time of \<open>0-10\<close>, and the code takes it for
  unreachable that a key under the prefix is no consensus state.
\<close>

theorem prev_consensus_state_panics:
  "client_update 9 im_default = (Ok (), snd (client_update 9 im_default)) \<and>
   client_update 10 (snd (client_update 9 im_default)) = (Ok (), updated_twice) \<and>
   prev_consensus_state plain_store ics_env ''c0'' \<lparr>revision_number = 0, revision_height = 9\<rparr> updated_twice = Panic"
proof -
  have "fst (client_update 9 im_default) = Ok ()" by code_simp
  moreover have "fst (client_update 10 (snd (client_update 9 im_default))) = Ok ()" by code_simp
  moreover have "prev_consensus_state plain_store ics_env ''c0'' \<lparr>revision_number = 0, revision_height = 9\<rparr>
      updated_twice = Panic"
    by code_simp
  ultimately show ?thesis by (simp add: prod_eq_iff updated_twice_def)
qed

theorem next_consensus_state_is_earlier_witness:
  "\<exists>cs c r h. next_consensus_state plain_store ics_env ''c0'' \<lparr>revision_number = 0, revision_height = 10\<rparr> updated_twice =
       Ok (Some cs) \<and>
     height_less \<lparr>revision_number = r, revision_height = h\<rparr> \<lparr>revision_number = 0, revision_height = 10\<rparr> \<and>
     ts_get plain_store (consensus_state_ty ics_env) Pending (c, r, h) updated_twice = Some cs"
proof -
  let ?next = "next_consensus_state plain_store ics_env ''c0'' \<lparr>revision_number = 0, revision_height = 10\<rparr> updated_twice"
  have ok: "height_new_ok ics_env"
    by (simp add: height_new_ok_def ics_env_def demo_ienv_def)
  have next': "?next = Ok (Some (TendermintConsensus ()))" by code_simp
  show ?thesis
    using next_consensus_state_is_earlier [OF ok, where ops = plain_store and
        client = "''c0''" and height = "\<lparr>revision_number = 0, revision_height = 10\<rparr>" and w = updated_twice]
    unfolding next' by auto
qed

end
