(* ===== verification/Auth.thy ===== *)
theory Auth
  imports Modules
begin

text \<open>
  The auth module: \<open>basecoin/modules/src/auth\<close>. Accounts are stored in protobuf encoding under
  the printed account id; \<open>deliver\<close> intercepts every message, increments the sequence of the
  signer and hands the message on. \<open>auth_env\<close> holds what the module uses of other crates:
  \<open>AccountId\<close> with its printer and parser, \<open>prost\<close> on \<open>BaseAccount\<close> and the genesis value. The
  sequence is a \<open>u64\<close> whose increment wraps around, as in a release build.
\<close>

section \<open>Accounts\<close>

definition RELAYER_ACCOUNT :: string where
  "RELAYER_ACCOUNT = ''cosmos12xpmzmfpf7tn57xg93rne2hc2q26lcfql5efws''"

record 'id auth_account =
  acc_address :: 'id
  acc_number :: u64
  acc_sequence :: u64

definition auth_account_new :: "'id \<Rightarrow> 'id auth_account" where
  "auth_account_new address = \<lparr>acc_address = address, acc_number = 0, acc_sequence = 0\<rparr>"

text \<open>The protobuf account. Its public key is never set.\<close>

record base_account =
  ba_address :: string
  ba_pub_key :: "any option"
  ba_account_number :: u64
  ba_sequence :: u64

record ('id, 'j) auth_env =
  ae_show :: "'id \<Rightarrow> string"
  ae_parse :: "string \<Rightarrow> 'id option"
  ae_encode :: "base_account \<Rightarrow> bytes"
  ae_decode :: "bytes \<Rightarrow> base_account option"
  ae_genesis :: "'j \<Rightarrow> string list option"

definition account_try_from ::
  "('id, 'j) auth_env \<Rightarrow> base_account \<Rightarrow> (string, 'id auth_account) outcome" where
  "account_try_from env account = (case ae_parse env (ba_address account) of
     None \<Rightarrow> Err ''Failed to parse address''
   | Some address \<Rightarrow> Ok \<lparr>acc_address = address, acc_number = ba_account_number account,
       acc_sequence = ba_sequence account\<rparr>)"

definition account_into_base :: "('id, 'j) auth_env \<Rightarrow> 'id auth_account \<Rightarrow> base_account" where
  "account_into_base env account = \<lparr>ba_address = ae_show env (acc_address account),
     ba_pub_key = None, ba_account_number = acc_number account, ba_sequence = acc_sequence account\<rparr>"

definition account_into_any :: "('id, 'j) auth_env \<Rightarrow> 'id auth_account \<Rightarrow> any" where
  "account_into_any env account = \<lparr>type_url = ''/cosmos.auth.v1beta1.BaseAccount'',
     any_value = ae_encode env (account_into_base env account)\<rparr>"


section \<open>Reader, keeper and module\<close>

definition account_ty :: "('id, 'j) auth_env \<Rightarrow> ('id, 'id auth_account) typed" where
  "account_ty env = \<lparr>key_string = ae_show env,
     codec = protobuf_codec (account_into_base env)
       (\<lambda>raw. case account_try_from env raw of Ok a \<Rightarrow> Some a | _ \<Rightarrow> None)
       (ae_encode env) (ae_decode env)\<rparr>"

definition get_account ::
  "('w, 'e, 'z) store_ops_scheme \<Rightarrow> ('id, 'j) auth_env \<Rightarrow> 'id \<Rightarrow> 'w \<Rightarrow> (unit, 'id auth_account) outcome" where
  "get_account ops env address w = (case ts_get ops (account_ty env) Pending address w of
     None \<Rightarrow> Err ()
   | Some account \<Rightarrow> Ok account)"

definition set_account ::
  "('w, 'e, 'z) store_ops_scheme \<Rightarrow> ('id, 'j) auth_env \<Rightarrow> 'id auth_account \<Rightarrow> 'w \<Rightarrow>
   (unit, unit) outcome \<times> 'w" where
  "set_account ops env account w =
     (case ts_set ops (account_ty env) (acc_address account) account w of
        (r, w') \<Rightarrow> (map_err (\<lambda>_. ()) (map_ok (\<lambda>_. ()) r), w'))"

fun auth_init_accounts ::
  "('w, 'e, 'z) store_ops_scheme \<Rightarrow> ('id, 'j) auth_env \<Rightarrow> string list \<Rightarrow> 'w \<Rightarrow>
   (infallible, unit) outcome \<times> 'w" where
  "auth_init_accounts ops env [] w = (Ok (), w)"
| "auth_init_accounts ops env (account # accounts) w = (case ae_parse env account of
     None \<Rightarrow> (Panic, w)
   | Some account_id \<Rightarrow>
       and_then (expect (set_account ops env (auth_account_new account_id) w))
         (\<lambda>_. auth_init_accounts ops env accounts))"

definition auth_init ::
  "('w, 'e, 'z) store_ops_scheme \<Rightarrow> ('id, 'j) auth_env \<Rightarrow> 'j \<Rightarrow> 'w \<Rightarrow>
   (infallible, unit) outcome \<times> 'w" where
  "auth_init ops env app_state w = (case ae_genesis env app_state of
     None \<Rightarrow> (Panic, w)
   | Some accounts \<Rightarrow> auth_init_accounts ops env accounts w)"

definition auth_deliver ::
  "('w, 'e, 'z) store_ops_scheme \<Rightarrow> ('id, 'j) auth_env \<Rightarrow> any \<Rightarrow> 'id \<Rightarrow> 'w \<Rightarrow>
   (('id, 'ie) app_error, 'ev list) outcome \<times> 'w" where
  "auth_deliver ops env message signer w =
     and_then (map_err (\<lambda>_. Custom ''unknown signer'') (get_account ops env signer w), w) (\<lambda>account w.
       (let account = account\<lparr>acc_sequence := acc_sequence account + 1\<rparr> in
        case set_account ops env account w of
          (r, w') \<Rightarrow> and_then (map_err (\<lambda>_. Custom ''failed to increment signer sequence'') r, w')
            (\<lambda>_ w. (Err NotHandled, w))))"

definition auth_module ::
  "('s, 'e, 'z) provable_ops_scheme \<Rightarrow> nat \<Rightarrow> ('id, 'j) auth_env \<Rightarrow>
   (('s, 'y) heap_scheme, 'id, 'ie, 'ev, 'h, 'j) module_ops" where
  "auth_module ops a env = \<lparr>
     md_check = default_check,
     md_deliver = auth_deliver (shared_ops ops a) env,
     md_init = auth_init (shared_ops ops a) env,
     md_query = default_query,
     md_begin_block = default_begin_block,
     md_store = a\<rparr>"

text \<open>The gRPC method \<open>account\<close>, which looks up the relayer whatever the request.\<close>

definition auth_service_account ::
  "('w, 'e, 'z) store_ops_scheme \<Rightarrow> ('id, 'j) auth_env \<Rightarrow> 'w \<Rightarrow> (unit, any) outcome" where
  "auth_service_account ops env w = (case ae_parse env RELAYER_ACCOUNT of
     None \<Rightarrow> Panic
   | Some account_id \<Rightarrow> map_ok (account_into_any env) (unwrap (get_account ops env account_id w)))"


section \<open>The sequence of the signer\<close>

text \<open>What the module relies on of the crates.\<close>

definition auth_env_ok :: "('id, 'j) auth_env \<Rightarrow> bool" where
  "auth_env_ok env \<longleftrightarrow> inj (ae_show env) \<and> (\<forall>i. ae_parse env (ae_show env i) = Some i) \<and>
     (\<forall>b. ba_pub_key b = None \<longrightarrow> ae_decode env (ae_encode env b) = Some b)"

context kv_store
begin

lemma set_account_ok:
  assumes env: "auth_env_ok env" and st: "\<And>v. storable v" and w: "invar w"
  obtains w' where "set_account ops env account w = (Ok (), w')" and "invar w'"
    and "\<And>j. get_account ops env j w' = (if j = acc_address account then Ok account else get_account ops env j w)"
proof -
  have inj: "inj (key_string (account_ty env))"
    using env by (simp add: account_ty_def auth_env_ok_def)
  have enc: "encode (codec (account_ty env)) account = Some (ae_encode env (account_into_base env account))"
    by (simp add: account_ty_def protobuf_codec_def)
  have dec: "decode (codec (account_ty env)) (ae_encode env (account_into_base env account)) = Some account"
    using env by (simp add: account_ty_def protobuf_codec_def auth_env_ok_def account_into_base_def
        account_try_from_def)
  show ?thesis
    by (rule ts_set_get [OF w enc dec st inj, of "acc_address account"])
      (rule that, auto simp: set_account_def get_account_def)
qed

end

text \<open>Every account is stored under its own address.\<close>

definition accounts_keyed :: "('w, 'e, 'z) store_ops_scheme \<Rightarrow> ('id, 'j) auth_env \<Rightarrow> 'w \<Rightarrow> bool" where
  "accounts_keyed ops env w \<longleftrightarrow> (\<forall>i account. get_account ops env i w = Ok account \<longrightarrow> acc_address account = i)"

lemma auth_deliver_step:
  assumes "get_account ops env signer w = Ok account"
    and "set_account ops env (account\<lparr>acc_sequence := acc_sequence account + 1\<rparr>) w = (Ok (), w')"
  shows "auth_deliver ops env message signer w = (Err NotHandled, w')"
  using assms by (simp add: auth_deliver_def Let_def)

context kv_store
begin

lemma sequence_incremented:
  assumes env: "auth_env_ok env" and st: "\<And>v. storable v" and w: "invar w"
    and keyed: "accounts_keyed ops env w" and known: "get_account ops env signer w = Ok account"
  obtains w' where
    "set_account ops env (account\<lparr>acc_sequence := acc_sequence account + 1\<rparr>) w = (Ok (), w')"
    and "invar w'" and "accounts_keyed ops env w'"
    and "\<And>j. get_account ops env j w' =
       (if j = signer then Ok (account\<lparr>acc_sequence := acc_sequence account + 1\<rparr>)
        else get_account ops env j w)"
proof -
  let ?account = "account\<lparr>acc_sequence := acc_sequence account + 1\<rparr>"
  obtain w' where w': "set_account ops env ?account w = (Ok (), w')" "invar w'"
    "\<And>j. get_account ops env j w' =
       (if j = acc_address ?account then Ok ?account else get_account ops env j w)"
    using set_account_ok [OF env st w, of ?account] by metis
  moreover have "acc_address ?account = signer" using keyed known by (simp add: accounts_keyed_def)
  ultimately show ?thesis using that keyed by (auto simp: accounts_keyed_def)
qed

end

text \<open>
  The auth module intercepts every message of a known signer: it reports the message as
  not handled, so that the next module sees it, after adding one to the signer's sequence;
  every other account keeps its entry, and accounts stay stored under their own addresses.
  For an unknown signer it returns an error and changes nothing.
\<close>

theorem auth_deliver_increments:
  fixes env :: "('id, 'j) auth_env"
  assumes "auth_env_ok env" and "im_ok sha (cell w a)"
    and keyed: "accounts_keyed (shared_ops (in_memory_ops sha) a) env w"
  shows "case get_account (shared_ops (in_memory_ops sha) a) env signer w of
      Ok account \<Rightarrow> \<exists>w'. auth_deliver (shared_ops (in_memory_ops sha) a) env message signer w = (Err NotHandled, w') \<and>
        im_ok sha (cell w' a) \<and> accounts_keyed (shared_ops (in_memory_ops sha) a) env w' \<and>
        (\<forall>j. get_account (shared_ops (in_memory_ops sha) a) env j w' =
           (if j = signer then Ok (account\<lparr>acc_sequence := acc_sequence account + 1\<rparr>)
            else get_account (shared_ops (in_memory_ops sha) a) env j w))
    | _ \<Rightarrow> auth_deliver (shared_ops (in_memory_ops sha) a) env message signer w = (Err (Custom ''unknown signer''), w)"
proof (cases "get_account (shared_ops (in_memory_ops sha) a) env signer w")
  case (Ok account)
  show ?thesis
    by (rule shared.kv.sequence_incremented [OF assms(1) TrueI assms(2) keyed Ok])
      (auto simp: Ok auth_deliver_step [OF Ok])
next
  case (Err u)
  then show ?thesis by (auto simp: auth_deliver_def)
qed (simp_all add: get_account_def split: option.splits)


section \<open>Witnesses\<close>

text \<open>An executable instance of the crates' functions, and a world with one account.\<close>

definition base_account_nats :: "base_account \<Rightarrow> nat list" where
  "base_account_nats b = length (ba_address b) # map of_char (ba_address b) @
     [unat (ba_account_number b), unat (ba_sequence b)]"

fun nats_base_account :: "nat list \<Rightarrow> base_account option" where
  "nats_base_account [] = None"
| "nats_base_account (n # ns) = (case drop n ns of
     [a, b] \<Rightarrow> Some \<lparr>ba_address = map char_of (take n ns), ba_pub_key = None,
       ba_account_number = word_of_nat a, ba_sequence = word_of_nat b\<rparr>
   | _ \<Rightarrow> None)"

definition auth_test_env :: "(string, string list) auth_env" where
  "auth_test_env = \<lparr>ae_show = id, ae_parse = Some,
     ae_encode = (\<lambda>b. string_bytes (unary (base_account_nats b))),
     ae_decode = (\<lambda>bs. nats_base_account (of_unary 0 (bytes_string bs))),
     ae_genesis = Some\<rparr>"

lemma auth_test_env_ok: "auth_env_ok auth_test_env"
  by (simp add: auth_env_ok_def auth_test_env_def of_unary_unary base_account_nats_def o_def)

definition auth_test_world :: "in_memory heap" where
  "auth_test_world = snd (set_account (shared_ops (in_memory_ops id) 0) auth_test_env
     (auth_account_new ''alice'') empty_world)"

lemma auth_test_world:
  "im_ok id (cell auth_test_world 0)"
  "get_account (shared_ops (in_memory_ops id) 0) auth_test_env j auth_test_world =
     (if j = ''alice'' then Ok (auth_account_new ''alice'') else Err ())"
proof -
  have w: "im_ok id (cell empty_world 0)" by (simp add: empty_world_def)
  have empty: "get_account (shared_ops (in_memory_ops id) 0) auth_test_env j empty_world = Err ()" for j
    by (simp add: empty_world_def get_account_def ts_get_def read_access_def im_get_def
        im_get_state_def im_default_def avl.look_emp)
  obtain w1 where "set_account (shared_ops (in_memory_ops id) 0) auth_test_env
      (auth_account_new ''alice'') empty_world = (Ok (), w1)" "im_ok id (cell w1 0)"
    "\<And>j. get_account (shared_ops (in_memory_ops id) 0) auth_test_env j w1 =
       (if j = acc_address (auth_account_new ''alice'') then Ok (auth_account_new ''alice'')
        else get_account (shared_ops (in_memory_ops id) 0) auth_test_env j empty_world)"
    using shared.kv.set_account_ok [OF auth_test_env_ok TrueI w, of "auth_account_new ''alice''"] by metis
  then show "im_ok id (cell auth_test_world 0)"
    "get_account (shared_ops (in_memory_ops id) 0) auth_test_env j auth_test_world =
     (if j = ''alice'' then Ok (auth_account_new ''alice'') else Err ())"
    by (simp_all add: auth_test_world_def empty auth_account_new_def)
qed

theorem auth_deliver_increments_witness:
  "\<exists>w'. auth_deliver (shared_ops (in_memory_ops id) 0) auth_test_env \<lparr>type_url = [], any_value = []\<rparr> ''alice'' auth_test_world =
       (Err NotHandled, w') \<and>
     get_account (shared_ops (in_memory_ops id) 0) auth_test_env ''alice'' w' =
       Ok \<lparr>acc_address = ''alice'', acc_number = 0, acc_sequence = 1\<rparr>"
proof -
  have "accounts_keyed (shared_ops (in_memory_ops id) 0) auth_test_env auth_test_world"
    by (auto simp: accounts_keyed_def auth_test_world(2) auth_account_new_def split: if_splits)
  from auth_deliver_increments [OF auth_test_env_ok auth_test_world(1) this, where signer = "''alice''" and
      message = "\<lparr>type_url = [], any_value = []\<rparr>"]
  show ?thesis by (auto simp: auth_test_world(2) auth_account_new_def)
qed

end
