(* ===== verification/Bank.thy ===== *)
theory Bank
  imports Modules
begin

text \<open>
  The bank module: \<open>basecoin/modules/src/bank\<close>. Balances are lists of coins, stored as JSON
  under the printed account id. The keeper and the reader of the source share the store
  handle of the module, so all operations take the methods \<open>ops\<close> of that one store.

  What the module uses of other crates is the record \<open>bank_env\<close>: \<open>AccountId\<close> with its printer
  and parser, \<open>serde_json\<close> on balances and on the genesis value, the protobuf decoding of
  \<open>MsgSend\<close>, and the parser of \<open>U256\<close> from a string.

  \<open>U256\<close> arithmetic panics on overflow in the source; the guards of the code keep every
  operation in range, which the lemmas on \<open>send_step\<close>, \<open>mint_step\<close> and \<open>burn_step\<close> confirm by
  computing balances as natural numbers.
\<close>

section \<open>Coins\<close>

record coin =
  coin_denom :: string
  coin_amount :: u256

definition new_empty :: "string \<Rightarrow> coin" where
  "new_empty denom = \<lparr>coin_denom = denom, coin_amount = 0\<rparr>"

definition coin_from_pair :: "string \<times> u256 \<Rightarrow> coin" where
  "coin_from_pair p = \<lparr>coin_denom = fst p, coin_amount = snd p\<rparr>"

text \<open>The protobuf coin: its amount is a decimal string.\<close>

record raw_coin =
  rc_denom :: string
  rc_amount :: string

definition coin_try_from ::
  "(string \<Rightarrow> (string, u256) outcome) \<Rightarrow> raw_coin \<Rightarrow> (('id, 'ie) app_error, coin) outcome" where
  "coin_try_from from_radix_10 raw =
     map_ok (\<lambda>amount. \<lparr>coin_denom = rc_denom raw, coin_amount = amount\<rparr>)
       (map_err Custom (from_radix_10 (rc_amount raw)))"

definition coin_into_raw :: "coin \<Rightarrow> raw_coin" where
  "coin_into_raw c = \<lparr>rc_denom = coin_denom c, rc_amount = dec_string (unat (coin_amount c))\<rparr>"

text \<open>A coin of a \<open>MsgSend\<close>: its amount is a \<open>u128\<close>, printed and parsed again as a \<open>U256\<close>.\<close>

record msg_coin =
  mc_denom :: string
  mc_amount :: "128 word"

definition coin_from_msg :: "(string \<Rightarrow> u256 option) \<Rightarrow> msg_coin \<Rightarrow> coin option" where
  "coin_from_msg parse_u256 c =
     map_option (\<lambda>a. \<lparr>coin_denom = mc_denom c, coin_amount = a\<rparr>)
       (parse_u256 (dec_string (unat (mc_amount c))))"

record 'id msg_send =
  from_address :: 'id
  to_address :: 'id
  msg_amount :: "msg_coin list"

record ('id, 'raw, 'e, 'j) bank_env =
  be_show :: "'id \<Rightarrow> string"
  be_parse :: "string \<Rightarrow> 'id option"
  be_to_json :: "coin list \<Rightarrow> string option"
  be_from_json :: "string \<Rightarrow> coin list option"
  be_genesis :: "'j \<Rightarrow> (string \<times> (string \<times> u256) list) list option"
  be_decode_send :: "bytes \<Rightarrow> 'raw option"
  be_send_try_into :: "'raw \<Rightarrow> (string, 'id msg_send) outcome"
  be_parse_u256 :: "string \<Rightarrow> u256 option"
  be_debug :: "'e \<Rightarrow> string"


section \<open>The loops over the coins\<close>

abbreviation U256_MAX :: u256 where
  "U256_MAX \<equiv> - 1"

text \<open>One iteration of the loop of \<open>send_coins\<close>: the source must hold the coin, the
  destination may get a new entry, and the sum must fit.\<close>

definition send_step ::
  "coin \<Rightarrow> coin list \<times> coin list \<Rightarrow> ('id bank_error, coin list \<times> coin list) outcome" where
  "send_step c balances = (case balances of (src, dst) \<Rightarrow>
     (case position (\<lambda>x. coin_denom x = coin_denom c) src of
        None \<Rightarrow> Err InsufficientSourceFunds
      | Some i \<Rightarrow>
          if coin_amount (src ! i) < coin_amount c then Err InsufficientSourceFunds
          else
            (let (dst', j) = (case position (\<lambda>x. coin_denom x = coin_denom c) dst of
                   Some j \<Rightarrow> (dst, j)
                 | None \<Rightarrow> (dst @ [new_empty (coin_denom c)], length dst)) in
             if U256_MAX - coin_amount c < coin_amount (dst' ! j) then Err DestFundOverflow
             else Ok
               (src[i := (src ! i)\<lparr>coin_amount := coin_amount (src ! i) - coin_amount c\<rparr>],
                dst'[j := (dst' ! j)\<lparr>coin_amount := coin_amount (dst' ! j) + coin_amount c\<rparr>]))))"

definition mint_step :: "coin \<Rightarrow> coin list \<Rightarrow> ('id bank_error, coin list) outcome" where
  "mint_step c balances =
     (let (bs, j) = (case position (\<lambda>x. coin_denom x = coin_denom c) balances of
            Some j \<Rightarrow> (balances, j)
          | None \<Rightarrow> (balances @ [\<lparr>coin_denom = coin_denom c, coin_amount = 0\<rparr>], length balances)) in
      if U256_MAX - coin_amount c < coin_amount (bs ! j) then Err DestFundOverflow
      else Ok (bs[j := (bs ! j)\<lparr>coin_amount := coin_amount (bs ! j) + coin_amount c\<rparr>]))"

definition burn_step :: "coin \<Rightarrow> coin list \<Rightarrow> ('id bank_error, coin list) outcome" where
  "burn_step c balances = (case position (\<lambda>x. coin_denom x = coin_denom c) balances of
     None \<Rightarrow> Err InsufficientSourceFunds
   | Some i \<Rightarrow>
       if coin_amount (balances ! i) < coin_amount c then Err InsufficientSourceFunds
       else Ok (balances[i := (balances ! i)\<lparr>coin_amount := coin_amount (balances ! i) - coin_amount c\<rparr>]))"

text \<open>The loop with its early return.\<close>

fun coin_loop :: "(coin \<Rightarrow> 'b \<Rightarrow> ('e, 'b) outcome) \<Rightarrow> coin list \<Rightarrow> 'b \<Rightarrow> ('e, 'b) outcome" where
  "coin_loop step [] b = Ok b"
| "coin_loop step (c # cs) b = (case step c b of
     Ok b' \<Rightarrow> coin_loop step cs b'
   | Err e \<Rightarrow> Err e
   | Panic \<Rightarrow> Panic
   | Diverge \<Rightarrow> Diverge)"


section \<open>Keeper and reader\<close>

definition balance_ty :: "('id, 'raw, 'e, 'j) bank_env \<Rightarrow> ('id, coin list) typed" where
  "balance_ty env = \<lparr>key_string = be_show env, codec = json_codec (be_to_json env) (be_from_json env)\<rparr>"

definition get_all_balances_at_height ::
  "('w, 'e, 'z) store_ops_scheme \<Rightarrow> ('id, 'raw, 'e, 'j) bank_env \<Rightarrow> height \<Rightarrow> 'id \<Rightarrow> 'w \<Rightarrow> coin list" where
  "get_all_balances_at_height ops env h address w =
     unwrap_or [] (ts_get ops (balance_ty env) h address w)"

definition get_all_balances ::
  "('w, 'e, 'z) store_ops_scheme \<Rightarrow> ('id, 'raw, 'e, 'j) bank_env \<Rightarrow> 'id \<Rightarrow> 'w \<Rightarrow> coin list" where
  "get_all_balances ops env address w = get_all_balances_at_height ops env Pending address w"

text \<open>Storing one account's balances, with the error conversion of the source.\<close>

definition store_balances ::
  "('w, 'e, 'z) store_ops_scheme \<Rightarrow> ('id, 'raw, 'e, 'j) bank_env \<Rightarrow> 'id \<Rightarrow> coin list \<Rightarrow> 'w \<Rightarrow>
   ('id bank_error, unit) outcome \<times> 'w" where
  "store_balances ops env address bs w = (case ts_set ops (balance_ty env) address bs w of
     (r, w') \<Rightarrow> (map_err (\<lambda>e. BankStore (be_debug env e)) (map_ok (\<lambda>_. ()) r), w'))"

definition send_coins ::
  "('w, 'e, 'z) store_ops_scheme \<Rightarrow> ('id, 'raw, 'e, 'j) bank_env \<Rightarrow> 'id \<Rightarrow> 'id \<Rightarrow> coin list \<Rightarrow> 'w \<Rightarrow>
   ('id bank_error, unit) outcome \<times> 'w" where
  "send_coins ops env from to amount w =
     (let src = unwrap_or [] (ts_get ops (balance_ty env) Pending from w);
          dst = unwrap_or [] (ts_get ops (balance_ty env) Pending to w)
      in and_then (coin_loop send_step amount (src, dst), w) (\<lambda>(src', dst') w.
           and_then (store_balances ops env from src' w) (\<lambda>_. store_balances ops env to dst')))"

definition mint_coins ::
  "('w, 'e, 'z) store_ops_scheme \<Rightarrow> ('id, 'raw, 'e, 'j) bank_env \<Rightarrow> 'id \<Rightarrow> coin list \<Rightarrow> 'w \<Rightarrow>
   ('id bank_error, unit) outcome \<times> 'w" where
  "mint_coins ops env account amount w =
     (let balances = unwrap_or [] (ts_get ops (balance_ty env) Pending account w)
      in and_then (coin_loop mint_step amount balances, w) (store_balances ops env account))"

definition burn_coins ::
  "('w, 'e, 'z) store_ops_scheme \<Rightarrow> ('id, 'raw, 'e, 'j) bank_env \<Rightarrow> 'id \<Rightarrow> coin list \<Rightarrow> 'w \<Rightarrow>
   ('id bank_error, unit) outcome \<times> 'w" where
  "burn_coins ops env account amount w =
     (let balances = unwrap_or [] (ts_get ops (balance_ty env) Pending account w)
      in and_then (coin_loop burn_step amount balances, w) (store_balances ops env account))"


section \<open>The module\<close>

definition ACCOUNT_PREFIX :: string where
  "ACCOUNT_PREFIX = ''cosmos''"

definition bank_decode ::
  "('id, 'raw, 'e, 'j) bank_env \<Rightarrow> any \<Rightarrow> (('id, 'ie) app_error, 'raw) outcome" where
  "bank_decode env message =
     (if type_url message \<noteq> ''/cosmos.bank.v1beta1.MsgSend'' then Err NotHandled
      else (case be_decode_send env (any_value message) of
          None \<Rightarrow> Err (BankErr MsgDecodeFailure)
        | Some raw \<Rightarrow> Ok raw))"

text \<open>\<open>account_reader\<close> is the \<open>AccountReader\<close> the module was built with. The signer is not
  used.\<close>

definition bank_deliver ::
  "('w, 'e, 'z) store_ops_scheme \<Rightarrow> ('id, 'raw, 'e, 'j) bank_env \<Rightarrow>
   ('id \<Rightarrow> 'w \<Rightarrow> ('ae, 'acc) outcome) \<Rightarrow> any \<Rightarrow> 'id \<Rightarrow> 'w \<Rightarrow>
   (('id, 'ie) app_error, 'ev list) outcome \<times> 'w" where
  "bank_deliver ops env account_reader message signer w =
     and_then (bank_decode env message, w) (\<lambda>raw w.
     and_then (map_err (\<lambda>reason. BankErr (MsgValidationFailure reason)) (be_send_try_into env raw), w) (\<lambda>m w.
     and_then (map_err (\<lambda>_. BankErr (NonExistentAccount (from_address m)))
                 (account_reader (from_address m) w), w) (\<lambda>_ w.
     (case those (map (coin_from_msg (be_parse_u256 env)) (msg_amount m)) of
        None \<Rightarrow> (Panic, w)
      | Some amounts \<Rightarrow>
          (case send_coins ops env (from_address m) (to_address m) amounts w of
             (r, w') \<Rightarrow> and_then (map_err BankErr r, w') (\<lambda>_ w. (Ok [], w)))))))"

text \<open>The genesis accounts in the order in which the hash map yields them.\<close>

fun bank_init_accounts ::
  "('w, 'e, 'z) store_ops_scheme \<Rightarrow> ('id, 'raw, 'e, 'j) bank_env \<Rightarrow>
   (string \<times> (string \<times> u256) list) list \<Rightarrow> 'w \<Rightarrow> (infallible, unit) outcome \<times> 'w" where
  "bank_init_accounts ops env [] w = (Ok (), w)"
| "bank_init_accounts ops env ((account, balances) # accounts) w = (case be_parse env account of
     None \<Rightarrow> (Panic, w)
   | Some account_id \<Rightarrow>
       and_then (expect (mint_coins ops env account_id (map coin_from_pair balances) w))
         (\<lambda>_. bank_init_accounts ops env accounts))"

definition bank_init ::
  "('w, 'e, 'z) store_ops_scheme \<Rightarrow> ('id, 'raw, 'e, 'j) bank_env \<Rightarrow> 'j \<Rightarrow> 'w \<Rightarrow>
   (infallible, unit) outcome \<times> 'w" where
  "bank_init ops env app_state w = (case be_genesis env app_state of
     None \<Rightarrow> (Panic, w)
   | Some accounts \<Rightarrow> bank_init_accounts ops env accounts w)"

definition bank_query ::
  "('w, 'e, 'z) store_ops_scheme \<Rightarrow> ('id, 'raw, 'e, 'j) bank_env \<Rightarrow>
   ('id \<Rightarrow> 'w \<Rightarrow> ('ae, 'acc) outcome) \<Rightarrow> bytes \<Rightarrow> path option \<Rightarrow> height \<Rightarrow> bool \<Rightarrow> 'w \<Rightarrow>
   (('id, 'ie) app_error, query_result) outcome" where
  "bank_query ops env account_reader data path h prove w = (case from_utf8 data of
     Ok s \<Rightarrow>
       (if take (length ACCOUNT_PREFIX) s \<noteq> ACCOUNT_PREFIX then Err NotHandled
        else (case be_parse env s of
            None \<Rightarrow> Err NotHandled
          | Some account_id \<Rightarrow>
              (case account_reader account_id w of
                 Ok _ \<Rightarrow>
                   (case be_to_json env (get_all_balances_at_height ops env h account_id w) of
                      None \<Rightarrow> Panic
                    | Some json \<Rightarrow> Ok \<lparr>qr_data = string_bytes json, qr_proof = None\<rparr>)
               | Err _ \<Rightarrow> Err (BankErr (NonExistentAccount account_id))
               | Panic \<Rightarrow> Panic
               | Diverge \<Rightarrow> Diverge)))
   | _ \<Rightarrow> Err NotHandled)"

definition bank_module ::
  "(('s, 'y) heap_scheme \<Rightarrow> 'id \<Rightarrow> ('ae, 'acc) outcome) \<Rightarrow> ('s, 'e, 'z) provable_ops_scheme \<Rightarrow> nat \<Rightarrow>
   ('id, 'raw, 'e, 'j) bank_env \<Rightarrow> (('s, 'y) heap_scheme, 'id, 'ie, 'ev, 'h, 'j) module_ops" where
  "bank_module account_reader ops a env = \<lparr>
     md_check = default_check,
     md_deliver = bank_deliver (shared_ops ops a) env (\<lambda>id w. account_reader w id),
     md_init = bank_init (shared_ops ops a) env,
     md_query = bank_query (shared_ops ops a) env (\<lambda>id w. account_reader w id),
     md_begin_block = default_begin_block,
     md_store = a\<rparr>"

text \<open>The gRPC method \<open>balance\<close>: \<open>None\<close> as an answer is an unknown denomination.\<close>

definition bank_service_balance ::
  "('w, 'e, 'z) store_ops_scheme \<Rightarrow> ('id, 'raw, 'e, 'j) bank_env \<Rightarrow> string \<Rightarrow> string \<Rightarrow> 'w \<Rightarrow>
   raw_coin option option" where
  "bank_service_balance ops env address denom w =
     map_option (\<lambda>account_id. map_option coin_into_raw
         (find (\<lambda>c. coin_denom c = denom) (get_all_balances ops env account_id w)))
       (be_parse env address)"


section \<open>Balances as numbers\<close>

text \<open>The balance of a denomination is the amount of its first coin, which is the one every
  operation finds; \<open>requested\<close> adds up what a list of coins asks for.\<close>

fun balance_of :: "string \<Rightarrow> coin list \<Rightarrow> nat" where
  "balance_of d [] = 0"
| "balance_of d (c # cs) = (if coin_denom c = d then unat (coin_amount c) else balance_of d cs)"

fun requested :: "string \<Rightarrow> coin list \<Rightarrow> nat" where
  "requested d [] = 0"
| "requested d (c # cs) = (if coin_denom c = d then unat (coin_amount c) else 0) + requested d cs"

definition holds_denom :: "string \<Rightarrow> coin list \<Rightarrow> bool" where
  "holds_denom d cs \<longleftrightarrow> (\<exists>c \<in> set cs. coin_denom c = d)"

lemma balance_of_update:
  "position (\<lambda>x. coin_denom x = d) cs = Some i \<Longrightarrow>
     balance_of d' (cs[i := (cs ! i)\<lparr>coin_amount := a\<rparr>]) =
       (if d' = d then unat a else balance_of d' cs)"
  by (induction cs arbitrary: i) (auto split: if_splits)

lemma balance_of_position:
  "position (\<lambda>x. coin_denom x = d) cs = Some i \<Longrightarrow> balance_of d cs = unat (coin_amount (cs ! i))"
  by (induction cs arbitrary: i) (auto split: if_splits)

lemma balance_of_absent: "position (\<lambda>x. coin_denom x = d) cs = None \<Longrightarrow> balance_of d cs = 0"
  by (induction cs) (auto split: if_splits)

lemma balance_of_append_empty:
  "balance_of d' (cs @ [\<lparr>coin_denom = d, coin_amount = 0\<rparr>]) = balance_of d' cs"
  by (induction cs) auto

lemma position_append_None:
  "position P cs = None \<Longrightarrow> P c \<Longrightarrow> position P (cs @ [c]) = Some (length cs)"
  by (induction cs) (auto split: if_splits)

lemma holds_denom_position: "holds_denom d cs \<longleftrightarrow> position (\<lambda>x. coin_denom x = d) cs \<noteq> None"
  by (auto simp: holds_denom_def position_None)

lemma holds_denom_update:
  "i < length cs \<Longrightarrow> holds_denom d (cs[i := (cs ! i)\<lparr>coin_amount := a\<rparr>]) \<longleftrightarrow> holds_denom d cs"
  by (induction cs arbitrary: i) (auto simp: holds_denom_def split: nat.splits)

text \<open>The guard against overflow, in natural numbers.\<close>

lemma unat_U256_MAX_minus:
  fixes a :: u256
  shows "unat (U256_MAX - a) = 2 ^ 256 - 1 - unat a"
proof -
  have "unat U256_MAX = 2 ^ 256 - 1"
    by (simp add: unsigned_minus_1_eq_mask mask_eq_exp_minus_1)
  moreover have "a \<le> U256_MAX" by (rule word_order.extremum)
  ultimately show ?thesis by (simp only: unat_sub)
qed

lemma no_overflow_iff:
  fixes a b :: u256
  shows "U256_MAX - a < b \<longleftrightarrow> \<not> unat b + unat a < 2 ^ 256"
proof -
  have "unat a < 2 ^ 256" using unsigned_less [of a] by simp
  then show ?thesis by (simp only: word_less_nat_alt unat_U256_MAX_minus) linarith
qed

lemma unat_add_u256: "unat b + unat a < 2 ^ 256 \<Longrightarrow> unat (b + a :: u256) = unat b + unat a"
  by (simp add: unat_plus_if')

lemma balance_of_bound: "balance_of d cs < 2 ^ 256"
proof (induction cs)
  case (Cons c cs)
  have "unat (coin_amount c) < 2 ^ 256" using unsigned_less [of "coin_amount c"] by simp
  with Cons show ?case by simp
qed simp

type_synonym 'id balances_result = "('id bank_error, coin list) outcome"

text \<open>One step of \<open>burn_coins\<close> and of \<open>mint_coins\<close>; a step of \<open>send_coins\<close> is one of each.\<close>

lemma burn_step_cases:
  obtains (ok) bs' where "burn_step c bs = (Ok bs' :: 'id balances_result)" and "holds_denom (coin_denom c) bs"
      and "unat (coin_amount c) \<le> balance_of (coin_denom c) bs"
      and "\<And>d. balance_of d bs' = balance_of d bs - requested d [c]"
      and "\<And>d. holds_denom d bs' \<longleftrightarrow> holds_denom d bs"
    | (fail) "burn_step c bs = (Err InsufficientSourceFunds :: 'id balances_result)"
      and "\<not> (holds_denom (coin_denom c) bs \<and> unat (coin_amount c) \<le> balance_of (coin_denom c) bs)"
proof (cases "position (\<lambda>x. coin_denom x = coin_denom c) bs")
  case None
  then show ?thesis using fail by (simp add: burn_step_def holds_denom_position)
next
  case (Some i)
  let ?bs = "bs[i := (bs ! i)\<lparr>coin_amount := coin_amount (bs ! i) - coin_amount c\<rparr>]"
  note bal = balance_of_position [OF Some]
  have holds: "holds_denom (coin_denom c) bs" using Some by (simp add: holds_denom_position)
  show ?thesis
  proof (cases "coin_amount (bs ! i) < coin_amount c")
    case True
    then show ?thesis using fail Some bal by (simp add: burn_step_def word_less_nat_alt)
  next
    case False
    then have le: "coin_amount c \<le> coin_amount (bs ! i)" by simp
    have "balance_of d ?bs = balance_of d bs - requested d [c]" for d
      using balance_of_update [OF Some] bal le by (simp add: unat_sub)
    moreover have "holds_denom d ?bs \<longleftrightarrow> holds_denom d bs" for d
      using position_Some [OF Some] holds_denom_update by blast
    ultimately show ?thesis using ok [of ?bs] Some False holds bal le
      by (simp add: burn_step_def word_le_nat_alt)
  qed
qed

lemma mint_step_cases:
  obtains (ok) bs' where "mint_step c bs = (Ok bs' :: 'id balances_result)"
      and "balance_of (coin_denom c) bs + unat (coin_amount c) < 2 ^ 256"
      and "\<And>d. balance_of d bs' = balance_of d bs + requested d [c]"
      and "\<And>d. holds_denom d bs' \<longleftrightarrow> holds_denom d bs \<or> d = coin_denom c"
    | (fail) "mint_step c bs = (Err DestFundOverflow :: 'id balances_result)"
      and "\<not> balance_of (coin_denom c) bs + unat (coin_amount c) < 2 ^ 256"
proof -
  obtain bs1 j where new: "(case position (\<lambda>x. coin_denom x = coin_denom c) bs of
        Some j \<Rightarrow> (bs, j)
      | None \<Rightarrow> (bs @ [\<lparr>coin_denom = coin_denom c, coin_amount = 0\<rparr>], length bs)) = (bs1, j)"
    by fastforce
  then have pos: "position (\<lambda>x. coin_denom x = coin_denom c) bs1 = Some j"
    by (auto split: option.splits simp: position_append_None)
  have same: "balance_of d bs1 = balance_of d bs" for d
    using new by (auto split: option.splits simp: balance_of_append_empty)
  have holds: "holds_denom d bs1 \<longleftrightarrow> holds_denom d bs \<or> d = coin_denom c" for d
    using new pos by (auto split: option.splits simp: holds_denom_def position_None dest!: position_Some)
  note bal = balance_of_position [OF pos]
  show ?thesis
  proof (cases "U256_MAX - coin_amount c < coin_amount (bs1 ! j)")
    case True
    then show ?thesis using fail new bal same by (simp add: mint_step_def no_overflow_iff)
  next
    case False
    then have "unat (coin_amount (bs1 ! j)) + unat (coin_amount c) < 2 ^ 256"
      by (simp add: no_overflow_iff)
    note sum = this unat_add_u256 [OF this]
    let ?bs = "bs1[j := (bs1 ! j)\<lparr>coin_amount := coin_amount (bs1 ! j) + coin_amount c\<rparr>]"
    have "balance_of d ?bs = balance_of d bs + requested d [c]" for d
      using balance_of_update [OF pos] bal sum same by simp
    moreover have "holds_denom d ?bs \<longleftrightarrow> holds_denom d bs \<or> d = coin_denom c" for d
      using position_Some [OF pos] holds_denom_update holds by blast
    ultimately show ?thesis using ok [of ?bs] new False bal same sum by (simp add: mint_step_def)
  qed
qed

lemma send_step_burn_mint:
  "(send_step c (src, dst) :: ('id bank_error, coin list \<times> coin list) outcome) =
   (case (burn_step c src :: 'id balances_result) of
     Ok src' \<Rightarrow> (case (mint_step c dst :: 'id balances_result) of Ok dst' \<Rightarrow> Ok (src', dst') | Err e \<Rightarrow> Err e | Panic \<Rightarrow> Panic | Diverge \<Rightarrow> Diverge)
   | Err e \<Rightarrow> Err e | Panic \<Rightarrow> Panic | Diverge \<Rightarrow> Diverge)"
  by (simp add: send_step_def burn_step_def mint_step_def new_empty_def split: option.splits prod.splits)

text \<open>The loops.\<close>

lemma burn_loop_Ok:
  "coin_loop burn_step cs bs = (Ok bs' :: 'id balances_result) \<Longrightarrow>
     balance_of d bs' + requested d cs = balance_of d bs \<and> (holds_denom d bs' \<longleftrightarrow> holds_denom d bs)"
proof (induction cs arbitrary: bs)
  case (Cons c cs)
  show ?case
  proof (cases rule: burn_step_cases [where 'id = 'id, of c bs])
    case (ok bs1)
    then have "coin_loop burn_step cs bs1 = (Ok bs' :: 'id balances_result)" using Cons.prems by simp
    from Cons.IH [OF this] ok(3) show ?thesis by (auto simp: ok(4,5) split: if_splits)
  next
    case fail
    then show ?thesis using Cons.prems by simp
  qed
qed simp

lemma burn_loop_cases:
  "(\<exists>bs'. coin_loop burn_step cs bs = (Ok bs' :: 'id balances_result) \<and> (\<forall>c \<in> set cs. holds_denom (coin_denom c) bs) \<and>
      (\<forall>d. requested d cs \<le> balance_of d bs)) \<or>
   coin_loop burn_step cs bs = (Err InsufficientSourceFunds :: 'id balances_result) \<and>
      \<not> ((\<forall>c \<in> set cs. holds_denom (coin_denom c) bs) \<and> (\<forall>d. requested d cs \<le> balance_of d bs))"
proof (induction cs arbitrary: bs)
  case (Cons c cs)
  show ?case
  proof (cases rule: burn_step_cases [where 'id = 'id, of c bs])
    case (ok bs1)
    have req: "requested d (c # cs) \<le> balance_of d bs \<longleftrightarrow> requested d cs \<le> balance_of d bs1" for d
      using ok(3) by (auto simp: ok(4))
    show ?thesis using Cons.IH [of bs1] ok(1,2) by (simp add: req ok(5) del: requested.simps)
  next
    case fail
    have "requested (coin_denom c) (c # cs) \<le> balance_of (coin_denom c) bs \<Longrightarrow>
        unat (coin_amount c) \<le> balance_of (coin_denom c) bs" by simp
    then have "\<not> ((\<forall>x \<in> set (c # cs). holds_denom (coin_denom x) bs) \<and>
        (\<forall>d. requested d (c # cs) \<le> balance_of d bs))"
      using fail(2) by (metis list.set_intros(1))
    then show ?thesis using fail(1) by (simp del: requested.simps)
  qed
qed simp

lemma mint_loop_Ok:
  "coin_loop mint_step cs bs = (Ok bs' :: 'id balances_result) \<Longrightarrow> balance_of d bs' = balance_of d bs + requested d cs"
proof (induction cs arbitrary: bs)
  case (Cons c cs)
  show ?case
  proof (cases rule: mint_step_cases [where 'id = 'id, of c bs])
    case (ok bs1)
    then have "coin_loop mint_step cs bs1 = (Ok bs' :: 'id balances_result)" using Cons.prems by simp
    from Cons.IH [OF this] show ?thesis by (simp add: ok(3))
  next
    case fail
    then show ?thesis using Cons.prems by simp
  qed
qed simp

lemma mint_loop_cases:
  "(\<exists>bs'. coin_loop mint_step cs bs = (Ok bs' :: 'id balances_result) \<and> (\<forall>d. balance_of d bs + requested d cs < 2 ^ 256)) \<or>
   coin_loop mint_step cs bs = (Err DestFundOverflow :: 'id balances_result) \<and>
      \<not> (\<forall>d. balance_of d bs + requested d cs < 2 ^ 256)"
proof (induction cs arbitrary: bs)
  case Nil
  then show ?case using balance_of_bound by simp
next
  case (Cons c cs)
  show ?case
  proof (cases rule: mint_step_cases [where 'id = 'id, of c bs])
    case (ok bs1)
    have req: "balance_of d bs + requested d (c # cs) = balance_of d bs1 + requested d cs" for d
      by (simp add: ok(3))
    show ?thesis using Cons.IH [of bs1] ok(1) by (simp add: req del: requested.simps)
  next
    case fail
    have "balance_of (coin_denom c) bs + requested (coin_denom c) (c # cs) < 2 ^ 256 \<Longrightarrow>
        balance_of (coin_denom c) bs + unat (coin_amount c) < 2 ^ 256" by simp
    then have "\<not> (\<forall>d. balance_of d bs + requested d (c # cs) < 2 ^ 256)"
      using fail(2) by metis
    then show ?thesis using fail(1) by (simp del: requested.simps)
  qed
qed

lemma mint_loop_holds:
  "coin_loop mint_step cs bs = (Ok bs' :: 'id balances_result) \<Longrightarrow>
     holds_denom d bs' \<longleftrightarrow> holds_denom d bs \<or> (\<exists>c \<in> set cs. coin_denom c = d)"
proof (induction cs arbitrary: bs)
  case (Cons c cs)
  show ?case
  proof (cases rule: mint_step_cases [where 'id = 'id, of c bs])
    case (ok bs1)
    then have "coin_loop mint_step cs bs1 = (Ok bs' :: 'id balances_result)" using Cons.prems by simp
    from Cons.IH [OF this] show ?thesis by (auto simp: ok(4))
  next
    case fail
    then show ?thesis using Cons.prems by simp
  qed
qed simp

lemma send_loop_burn_mint:
  "coin_loop send_step cs (src, dst) = (Ok (src', dst') :: ('id bank_error, coin list \<times> coin list) outcome) \<longleftrightarrow>
     coin_loop burn_step cs src = (Ok src' :: 'id balances_result) \<and>
     coin_loop mint_step cs dst = (Ok dst' :: 'id balances_result)"
proof (induction cs arbitrary: src dst)
  case (Cons c cs)
  show ?case
    by (cases rule: burn_step_cases [where 'id = 'id, of c src];
        cases rule: mint_step_cases [where 'id = 'id, of c dst])
      (simp_all add: send_step_burn_mint [where 'id = 'id] Cons.IH)
qed auto

lemma send_loop_error:
  "\<exists>r. (coin_loop send_step cs b :: ('id bank_error, coin list \<times> coin list) outcome) = r \<and>
     ((\<exists>b'. r = Ok b') \<or> r = Err InsufficientSourceFunds \<or> r = Err DestFundOverflow)"
proof (induction cs arbitrary: b)
  case (Cons c cs)
  obtain src dst where b: "b = (src, dst)" by (cases b)
  show ?case using Cons.IH unfolding b
    by (cases rule: burn_step_cases [where 'id = 'id, of c src];
        cases rule: mint_step_cases [where 'id = 'id, of c dst])
      (simp_all add: send_step_burn_mint [where 'id = 'id])
qed simp


section \<open>The keeper over a key-value store\<close>

text \<open>What the module relies on of the crates: printing account ids is injective, and JSON
  gives balances back.\<close>

definition bank_env_ok :: "('id, 'raw, 'e, 'j) bank_env \<Rightarrow> bool" where
  "bank_env_ok env \<longleftrightarrow> inj (be_show env) \<and>
     (\<forall>bs. \<exists>s. be_to_json env bs = Some s \<and> rust_string s \<and> be_from_json env s = Some bs)"

text \<open>The balance of an account in a denomination.\<close>

definition account_balance ::
  "('w, 'e, 'z) store_ops_scheme \<Rightarrow> ('id, 'raw, 'e, 'j) bank_env \<Rightarrow> string \<Rightarrow> 'w \<Rightarrow> 'id \<Rightarrow> nat" where
  "account_balance ops env d w who = balance_of d (get_all_balances ops env who w)"

definition account_holds ::
  "('w, 'e, 'z) store_ops_scheme \<Rightarrow> ('id, 'raw, 'e, 'j) bank_env \<Rightarrow> string \<Rightarrow> 'w \<Rightarrow> 'id \<Rightarrow> bool" where
  "account_holds ops env d w who \<longleftrightarrow> holds_denom d (get_all_balances ops env who w)"

lemma get_all_balances_unfold:
  "get_all_balances ops env who w = unwrap_or [] (ts_get ops (balance_ty env) Pending who w)"
  by (simp add: get_all_balances_def get_all_balances_at_height_def)

context kv_store
begin

lemma store_balances_ok:
  assumes "bank_env_ok env" and "\<And>v. storable v" and "invar w"
  obtains w' where "store_balances ops env who bs w = (Ok (), w')" and "invar w'"
    and "\<And>j. get_all_balances ops env j w' = (if j = who then bs else get_all_balances ops env j w)"
proof -
  from assms(1) obtain s where json: "be_to_json env bs = Some s" "rust_string s" "be_from_json env s = Some bs"
    unfolding bank_env_ok_def by blast
  then have enc: "encode (codec (balance_ty env)) bs = Some (string_bytes s)"
    and dec: "decode (codec (balance_ty env)) (string_bytes s) = Some bs"
    by (simp_all add: balance_ty_def json_codec_def from_utf8_def rust_string_def)
  have inj: "inj (key_string (balance_ty env))"
    using assms(1) by (simp add: balance_ty_def bank_env_ok_def)
  show ?thesis
    by (rule ts_set_get [OF assms(3) enc dec assms(2) inj, of who])
      (rule that, auto simp: store_balances_def get_all_balances_unfold)
qed

lemma send_coins_cases:
  fixes sender receiver :: 'id and amount :: "coin list" and w :: 's
  assumes env: "bank_env_ok env" and st: "\<And>v. storable v" and w: "invar w"
  defines "src \<equiv> get_all_balances ops env sender w"
    and "dst \<equiv> get_all_balances ops env receiver w"
  obtains (ok) src' dst' w' where "send_coins ops env sender receiver amount w = (Ok (), w')" and "invar w'"
      and "coin_loop burn_step amount src = (Ok src' :: 'id balances_result)"
      and "coin_loop mint_step amount dst = (Ok dst' :: 'id balances_result)"
      and "\<And>j. get_all_balances ops env j w' =
             (if j = receiver then dst' else if j = sender then src' else get_all_balances ops env j w)"
    | (fail) e where "send_coins ops env sender receiver amount w = (Err e, w)"
      and "e = InsufficientSourceFunds \<or> e = DestFundOverflow"
      and "\<not> ((\<exists>src'. coin_loop burn_step amount src = (Ok src' :: 'id balances_result)) \<and>
               (\<exists>dst'. coin_loop mint_step amount dst = (Ok dst' :: 'id balances_result)))"
proof (cases "coin_loop send_step amount (src, dst) :: ('id bank_error, coin list \<times> coin list) outcome")
  case (Ok r)
  obtain src' dst' where r: "r = (src', dst')" by (cases r)
  note loops = Ok [unfolded r send_loop_burn_mint]
  obtain w1 where w1: "store_balances ops env sender src' w = (Ok (), w1)" "invar w1"
    "\<And>j. get_all_balances ops env j w1 = (if j = sender then src' else get_all_balances ops env j w)"
    using store_balances_ok [OF env st w] by metis
  obtain w2 where w2: "store_balances ops env receiver dst' w1 = (Ok (), w2)" "invar w2"
    "\<And>j. get_all_balances ops env j w2 = (if j = receiver then dst' else get_all_balances ops env j w1)"
    using store_balances_ok [OF env st w1(2)] by metis
  have "send_coins ops env sender receiver amount w = (Ok (), w2)"
    using Ok r w1(1) w2(1) by (simp add: send_coins_def src_def dst_def get_all_balances_unfold)
  then show ?thesis using ok loops w2 w1(3) by auto
next
  case (Err e)
  then have none: "\<not> ((\<exists>src'. coin_loop burn_step amount src = (Ok src' :: 'id balances_result)) \<and>
               (\<exists>dst'. coin_loop mint_step amount dst = (Ok dst' :: 'id balances_result)))"
    using send_loop_burn_mint [where 'id = 'id, of amount src dst] by auto
  have "e = InsufficientSourceFunds \<or> e = DestFundOverflow"
    using send_loop_error [where 'id = 'id, of amount "(src, dst)"] Err by auto
  moreover have "send_coins ops env sender receiver amount w = (Err e, w)"
    using Err by (simp add: send_coins_def src_def dst_def get_all_balances_unfold)
  ultimately show ?thesis using fail none by blast
qed (use send_loop_error [where 'id = 'id, of amount "(src, dst)"] in auto)

lemma mint_coins_cases:
  fixes who :: 'id and amount :: "coin list" and w :: 's
  assumes env: "bank_env_ok env" and st: "\<And>v. storable v" and w: "invar w"
  obtains (ok) bs' w' where "mint_coins ops env who amount w = (Ok (), w')" and "invar w'"
      and "coin_loop mint_step amount (get_all_balances ops env who w) = (Ok bs' :: 'id balances_result)"
      and "\<And>j. get_all_balances ops env j w' = (if j = who then bs' else get_all_balances ops env j w)"
    | (fail) "mint_coins ops env who amount w = (Err DestFundOverflow, w)"
      and "coin_loop mint_step amount (get_all_balances ops env who w) =
             (Err DestFundOverflow :: 'id balances_result)"
proof -
  let ?loop = "coin_loop mint_step amount (get_all_balances ops env who w) :: 'id balances_result"
  consider (1) bs' where "?loop = Ok bs'" | (2) "?loop = Err DestFundOverflow"
    using mint_loop_cases [where 'id = 'id, of amount "get_all_balances ops env who w"] by blast
  then show ?thesis
  proof cases
    case 1
    obtain w' where "store_balances ops env who bs' w = (Ok (), w')" "invar w'"
      "\<And>j. get_all_balances ops env j w' = (if j = who then bs' else get_all_balances ops env j w)"
      using store_balances_ok [OF env st w] by metis
    then show ?thesis using ok 1 by (simp add: mint_coins_def get_all_balances_unfold)
  next
    case 2
    then show ?thesis using fail by (simp add: mint_coins_def get_all_balances_unfold)
  qed
qed

lemma burn_coins_cases:
  fixes who :: 'id and amount :: "coin list" and w :: 's
  assumes env: "bank_env_ok env" and st: "\<And>v. storable v" and w: "invar w"
  obtains (ok) bs' w' where "burn_coins ops env who amount w = (Ok (), w')" and "invar w'"
      and "coin_loop burn_step amount (get_all_balances ops env who w) = (Ok bs' :: 'id balances_result)"
      and "\<And>j. get_all_balances ops env j w' = (if j = who then bs' else get_all_balances ops env j w)"
    | (fail) "burn_coins ops env who amount w = (Err InsufficientSourceFunds, w)"
      and "coin_loop burn_step amount (get_all_balances ops env who w) =
             (Err InsufficientSourceFunds :: 'id balances_result)"
proof -
  let ?loop = "coin_loop burn_step amount (get_all_balances ops env who w) :: 'id balances_result"
  consider (1) bs' where "?loop = Ok bs'" | (2) "?loop = Err InsufficientSourceFunds"
    using burn_loop_cases [where 'id = 'id, of amount "get_all_balances ops env who w"] by blast
  then show ?thesis
  proof cases
    case 1
    obtain w' where "store_balances ops env who bs' w = (Ok (), w')" "invar w'"
      "\<And>j. get_all_balances ops env j w' = (if j = who then bs' else get_all_balances ops env j w)"
      using store_balances_ok [OF env st w] by metis
    then show ?thesis using ok 1 by (simp add: burn_coins_def get_all_balances_unfold)
  next
    case 2
    then show ?thesis using fail by (simp add: burn_coins_def get_all_balances_unfold)
  qed
qed

end

lemma burn_loop_defined:
  "(\<exists>bs'. coin_loop burn_step cs bs = (Ok bs' :: 'id balances_result)) \<longleftrightarrow>
     (\<forall>c \<in> set cs. holds_denom (coin_denom c) bs) \<and> (\<forall>d. requested d cs \<le> balance_of d bs)"
  using burn_loop_cases [where 'id = 'id, of cs bs] by auto

lemma mint_loop_defined:
  "(\<exists>bs'. coin_loop mint_step cs bs = (Ok bs' :: 'id balances_result)) \<longleftrightarrow>
     (\<forall>d. balance_of d bs + requested d cs < 2 ^ 256)"
  using mint_loop_cases [where 'id = 'id, of cs bs] by auto


text \<open>A transfer is covered when the sender holds every requested denomination and enough of
  it, and no total overflows at the receiver.\<close>

definition covered ::
  "('w, 'e, 'z) store_ops_scheme \<Rightarrow> ('id, 'raw, 'e, 'j) bank_env \<Rightarrow> 'w \<Rightarrow> 'id \<Rightarrow> 'id \<Rightarrow> coin list \<Rightarrow> bool" where
  "covered ops env w sender receiver amount \<longleftrightarrow>
     (\<forall>c \<in> set amount. account_holds ops env (coin_denom c) w sender) \<and>
     (\<forall>d. requested d amount \<le> account_balance ops env d w sender) \<and>
     (\<forall>d. account_balance ops env d w receiver + requested d amount < 2 ^ 256)"

context kv_store
begin

lemma covered_loops:
  fixes sender receiver :: 'id
  shows "covered ops env w sender receiver amount \<longleftrightarrow>
     (\<exists>src'. coin_loop burn_step amount (get_all_balances ops env sender w) = (Ok src' :: 'id balances_result)) \<and>
     (\<exists>dst'. coin_loop mint_step amount (get_all_balances ops env receiver w) = (Ok dst' :: 'id balances_result))"
  by (auto simp: covered_def burn_loop_defined mint_loop_defined account_balance_def account_holds_def)

lemma send_coins_covered:
  fixes sender receiver :: 'id
  assumes env: "bank_env_ok env" and st: "\<And>v. storable v" and w: "invar w" and "sender \<noteq> receiver"
    and cov: "covered ops env w sender receiver amount"
  obtains w' where "send_coins ops env sender receiver amount w = (Ok (), w')" and "invar w'"
    and "\<And>d j. account_balance ops env d w' j =
       (if j = sender then account_balance ops env d w j - requested d amount
        else if j = receiver then account_balance ops env d w j + requested d amount
        else account_balance ops env d w j)"
    and "\<And>c. c \<in> set amount \<Longrightarrow> account_holds ops env (coin_denom c) w' receiver"
proof (cases rule: send_coins_cases [OF env st w, of sender receiver amount, case_names ok fail])
  case (ok src' dst' w')
  have "account_holds ops env (coin_denom c) w' receiver" if "c \<in> set amount" for c
    using mint_loop_holds [OF ok(4), of "coin_denom c"] that by (auto simp: account_holds_def ok(5))
  moreover
  have "balance_of d src' = account_balance ops env d w sender - requested d amount"
    and "balance_of d dst' = account_balance ops env d w receiver + requested d amount" for d
    using burn_loop_Ok [OF ok(3), of d] mint_loop_Ok [OF ok(4), of d] by (auto simp: account_balance_def)
  ultimately show ?thesis
    using that [OF ok(1,2)] assms(4) by (simp add: account_balance_def ok(5))
next
  case (fail e)
  then show ?thesis using cov unfolding covered_loops by blast
qed

lemma send_coins_uncovered:
  fixes sender receiver :: 'id
  assumes env: "bank_env_ok env" and st: "\<And>v. storable v" and w: "invar w"
    and cov: "\<not> covered ops env w sender receiver amount"
  obtains e where "send_coins ops env sender receiver amount w = (Err e, w)"
    and "e = InsufficientSourceFunds \<or> e = DestFundOverflow"
proof (cases rule: send_coins_cases [OF env st w, of sender receiver amount, case_names ok fail])
  case (ok src' dst' w')
  then show ?thesis using cov unfolding covered_loops by blast
next
  case (fail e)
  then show ?thesis using that by blast
qed

end


section \<open>Properties\<close>

text \<open>The store of the module: a shared in-memory store.\<close>

abbreviation bank_store ::
  "(bytes \<Rightarrow> bytes) \<Rightarrow> nat \<Rightarrow> ((in_memory, 'y) heap_scheme, infallible) provable_ops" where
  "bank_store sha a \<equiv> shared_ops (in_memory_ops sha) a"

text \<open>
  C15. A transfer between two different accounts succeeds exactly when the sender holds every
  requested denomination, covers the total requested of each, and no total overflows 256
  bits at the receiver. Then it moves exactly the requested amounts and leaves every other
  balance alone; otherwise it returns an error and leaves the whole state unchanged.
\<close>

theorem send_coins_exact:
  fixes env :: "('id, 'raw, infallible, 'j) bank_env"
  assumes env: "bank_env_ok env" and w: "im_ok sha (cell w a)" and "sender \<noteq> receiver"
  shows "if (\<forall>c \<in> set amount. account_holds (bank_store sha a) env (coin_denom c) w sender) \<and>
       (\<forall>d. requested d amount \<le> account_balance (bank_store sha a) env d w sender) \<and>
       (\<forall>d. account_balance (bank_store sha a) env d w receiver + requested d amount < 2 ^ 256)
     then \<exists>w'. send_coins (bank_store sha a) env sender receiver amount w = (Ok (), w') \<and>
       im_ok sha (cell w' a) \<and>
       (\<forall>d j. account_balance (bank_store sha a) env d w' j =
          (if j = sender then account_balance (bank_store sha a) env d w j - requested d amount
           else if j = receiver then account_balance (bank_store sha a) env d w j + requested d amount
           else account_balance (bank_store sha a) env d w j))
     else \<exists>e \<in> {InsufficientSourceFunds, DestFundOverflow}.
       send_coins (bank_store sha a) env sender receiver amount w = (Err e, w)"
proof (cases "covered (bank_store sha a) env w sender receiver amount")
  case True
  obtain w' where "send_coins (bank_store sha a) env sender receiver amount w = (Ok (), w')"
    "im_ok sha (cell w' a)"
    "\<And>d j. account_balance (bank_store sha a) env d w' j =
       (if j = sender then account_balance (bank_store sha a) env d w j - requested d amount
        else if j = receiver then account_balance (bank_store sha a) env d w j + requested d amount
        else account_balance (bank_store sha a) env d w j)"
    using shared.kv.send_coins_covered [OF env TrueI w assms(3) True] by metis
  then show ?thesis using True unfolding covered_def by simp
next
  case False
  obtain e where "send_coins (bank_store sha a) env sender receiver amount w = (Err e, w)"
    "e = InsufficientSourceFunds \<or> e = DestFundOverflow"
    using shared.kv.send_coins_uncovered [OF env TrueI w False] by metis
  then show ?thesis using False unfolding covered_def by auto
qed

text \<open>
  Conservation: whatever its outcome, a transfer between two different accounts keeps
  the total supply of every denomination over any finite set of accounts that contains both.
\<close>

theorem send_coins_conserves_supply:
  fixes env :: "('id, 'raw, infallible, 'j) bank_env"
  assumes env: "bank_env_ok env" and w: "im_ok sha (cell w a)" and ne: "sender \<noteq> receiver"
    and fin: "finite A" "sender \<in> A" "receiver \<in> A"
    and send: "send_coins (bank_store sha a) env sender receiver amount w = (r, w')"
  shows "(\<Sum>j \<in> A. account_balance (bank_store sha a) env d w' j) =
     (\<Sum>j \<in> A. account_balance (bank_store sha a) env d w j)"
proof (cases rule: shared.kv.send_coins_cases [OF env TrueI w, of sender receiver amount, case_names ok fail])
  case (ok src' dst' w1)
  let ?b = "account_balance (bank_store sha a) env d"
  let ?B = "A - {sender, receiver}"
  have w1: "w1 = w'" using ok(1) send by simp
  have A: "A = insert sender (insert receiver ?B)" using fin by blast
  have split: "sum f A = f sender + (f receiver + sum f ?B)" for f :: "'id \<Rightarrow> nat"
  proof -
    have "sum f A = sum f (insert sender (insert receiver ?B))" using A by simp
    also have "\<dots> = f sender + (f receiver + sum f ?B)" using fin(1) ne by simp
    finally show ?thesis .
  qed
  have "?b w' sender + requested d amount = ?b w sender"
    and "?b w' receiver = ?b w receiver + requested d amount"
    using burn_loop_Ok [OF ok(3), of d] mint_loop_Ok [OF ok(4), of d] ne
    by (simp_all add: account_balance_def ok(5) flip: w1)
  moreover have "sum (?b w') ?B = sum (?b w) ?B"
    by (rule sum.cong) (auto simp: account_balance_def ok(5) simp flip: w1)
  ultimately show ?thesis unfolding split by simp
next
  case (fail e)
  then show ?thesis using send by simp
qed

text \<open>
  C31. A transfer from an account to itself that succeeds creates money: the balance grows by
  the requested amounts, because the second write stores the credited copy over the debited
  one.
\<close>

theorem send_to_self_inflates:
  fixes env :: "('id, 'raw, infallible, 'j) bank_env"
  assumes env: "bank_env_ok env" and w: "im_ok sha (cell w a)"
    and send: "send_coins (bank_store sha a) env who who amount w = (Ok (), w')"
  shows "account_balance (bank_store sha a) env d w' who =
     account_balance (bank_store sha a) env d w who + requested d amount"
proof (cases rule: shared.kv.send_coins_cases [OF env TrueI w, of who who amount, case_names ok fail])
  case (ok src' dst' w1)
  then have "w1 = w'" using send by simp
  then show ?thesis
    using mint_loop_Ok [OF ok(4), of d] ok(5) [of who] by (simp add: account_balance_def)
next
  case (fail e)
  then show ?thesis using send by simp
qed

text \<open>
  Minting adds exactly the requested amounts to one account, or reports an overflow and
  changes nothing; burning what was just minted succeeds and restores every balance of every
  account.
\<close>

theorem mint_then_burn:
  fixes env :: "('id, 'raw, infallible, 'j) bank_env"
  assumes env: "bank_env_ok env" and w: "im_ok sha (cell w a)"
  shows "if \<forall>d. account_balance (bank_store sha a) env d w who + requested d amount < 2 ^ 256
     then \<exists>w1 w2. mint_coins (bank_store sha a) env who amount w = (Ok (), w1) \<and>
       (\<forall>d j. account_balance (bank_store sha a) env d w1 j = account_balance (bank_store sha a) env d w j +
          (if j = who then requested d amount else 0)) \<and>
       burn_coins (bank_store sha a) env who amount w1 = (Ok (), w2) \<and>
       (\<forall>d j. account_balance (bank_store sha a) env d w2 j = account_balance (bank_store sha a) env d w j)
     else mint_coins (bank_store sha a) env who amount w = (Err DestFundOverflow, w)"
proof (cases rule: shared.kv.mint_coins_cases [OF env TrueI w, of who amount, case_names ok fail])
  case (ok bs' w1)
  note minted = mint_loop_Ok [OF ok(3)]
  have "\<forall>c \<in> set amount. holds_denom (coin_denom c) bs'"
    using mint_loop_holds [OF ok(3)] by blast
  then have "\<exists>bs. coin_loop burn_step amount bs' = (Ok bs :: 'id balances_result)"
    unfolding burn_loop_defined using minted by simp
  then obtain bs where bs: "coin_loop burn_step amount bs' = (Ok bs :: 'id balances_result)" by blast
  have now: "get_all_balances (bank_store sha a) env who w1 = bs'" by (simp add: ok(4))
  obtain w2 where burn: "burn_coins (bank_store sha a) env who amount w1 = (Ok (), w2)"
    and all: "\<And>j. get_all_balances (bank_store sha a) env j w2 =
        (if j = who then bs else get_all_balances (bank_store sha a) env j w1)"
  proof (cases rule: shared.kv.burn_coins_cases [OF env TrueI ok(2), of who amount, case_names ok fail])
    case (ok bs2 w2)
    then have "bs2 = bs" using bs now by simp
    with ok(1,4) that show ?thesis by blast
  next
    case fail
    then show ?thesis using bs now by simp
  qed
  have "account_balance (bank_store sha a) env d w2 j = account_balance (bank_store sha a) env d w j" for d j
    using burn_loop_Ok [OF bs, of d] minted [of d] by (simp add: account_balance_def all ok(4))
  moreover have "account_balance (bank_store sha a) env d w1 j = account_balance (bank_store sha a) env d w j +
      (if j = who then requested d amount else 0)" for d j
    using minted by (simp add: account_balance_def ok(4))
  ultimately show ?thesis
    using ok(1) burn mint_loop_defined [THEN iffD1, OF exI, OF ok(3)]
    by (simp add: account_balance_def)
next
  case fail
  then have "\<not> (\<forall>d. account_balance (bank_store sha a) env d w who + requested d amount < 2 ^ 256)"
    unfolding account_balance_def mint_loop_defined [where 'id = 'id, symmetric] by simp
  then show ?thesis using fail(1) by simp
qed


section \<open>Witnesses\<close>

text \<open>An executable instance of the crates' functions: account ids are their printed strings,
  and balances are written as a list of numbers in unary notation.\<close>

fun coins_nats :: "coin list \<Rightarrow> nat list" where
  "coins_nats [] = []"
| "coins_nats (c # cs) =
     length (coin_denom c) # map of_char (coin_denom c) @ unat (coin_amount c) # coins_nats cs"

function nats_coins :: "nat list \<Rightarrow> coin list" where
  "nats_coins [] = []"
| "nats_coins (n # ns) = (case drop n ns of
     [] \<Rightarrow> []
   | a # rest \<Rightarrow>
       \<lparr>coin_denom = map char_of (take n ns), coin_amount = word_of_nat a\<rparr> # nats_coins rest)"
  by pat_completeness auto
termination
  by (relation "measure length") (auto dest!: arg_cong [where f = length])

definition test_env :: "(string, string msg_send, infallible, (string \<times> (string \<times> u256) list) list) bank_env" where
  "test_env = \<lparr>be_show = id, be_parse = Some,
     be_to_json = (\<lambda>cs. Some (unary (coins_nats cs))),
     be_from_json = (\<lambda>s. Some (nats_coins (of_unary 0 s))),
     be_genesis = Some, be_decode_send = (\<lambda>_. None), be_send_try_into = Ok,
     be_parse_u256 = (\<lambda>_. None), be_debug = (\<lambda>_. [])\<rparr>"

lemma nats_coins_nats: "nats_coins (coins_nats cs) = cs"
  by (induction cs) (auto simp: o_def)

lemma test_env_ok: "bank_env_ok test_env"
  by (auto simp: bank_env_ok_def test_env_def of_unary_unary nats_coins_nats rust_string_unary)

text \<open>A world with one store, in which Alice holds ten coins and Bob one.\<close>

definition coins :: "nat \<Rightarrow> coin list" where
  "coins n = [\<lparr>coin_denom = ''basecoin'', coin_amount = word_of_nat n\<rparr>]"

definition test_world :: "in_memory heap" where
  "test_world = snd (and_then (mint_coins (bank_store id 0) test_env ''alice'' (coins 10) empty_world)
     (\<lambda>_. mint_coins (bank_store id 0) test_env ''bob'' (coins 1)))"

lemma mint_fresh: "coin_loop mint_step (coins n) [] = (Ok (coins n) :: string balances_result)"
  by (simp add: coins_def mint_step_def not_less)

lemma test_world:
  "im_ok id (cell test_world 0)"
  "get_all_balances (bank_store id 0) test_env ''alice'' test_world = coins 10"
  "get_all_balances (bank_store id 0) test_env ''bob'' test_world = coins 1"
  "j \<noteq> ''alice'' \<Longrightarrow> j \<noteq> ''bob'' \<Longrightarrow> get_all_balances (bank_store id 0) test_env j test_world = []"
proof -
  have w: "im_ok id (cell empty_world 0)" by (simp add: empty_world_def)
  have empty: "get_all_balances (bank_store id 0) test_env j empty_world = []" for j
    by (simp add: empty_world_def get_all_balances_unfold ts_get_def read_access_def im_get_def im_get_state_def
        im_default_def avl.look_emp)
  obtain w1 where w1: "mint_coins (bank_store id 0) test_env ''alice'' (coins 10) empty_world = (Ok (), w1)"
    "im_ok id (cell w1 0)"
    "\<And>j. get_all_balances (bank_store id 0) test_env j w1 = (if j = ''alice'' then coins 10 else [])"
  proof (cases rule: shared.kv.mint_coins_cases [OF test_env_ok TrueI w, of "''alice''" "coins 10", case_names ok fail])
    case (ok bs w1)
    then have "bs = coins 10" using mint_fresh [of 10] by (simp add: empty)
    with ok that show ?thesis by (simp add: empty)
  next
    case fail
    then show ?thesis using mint_fresh [of 10] by (simp add: empty)
  qed
  obtain w2 where w2: "mint_coins (bank_store id 0) test_env ''bob'' (coins 1) w1 = (Ok (), w2)"
    "im_ok id (cell w2 0)"
    "\<And>j. get_all_balances (bank_store id 0) test_env j w2 =
       (if j = ''bob'' then coins 1 else if j = ''alice'' then coins 10 else [])"
  proof (cases rule: shared.kv.mint_coins_cases [OF test_env_ok TrueI w1(2), of "''bob''" "coins 1", case_names ok fail])
    case (ok bs w2)
    then have "bs = coins 1" using mint_fresh [of 1] by (simp add: w1(3))
    with ok that show ?thesis by (simp add: w1(3))
  next
    case fail
    then show ?thesis using mint_fresh [of 1] by (simp add: w1(3))
  qed
  have "test_world = w2" using w1(1) w2(1) by (simp add: test_world_def)
  then show "im_ok id (cell test_world 0)"
    "get_all_balances (bank_store id 0) test_env ''alice'' test_world = coins 10"
    "get_all_balances (bank_store id 0) test_env ''bob'' test_world = coins 1"
    "j \<noteq> ''alice'' \<Longrightarrow> j \<noteq> ''bob'' \<Longrightarrow> get_all_balances (bank_store id 0) test_env j test_world = []"
    using w2 by simp_all
qed

lemma coins_simps [simp]:
  "balance_of ''basecoin'' (coins n) = unat (word_of_nat n :: u256)"
  "requested d (coins n) = (if d = ''basecoin'' then unat (word_of_nat n :: u256) else 0)"
  "holds_denom ''basecoin'' (coins n)"
  by (auto simp: coins_def holds_denom_def)

theorem send_coins_exact_witness:
  "\<exists>w'. send_coins (bank_store id 0) test_env ''alice'' ''bob'' (coins 4) test_world = (Ok (), w') \<and>
     account_balance (bank_store id 0) test_env ''basecoin'' w' ''alice'' = 6 \<and>
     account_balance (bank_store id 0) test_env ''basecoin'' w' ''bob'' = 5"
proof -
  have "account_balance (bank_store id 0) test_env d test_world ''bob'' + requested d (coins 4) < 2 ^ 256" for d
    using balance_of_bound [of d "coins 1"] by (auto simp: account_balance_def test_world(3))
  moreover have "\<forall>c \<in> set (coins 4). account_holds (bank_store id 0) test_env (coin_denom c) test_world ''alice''"
    by (simp add: account_holds_def test_world(2) coins_def holds_denom_def)
  moreover have "requested d (coins 4) \<le> account_balance (bank_store id 0) test_env d test_world ''alice''" for d
    by (simp add: account_balance_def test_world(2))
  ultimately show ?thesis
    using send_coins_exact [OF test_env_ok test_world(1), of "''alice''" "''bob''" "coins 4"]
    by (auto simp: account_balance_def test_world)
qed

theorem send_coins_conserves_supply_witness:
  "(\<Sum>j \<in> {''alice'', ''bob''}. account_balance (bank_store id 0) test_env ''basecoin''
      (snd (send_coins (bank_store id 0) test_env ''alice'' ''bob'' (coins 4) test_world)) j) = 11"
proof -
  obtain r w' where send: "send_coins (bank_store id 0) test_env ''alice'' ''bob'' (coins 4) test_world = (r, w')"
    by fastforce
  show ?thesis
    using send_coins_conserves_supply [OF test_env_ok test_world(1) _ _ _ _ send,
        of "{''alice'', ''bob''}" "''basecoin''"]
    by (simp add: send account_balance_def test_world)
qed

theorem send_to_self_inflates_witness:
  "\<exists>w'. send_coins (bank_store id 0) test_env ''alice'' ''alice'' (coins 4) test_world = (Ok (), w') \<and>
     account_balance (bank_store id 0) test_env ''basecoin'' w' ''alice'' = 14"
proof -
  have loop: "\<exists>bs. coin_loop burn_step (coins 4) (coins 10) = (Ok bs :: string balances_result)"
    "\<exists>bs. coin_loop mint_step (coins 4) (coins 10) = (Ok bs :: string balances_result)"
    by (simp_all add: coins_def burn_step_def mint_step_def no_overflow_iff)
  obtain w' where send: "send_coins (bank_store id 0) test_env ''alice'' ''alice'' (coins 4) test_world = (Ok (), w')"
    by (rule shared.kv.send_coins_cases [OF test_env_ok TrueI test_world(1), of "''alice''" "''alice''" "coins 4"])
      (use loop in \<open>auto simp: test_world\<close>)
  show ?thesis
    using send send_to_self_inflates [OF test_env_ok test_world(1) send, of "''basecoin''"]
    by (simp add: account_balance_def test_world)
qed

theorem mint_then_burn_witness:
  "\<exists>w1 w2. mint_coins (bank_store id 0) test_env ''bob'' (coins 5) test_world = (Ok (), w1) \<and>
     account_balance (bank_store id 0) test_env ''basecoin'' w1 ''bob'' = 6 \<and>
     burn_coins (bank_store id 0) test_env ''bob'' (coins 5) w1 = (Ok (), w2) \<and>
     account_balance (bank_store id 0) test_env ''basecoin'' w2 ''bob'' = 1"
proof -
  have "\<forall>d. account_balance (bank_store id 0) test_env d test_world ''bob'' + requested d (coins 5) < 2 ^ 256"
    using balance_of_bound [of _ "coins 1"] by (auto simp: account_balance_def test_world(3))
  with mint_then_burn [OF test_env_ok test_world(1), of "''bob''" "coins 5"]
  obtain w1 w2 where "mint_coins (bank_store id 0) test_env ''bob'' (coins 5) test_world = (Ok (), w1)"
    "burn_coins (bank_store id 0) test_env ''bob'' (coins 5) w1 = (Ok (), w2)"
    and "account_balance (bank_store id 0) test_env ''basecoin'' w1 ''bob'' = 6"
    "account_balance (bank_store id 0) test_env ''basecoin'' w2 ''bob'' = 1"
    by (auto simp: account_balance_def test_world(3))
  then show ?thesis by blast
qed

end
