(* ===== verification/App.thy ===== *)
theory App
  imports Auth Bank
begin

text \<open>
  The application: \<open>basecoin/app/src/builder.rs\<close> and the ABCI methods of
  \<open>abci/v0_37/impls.rs\<close>. The world is the heap of shared stores, which holds the main store and
  one store per module; \<open>ops\<close> are the methods of the store type the application was built
  with. What the application uses of other crates is the record \<open>app_env\<close>: the decoding of
  transactions and of the genesis JSON, the account id of a public key, the encoding of
  proofs, the conversion of headers, and the texts of foreign error types. The lock on the
  list of modules is taken once per call and protects nothing else here. Fields of responses
  that keep their default are left out.
\<close>

section \<open>Builder\<close>

type_synonym ('s, 'y, 'id, 'ie, 'ev, 'h, 'j) module_list =
  "(('s, 'y) heap_scheme, 'id, 'ie, 'ev, 'h, 'j) identified_module list"

record ('s, 'y, 'id, 'ie, 'ev, 'h, 'j) app =
  app_store :: nat
  app_modules :: "('s, 'y, 'id, 'ie, 'ev, 'h, 'j) module_list"

definition builder_new ::
  "'s \<Rightarrow> ('s, 'y) heap_scheme \<Rightarrow> ('s, 'y, 'id, 'ie, 'ev, 'h, 'j) app \<times> ('s, 'y) heap_scheme" where
  "builder_new store w = (case sh_new store w of (a, w') \<Rightarrow> (\<lparr>app_store = a, app_modules = []\<rparr>, w'))"

text \<open>\<open>fresh\<close> is \<open>S::default()\<close>.\<close>

definition module_store ::
  "'s \<Rightarrow> ident \<Rightarrow> ('s, 'y, 'id, 'ie, 'ev, 'h, 'j) app \<Rightarrow> ('s, 'y) heap_scheme \<Rightarrow>
   nat \<times> ('s, 'y) heap_scheme" where
  "module_store fresh prefix b w = (case find (\<lambda>m. mod_id m = prefix) (app_modules b) of
     Some m \<Rightarrow> (sh_share (md_store (mod_ops m)), w)
   | None \<Rightarrow> sh_new fresh w)"

definition is_unique_id :: "ident \<Rightarrow> ('s, 'y, 'id, 'ie, 'ev, 'h, 'j) app \<Rightarrow> bool" where
  "is_unique_id prefix b \<longleftrightarrow> \<not> list_ex (\<lambda>m. mod_id m = prefix) (app_modules b)"

text \<open>\<open>None\<close> is the failed assertion.\<close>

definition add_module ::
  "ident \<Rightarrow> (('s, 'y) heap_scheme, 'id, 'ie, 'ev, 'h, 'j) module_ops \<Rightarrow>
   ('s, 'y, 'id, 'ie, 'ev, 'h, 'j) app \<Rightarrow> ('s, 'y, 'id, 'ie, 'ev, 'h, 'j) app option" where
  "add_module prefix m b =
     (if is_unique_id prefix b
      then Some (b\<lparr>app_modules := app_modules b @ [\<lparr>mod_id = prefix, mod_ops = m\<rparr>]\<rparr>)
      else None)"


section \<open>Delivering messages\<close>

fun deliver_loop ::
  "('w, 'id, 'ie, 'ev, 'h, 'j) identified_module list \<Rightarrow> any \<Rightarrow> 'id \<Rightarrow> 'w \<Rightarrow>
   (('id, 'ie) app_error, 'ev list) outcome \<times> 'w" where
  "deliver_loop [] message signer w = (Err NotHandled, w)"
| "deliver_loop (m # ms) message signer w = (case md_deliver (mod_ops m) message signer w of
     (Ok msg_events, w') \<Rightarrow> (Ok msg_events, w')
   | (Err e, w') \<Rightarrow> (if e = NotHandled then deliver_loop ms message signer w' else (Err e, w'))
   | (Panic, w') \<Rightarrow> (Panic, w')
   | (Diverge, w') \<Rightarrow> (Diverge, w'))"

definition deliver_msg ::
  "('s, 'y, 'id, 'ie, 'ev, 'h, 'j) app \<Rightarrow> any \<Rightarrow> 'id \<Rightarrow> ('s, 'y) heap_scheme \<Rightarrow>
   (('id, 'ie) app_error, 'ev list) outcome \<times> ('s, 'y) heap_scheme" where
  "deliver_msg app message signer w = deliver_loop (app_modules app) message signer w"

datatype 'pk signer_public_key = Single 'pk | OtherKey

record 'pk signer_info =
  si_public_key :: "'pk signer_public_key option"
  si_sequence :: u64

text \<open>A decoded transaction, with what a node could check of it: the crate's decoder
  (\<open>ap_decode_tx\<close>) fills in all fields, \<open>deliver_tx\<close> reads two of them. The amounts of the fee are
  denominations and numbers.\<close>

record tx_fee =
  tf_amount :: "(string \<times> nat) list"
  tf_gas_limit :: u64

record 'pk tx =
  tx_signer_infos :: "'pk signer_info list"
  tx_messages :: "any list"
  tx_memo :: string
  tx_timeout_height :: u64
  tx_fee :: "tx_fee option"
  tx_signatures :: "bytes list"

text \<open>A transaction of one signer in which nothing else is filled in.\<close>

abbreviation bare_tx :: "'pk \<Rightarrow> any list \<Rightarrow> 'pk tx" where
  "bare_tx pk messages \<equiv> \<lparr>tx_signer_infos = [\<lparr>si_public_key = Some (Single pk), si_sequence = 0\<rparr>],
     tx_messages = messages, tx_memo = [], tx_timeout_height = 0, tx_fee = None, tx_signatures = []\<rparr>"

record ('id, 'pk, 'ie, 'rh, 'h, 'j) app_env =
  ap_decode_tx :: "bytes \<Rightarrow> (string, 'pk tx) outcome"
  ap_account_id :: "'pk \<Rightarrow> string \<Rightarrow> 'id option"
  ap_from_json :: "string \<Rightarrow> 'j option"
  ap_encode_proof :: "commitment_proof \<Rightarrow> bytes"
  ap_header :: "'rh \<Rightarrow> 'h option"
  ap_show_id :: "'id \<Rightarrow> string"
  ap_show_ie :: "'ie \<Rightarrow> string"
  ap_debug_error :: "('id, 'ie) app_error \<Rightarrow> string"

record 'ev response_deliver_tx =
  rd_code :: "32 word"
  rd_log :: string
  rd_events :: "'ev list"

definition deliver_tx_error :: "32 word \<Rightarrow> string \<Rightarrow> 'ev response_deliver_tx" where
  "deliver_tx_error code log = \<lparr>rd_code = code, rd_log = log, rd_events = []\<rparr>"

text \<open>\<open>reset\<close> and \<open>apply\<close> of every module store; \<open>expect\<close> turns an error into a panic.\<close>

fun reset_modules ::
  "('s, 'e, 'z) provable_ops_scheme \<Rightarrow> ('s, 'y, 'id, 'ie, 'ev, 'h, 'j) module_list \<Rightarrow>
   ('s, 'y) heap_scheme \<Rightarrow> (infallible, unit) outcome \<times> ('s, 'y) heap_scheme" where
  "reset_modules ops [] w = (Ok (), w)"
| "reset_modules ops (m # ms) w =
     and_then (expect (st_reset (shared_ops ops (md_store (mod_ops m))) w)) (\<lambda>_. reset_modules ops ms)"

fun apply_modules ::
  "('s, 'e, 'z) provable_ops_scheme \<Rightarrow> ('s, 'y, 'id, 'ie, 'ev, 'h, 'j) module_list \<Rightarrow>
   ('s, 'y) heap_scheme \<Rightarrow> (infallible, unit) outcome \<times> ('s, 'y) heap_scheme" where
  "apply_modules ops [] w = (Ok (), w)"
| "apply_modules ops (m # ms) w =
     and_then (expect (st_apply (shared_ops ops (md_store (mod_ops m))) w)) (\<lambda>_. apply_modules ops ms)"

text \<open>The loop over the messages of a transaction with its early return on an error.\<close>

fun deliver_messages ::
  "('s, 'y, 'id, 'ie, 'ev, 'h, 'j) app \<Rightarrow> any list \<Rightarrow> 'id \<Rightarrow> 'ev list \<Rightarrow> ('s, 'y) heap_scheme \<Rightarrow>
   (('id, 'ie) app_error, 'ev list) outcome \<times> ('s, 'y) heap_scheme" where
  "deliver_messages app [] signer events w = (Ok events, w)"
| "deliver_messages app (message # messages) signer events w =
     and_then (deliver_msg app message signer w)
       (\<lambda>msg_events. deliver_messages app messages signer (events @ msg_events))"

text \<open>The account id of the first signer, or the error text.\<close>

definition first_signer :: "('id, 'pk, 'ie, 'rh, 'h, 'j) app_env \<Rightarrow> 'pk tx \<Rightarrow> string + 'id" where
  "first_signer env tx = (case tx_signer_infos tx of
     info # _ \<Rightarrow>
       (case si_public_key info of
          Some (Single pubkey) \<Rightarrow>
            (case ap_account_id env pubkey ACCOUNT_PREFIX of
               Some signer \<Rightarrow> Inr signer
             | None \<Rightarrow> Inl ''Invalid signer'')
        | _ \<Rightarrow> Inl ''Empty signers'')
   | [] \<Rightarrow> Inl ''Empty signers'')"

definition deliver_tx ::
  "('s, 'e, 'z) provable_ops_scheme \<Rightarrow> ('id, 'pk, 'ie, 'rh, 'h, 'j) app_env \<Rightarrow>
   ('s, 'y, 'id, 'ie, 'ev, 'h, 'j) app \<Rightarrow> bytes \<Rightarrow> ('s, 'y) heap_scheme \<Rightarrow>
   (infallible, 'ev response_deliver_tx) outcome \<times> ('s, 'y) heap_scheme" where
  "deliver_tx ops env app request w = (case ap_decode_tx env request of
     Err err \<Rightarrow> (Ok (deliver_tx_error 1 (''failed to decode incoming tx bytes: '' @ err)), w)
   | Panic \<Rightarrow> (Panic, w)
   | Diverge \<Rightarrow> (Diverge, w)
   | Ok tx \<Rightarrow> (case first_signer env tx of
       Inl log \<Rightarrow> (Ok (deliver_tx_error 2 log), w)
     | Inr signer \<Rightarrow>
         (if tx_messages tx = [] then (Ok (deliver_tx_error 2 ''Empty Tx''), w)
          else (case deliver_messages app (tx_messages tx) signer [] w of
            (Ok events, w) \<Rightarrow>
              and_then (apply_modules ops (app_modules app) w) (\<lambda>_ w.
              and_then (expect (st_apply (shared_ops ops (app_store app)) w)) (\<lambda>_ w.
                (Ok \<lparr>rd_code = 0, rd_log = ''success'', rd_events = events\<rparr>, w)))
          | (Err e, w) \<Rightarrow>
              and_then (reset_modules ops (app_modules app) w) (\<lambda>_ w.
              and_then (expect (st_reset (shared_ops ops (app_store app)) w)) (\<lambda>_ w.
                (Ok (deliver_tx_error 2 (''deliver failed with error: '' @
                   app_error_display (ap_show_id env) (ap_show_ie env) e)), w)))
          | (Panic, w) \<Rightarrow> (Panic, w)
          | (Diverge, w) \<Rightarrow> (Diverge, w)))))"


section \<open>The other ABCI methods\<close>

definition echo :: "string \<Rightarrow> string" where
  "echo message = message"

record response_info =
  ri_data :: string
  ri_version :: string
  ri_app_version :: u64
  ri_last_block_height :: u64
  ri_last_block_app_hash :: bytes

definition info ::
  "('s, 'e, 'z) provable_ops_scheme \<Rightarrow> ('s, 'y, 'id, 'ie, 'ev, 'h, 'j) app \<Rightarrow>
   ('s, 'y) heap_scheme \<Rightarrow> response_info" where
  "info ops app w = \<lparr>ri_data = ''basecoin-rs'', ri_version = ''0.1.0'', ri_app_version = 1,
     ri_last_block_height = read_access (app_store app) (st_current_height ops) w,
     ri_last_block_app_hash = read_access (app_store app) (st_root_hash ops) w\<rparr>"

fun init_modules ::
  "('w, 'id, 'ie, 'ev, 'h, 'j) identified_module list \<Rightarrow> 'j \<Rightarrow> 'w \<Rightarrow>
   (infallible, unit) outcome \<times> 'w" where
  "init_modules [] app_state w = (Ok (), w)"
| "init_modules (m # ms) app_state w =
     and_then (md_init (mod_ops m) app_state w) (\<lambda>_. init_modules ms app_state)"

text \<open>The answer is the application hash; the consensus parameters are handed back as they came.\<close>

definition init_chain ::
  "('s, 'e, 'z) provable_ops_scheme \<Rightarrow> ('id, 'pk, 'ie, 'rh, 'h, 'j) app_env \<Rightarrow>
   ('s, 'y, 'id, 'ie, 'ev, 'h, 'j) app \<Rightarrow> bytes \<Rightarrow> ('s, 'y) heap_scheme \<Rightarrow>
   (infallible, bytes) outcome \<times> ('s, 'y) heap_scheme" where
  "init_chain ops env app app_state_bytes w = (case from_utf8 app_state_bytes of
     Ok s \<Rightarrow> (case ap_from_json env s of
         Some app_state \<Rightarrow>
           and_then (init_modules (app_modules app) app_state w)
             (\<lambda>_ w. (Ok (read_access (app_store app) (st_root_hash ops) w), w))
       | None \<Rightarrow> (Panic, w))
   | _ \<Rightarrow> (Panic, w))"

record request_query =
  rq_data :: bytes
  rq_path :: string
  rq_height :: u64
  rq_prove :: bool

record response_query =
  rp_code :: "32 word"
  rp_log :: string
  rp_key :: bytes
  rp_value :: bytes
  rp_proof_ops :: "proof_op list option"
  rp_height :: u64

definition query_error :: "32 word \<Rightarrow> string \<Rightarrow> response_query" where
  "query_error code log = \<lparr>rp_code = code, rp_log = log, rp_key = [], rp_value = [],
     rp_proof_ops = None, rp_height = 0\<rparr>"

text \<open>The response to a query that a module has answered. The proof of the module's root in the
  main store is unwrapped.\<close>

definition query_response ::
  "('s, 'e, 'z) provable_ops_scheme \<Rightarrow> ('id, 'pk, 'ie, 'rh, 'h, 'j) app_env \<Rightarrow>
   ('s, 'y, 'id, 'ie, 'ev, 'h, 'j) app \<Rightarrow> request_query \<Rightarrow> height \<Rightarrow> ident \<Rightarrow> query_result \<Rightarrow>
   ('s, 'y) heap_scheme \<Rightarrow> (infallible, response_query) outcome" where
  "query_response ops env app request h prefix result w =
     (let respond = (\<lambda>proof_ops. Ok \<lparr>rp_code = 0, rp_log = ''exists'', rp_key = rq_data request,
            rp_value = qr_data result, rp_proof_ops = proof_ops,
            rp_height = read_access (app_store app) (st_current_height ops) w\<rparr>) in
      if rq_prove request then
        (case read_access (app_store app) (st_get_proof ops h (path_from_identifier prefix)) w of
           None \<Rightarrow> Panic
         | Some proof \<Rightarrow> respond (Some (unwrap_or [] (qr_proof result) @
             [\<lparr>po_field_type = [], po_key = string_bytes (identifier_to_string prefix),
               po_data = ap_encode_proof env proof\<rparr>])))
      else respond None)"

fun query_loop ::
  "('s, 'e, 'z) provable_ops_scheme \<Rightarrow> ('id, 'pk, 'ie, 'rh, 'h, 'j) app_env \<Rightarrow>
   ('s, 'y, 'id, 'ie, 'ev, 'h, 'j) app \<Rightarrow> request_query \<Rightarrow>
   ('s, 'y, 'id, 'ie, 'ev, 'h, 'j) module_list \<Rightarrow> ('s, 'y) heap_scheme \<Rightarrow>
   (infallible, response_query) outcome" where
  "query_loop ops env app request [] w = Ok (query_error 1 ''query msg not handled'')"
| "query_loop ops env app request (m # ms) w =
     (let h = height_from (rq_height request) in
      case md_query (mod_ops m) (rq_data request) (Some (path_from_string (rq_path request))) h
             (rq_prove request) w of
        Ok result \<Rightarrow> query_response ops env app request h (mod_id m) result w
      | Err e \<Rightarrow>
          (if e = NotHandled then query_loop ops env app request ms w
           else Ok (query_error 1 (''query error: '' @ ap_debug_error env e)))
      | Panic \<Rightarrow> Panic
      | Diverge \<Rightarrow> Diverge)"

definition query ::
  "('s, 'e, 'z) provable_ops_scheme \<Rightarrow> ('id, 'pk, 'ie, 'rh, 'h, 'j) app_env \<Rightarrow>
   ('s, 'y, 'id, 'ie, 'ev, 'h, 'j) app \<Rightarrow> request_query \<Rightarrow> ('s, 'y) heap_scheme \<Rightarrow>
   (infallible, response_query) outcome" where
  "query ops env app request w = query_loop ops env app request (app_modules app) w"

text \<open>Committing the module stores one after the other, each root hash into the main store.\<close>

fun commit_modules ::
  "('s, 'e, 'z) provable_ops_scheme \<Rightarrow> nat \<Rightarrow> ('s, 'y, 'id, 'ie, 'ev, 'h, 'j) module_list \<Rightarrow>
   ('s, 'y) heap_scheme \<Rightarrow> (infallible, unit) outcome \<times> ('s, 'y) heap_scheme" where
  "commit_modules ops main [] w = (Ok (), w)"
| "commit_modules ops main (m # ms) w =
     (let a = md_store (mod_ops m) in
      and_then (expect (st_commit (shared_ops ops a) w)) (\<lambda>_ w.
      and_then (expect (st_set (shared_ops ops main) (path_from_identifier (mod_id m))
                 (st_root_hash (shared_ops ops a) w) w))
        (\<lambda>_. commit_modules ops main ms)))"

definition commit ::
  "('s, 'e, 'z) provable_ops_scheme \<Rightarrow> ('s, 'y, 'id, 'ie, 'ev, 'h, 'j) app \<Rightarrow>
   ('s, 'y) heap_scheme \<Rightarrow> (infallible, bytes) outcome \<times> ('s, 'y) heap_scheme" where
  "commit ops app w =
     and_then (commit_modules ops (app_store app) (app_modules app) w)
       (\<lambda>_ w. expect (st_commit (shared_ops ops (app_store app)) w))"

fun begin_modules ::
  "('w, 'id, 'ie, 'ev, 'h, 'j) identified_module list \<Rightarrow> 'h \<Rightarrow> 'ev list \<Rightarrow> 'w \<Rightarrow>
   (infallible, 'ev list) outcome \<times> 'w" where
  "begin_modules [] header events w = (Ok events, w)"
| "begin_modules (m # ms) header events w =
     and_then (md_begin_block (mod_ops m) header w)
       (\<lambda>tm_event. begin_modules ms header (events @ tm_event))"

definition begin_block ::
  "('id, 'pk, 'ie, 'rh, 'h, 'j) app_env \<Rightarrow> ('s, 'y, 'id, 'ie, 'ev, 'h, 'j) app \<Rightarrow> 'rh option \<Rightarrow>
   ('s, 'y) heap_scheme \<Rightarrow> (infallible, 'ev list) outcome \<times> ('s, 'y) heap_scheme" where
  "begin_block env app header w = (case Option.bind header (ap_header env) of
     None \<Rightarrow> (Panic, w)
   | Some header \<Rightarrow> begin_modules (app_modules app) header [] w)"

text \<open>Dropping transactions from the end until the rest fits; lengths are \<open>usize\<close> sums that
  saturate at \<open>2 ^ 64 - 1\<close>, and a negative limit counts as zero.\<close>

definition saturating_add :: "nat \<Rightarrow> nat \<Rightarrow> nat" where
  "saturating_add a b = min (a + b) (2 ^ 64 - 1)"

fun drop_loop :: "nat \<Rightarrow> nat \<Rightarrow> bytes list \<Rightarrow> bytes list" where
  "drop_loop max_bytes sum_bytes txs =
     (if max_bytes < sum_bytes \<and> txs \<noteq> []
      then drop_loop max_bytes (sum_bytes - length (last txs)) (butlast txs)
      else txs)"

declare drop_loop.simps [simp del]

definition prepare_proposal :: "bytes list \<Rightarrow> int \<Rightarrow> bytes list" where
  "prepare_proposal txs max_tx_bytes =
     (let max_tx_bytes = nat max_tx_bytes;
          total_tx_bytes = foldl (\<lambda>acc len. saturating_add acc len) 0 (map length txs)
      in drop_loop max_tx_bytes total_tx_bytes txs)"

datatype proposal_status = Unknown | Accept | Reject

definition process_proposal :: "bytes list \<Rightarrow> proposal_status" where
  "process_proposal txs = Accept"

end
