(* ===== verification/Confined.thy ===== *)
theory Confined
  imports App
begin

text \<open>
  What the application relies on of its modules: delivering a message, initialising and
  beginning a block change nothing but the pending trees of the module stores. The predicate
  \<open>confined\<close> says this of one state-changing function, with introduction rules for the ways
  the code composes such functions; the auth and bank modules are shown to satisfy it.
\<close>

named_theorems confined_intros

section \<open>Changes of pending trees only\<close>

definition heap_ok :: "(bytes \<Rightarrow> bytes) \<Rightarrow> (in_memory, 'y) heap_scheme \<Rightarrow> bool" where
  "heap_ok sha w \<longleftrightarrow> (\<forall>b. im_ok sha (cell w b))"

definition pending_only ::
  "(bytes \<Rightarrow> bytes) \<Rightarrow> nat set \<Rightarrow> (in_memory, 'y) heap_scheme \<Rightarrow> (in_memory, 'y) heap_scheme \<Rightarrow> bool" where
  "pending_only sha A w w' \<longleftrightarrow> heap_ok sha w' \<and> (\<forall>b. b \<notin> A \<longrightarrow> cell w' b = cell w b) \<and>
     (\<forall>b. \<exists>t. cell w' b = (cell w b)\<lparr>im_pending := t\<rparr>)"

definition confined ::
  "(bytes \<Rightarrow> bytes) \<Rightarrow> nat set \<Rightarrow>
   ((in_memory, 'y) heap_scheme \<Rightarrow> ('e, 'a) outcome \<times> (in_memory, 'y) heap_scheme) \<Rightarrow> bool" where
  "confined sha A f \<longleftrightarrow> (\<forall>w r w'. heap_ok sha w \<longrightarrow> f w = (r, w') \<longrightarrow> pending_only sha A w w')"

lemma same_pending [simp]: "\<exists>t. s = s\<lparr>im_pending := t\<rparr>"
  by (rule exI [of _ "im_pending s"]) simp

lemma pending_only_refl: "heap_ok sha w \<Longrightarrow> pending_only sha A w w"
  by (simp add: pending_only_def)

lemma pending_only_trans:
  assumes "pending_only sha A w w1" and "pending_only sha A w1 w2"
  shows "pending_only sha A w w2"
proof -
  have "\<exists>t. cell w2 b = (cell w b)\<lparr>im_pending := t\<rparr>" for b
  proof -
    obtain t1 where "cell w1 b = (cell w b)\<lparr>im_pending := t1\<rparr>"
      using assms(1) by (auto simp: pending_only_def)
    moreover obtain t2 where "cell w2 b = (cell w1 b)\<lparr>im_pending := t2\<rparr>"
      using assms(2) by (auto simp: pending_only_def)
    ultimately show ?thesis by auto
  qed
  then show ?thesis using assms by (auto simp: pending_only_def)
qed

lemma confinedD: "confined sha A f \<Longrightarrow> heap_ok sha w \<Longrightarrow> f w = (r, w') \<Longrightarrow> pending_only sha A w w'"
  by (simp add: confined_def)

lemma confinedI:
  "(\<And>w r w'. heap_ok sha w \<Longrightarrow> f w = (r, w') \<Longrightarrow> pending_only sha A w w') \<Longrightarrow> confined sha A f"
  by (simp add: confined_def)

lemma confined_return [confined_intros]: "confined sha A (\<lambda>w. (g w, w))"
  by (auto intro!: confinedI pending_only_refl)

lemma confined_case_prod [confined_intros]:
  assumes g: "confined sha A g" and f: "\<And>r. confined sha A (f r)"
  shows "confined sha A (\<lambda>w. case g w of (r, w') \<Rightarrow> f r w')"
proof (rule confinedI)
  fix w r w2
  assume w: "heap_ok sha w" and eq: "(case g w of (r, w') \<Rightarrow> f r w') = (r, w2)"
  obtain r1 w1 where g1: "g w = (r1, w1)" by (cases "g w")
  note p1 = confinedD [OF g w g1]
  have "pending_only sha A w1 w2"
    using confinedD [OF f, of w1 r1 r w2] p1 eq g1 by (simp add: pending_only_def)
  with p1 show "pending_only sha A w w2" by (rule pending_only_trans)
qed

lemma confined_and_then [confined_intros]:
  assumes m: "confined sha A m" and f: "\<And>x. confined sha A (f x)"
  shows "confined sha A (\<lambda>w. and_then (m w) f)"
proof -
  have "confined sha A (\<lambda>w. case m w of (r, w') \<Rightarrow>
      (case r of Ok a \<Rightarrow> f a w' | Err e \<Rightarrow> (Err e, w') | Panic \<Rightarrow> (Panic, w') | Diverge \<Rightarrow> (Diverge, w')))"
  proof (rule confined_case_prod [OF m])
    fix r :: "('b, 'c) outcome"
    show "confined sha A (\<lambda>w'. case r of Ok a \<Rightarrow> f a w' | Err e \<Rightarrow> (Err e, w') | Panic \<Rightarrow> (Panic, w')
        | Diverge \<Rightarrow> (Diverge, w'))"
      by (cases r) (auto intro: f confined_return)
  qed
  then show ?thesis by (simp add: and_then_def [abs_def] case_prod_unfold)
qed

lemma confined_expect [confined_intros]:
  assumes "confined sha A m" shows "confined sha A (\<lambda>w. expect (m w))"
proof -
  have "confined sha A (\<lambda>w. case m w of (r, w') \<Rightarrow> (unwrap r, w'))"
    by (intro confined_intros assms)
  then show ?thesis by (simp add: expect_def case_prod_unfold)
qed

lemma confined_if [confined_intros]:
  "confined sha A f \<Longrightarrow> confined sha A g \<Longrightarrow> confined sha A (\<lambda>w. if b then f w else g w)"
  by (cases b) simp_all

lemma confined_option [confined_intros]:
  "confined sha A f \<Longrightarrow> (\<And>x. confined sha A (g x)) \<Longrightarrow>
     confined sha A (\<lambda>w. case o' of None \<Rightarrow> f w | Some x \<Rightarrow> g x w)"
  by (cases o') simp_all

lemma confined_mono: "confined sha A f \<Longrightarrow> A \<subseteq> B \<Longrightarrow> confined sha B f"
  unfolding confined_def pending_only_def by blast


section \<open>Stores and typed stores\<close>

lemma confined_write:
  assumes "a \<in> A" and "\<And>s r s'. im_ok sha s \<Longrightarrow> f s = (r, s') \<Longrightarrow> im_ok sha s' \<and> (\<exists>t. s' = s\<lparr>im_pending := t\<rparr>)"
  shows "confined sha A (write_access a f)"
proof (rule confinedI)
  fix w r w'
  assume w: "heap_ok sha w" and "write_access a f w = (r, w')"
  then obtain s' where s': "f (cell w a) = (r, s')" "w' = w\<lparr>cell := (cell w)(a := s')\<rparr>"
    by (auto simp: write_access_def split: prod.splits)
  have "im_ok sha s'" "\<exists>t. s' = (cell w a)\<lparr>im_pending := t\<rparr>"
    using assms(2) [OF _ s'(1)] w by (auto simp: heap_ok_def)
  then show "pending_only sha A w w'"
    using w assms(1) s'(2) by (auto simp: pending_only_def heap_ok_def)
qed

lemma confined_st_set [confined_intros]:
  assumes "a \<in> A"
  shows "confined sha A (st_set (shared_ops (in_memory_ops sha) a) p v)"
  unfolding shared_ops_methods
proof (rule confined_write [OF assms])
  fix s r s'
  assume s: "im_ok sha s" and "st_set (in_memory_ops sha) p v s = (r, s')"
  then show "im_ok sha s' \<and> (\<exists>t. s' = s\<lparr>im_pending := t\<rparr>)"
    using im_set_ok [OF s, of p v] by (auto simp: im_set_def split: option.splits)
qed

lemma confined_st_delete [confined_intros]:
  assumes "a \<in> A"
  shows "confined sha A (st_delete (shared_ops (in_memory_ops sha) a) p)"
  unfolding shared_ops_methods
proof (rule confined_write [OF assms])
  fix s r s'
  assume s: "im_ok sha s" and "st_delete (in_memory_ops sha) p s = (r, s')"
  then show "im_ok sha s' \<and> (\<exists>t. s' = s\<lparr>im_pending := t\<rparr>)"
    using im_delete_ok [OF s, of p] by (auto simp: im_delete_def split: option.splits)
qed

lemma confined_ts_set [confined_intros]:
  "a \<in> A \<Longrightarrow> confined sha A (ts_set (shared_ops (in_memory_ops sha) a) ty k v)"
  unfolding ts_set_def [abs_def] by (intro confined_intros)

lemma confined_store_balances [confined_intros]:
  "a \<in> A \<Longrightarrow> confined sha A (store_balances (shared_ops (in_memory_ops sha) a) env who bs)"
  unfolding store_balances_def [abs_def] by (intro confined_intros)

lemma confined_send_coins [confined_intros]:
  "a \<in> A \<Longrightarrow> confined sha A (send_coins (shared_ops (in_memory_ops sha) a) env sender receiver amount)"
  unfolding send_coins_def [abs_def] Let_def case_prod_unfold by (intro confined_intros)

lemma confined_mint_coins [confined_intros]:
  "a \<in> A \<Longrightarrow> confined sha A (mint_coins (shared_ops (in_memory_ops sha) a) env who amount)"
  unfolding mint_coins_def [abs_def] Let_def by (intro confined_intros)

lemma confined_set_account [confined_intros]:
  "a \<in> A \<Longrightarrow> confined sha A (set_account (shared_ops (in_memory_ops sha) a) env account)"
  unfolding set_account_def [abs_def] by (intro confined_intros)


section \<open>The modules\<close>

definition module_confined ::
  "(bytes \<Rightarrow> bytes) \<Rightarrow> nat set \<Rightarrow> ((in_memory, 'y) heap_scheme, 'id, 'ie, 'ev, 'h, 'j) module_ops \<Rightarrow> bool" where
  "module_confined sha A m \<longleftrightarrow> (\<forall>message signer. confined sha A (md_deliver m message signer)) \<and>
     (\<forall>j. confined sha A (md_init m j)) \<and> (\<forall>h. confined sha A (md_begin_block m h))"

lemma bank_module_confined:
  assumes "a \<in> A"
  shows "module_confined sha A (bank_module account_reader (in_memory_ops sha) a env)"
proof -
  have init: "confined sha A (bank_init_accounts (shared_ops (in_memory_ops sha) a) env accounts)" for accounts
  proof (induction accounts)
    case Nil
    show ?case unfolding bank_init_accounts.simps(1) [abs_def] by (intro confined_intros)
  next
    case (Cons x accounts)
    obtain account balances where x: "x = (account, balances)" by (cases x)
    show ?case unfolding x bank_init_accounts.simps(2) [abs_def]
      by (intro confined_intros assms Cons)
  qed
  show ?thesis
    unfolding module_confined_def bank_module_def module_ops.simps bank_deliver_def [abs_def]
      bank_init_def [abs_def] default_begin_block_def [abs_def]
    by (intro conjI allI confined_intros assms init)
qed

lemma auth_module_confined:
  assumes "a \<in> A"
  shows "module_confined sha A (auth_module (in_memory_ops sha) a env)"
proof -
  have init: "confined sha A (auth_init_accounts (shared_ops (in_memory_ops sha) a) env accounts)" for accounts
  proof (induction accounts)
    case Nil
    show ?case unfolding auth_init_accounts.simps(1) [abs_def] by (intro confined_intros)
  next
    case (Cons x accounts)
    show ?case unfolding auth_init_accounts.simps(2) [abs_def] by (intro confined_intros assms Cons)
  qed
  show ?thesis
    unfolding module_confined_def auth_module_def module_ops.simps auth_deliver_def [abs_def]
      auth_init_def [abs_def] default_begin_block_def [abs_def] Let_def
    by (intro conjI allI confined_intros assms init)
qed

end
