(* ===== verification/Ibc_Transfer.thy ===== *)
theory Ibc_Transfer
  imports Bank Ibc_Queries
begin

text \<open>
  The token methods of the transfer module: \<open>basecoin/modules/src/ibc/transfer.rs\<close>. The module
  escrows, mints and burns coins through the keeper of the bank. Its callbacks are in the
  theory \<open>Ibc_Calls\<close>.
\<close>

section \<open>Escrow, mint and burn\<close>

text \<open>A \<open>PrefixedCoin\<close> with its denomination as printed.\<close>

record prefixed_coin =
  pc_denom :: string
  pc_amount :: u256

text \<open>\<open>te_escrow_address\<close> is \<open>cosmos_adr028_escrow_address\<close>, \<open>te_account_new\<close> is
  \<open>AccountId::new\<close>, \<open>te_failed_to_parse\<close> the text of \<open>FailedToParseAccount\<close>.\<close>

record 'id transfer_env =
  te_escrow_address :: "port_id \<Rightarrow> channel_id \<Rightarrow> bytes"
  te_account_new :: "string \<Rightarrow> bytes \<Rightarrow> 'id option"
  te_failed_to_parse :: string

definition get_escrow_account ::
  "'id transfer_env \<Rightarrow> port_id \<Rightarrow> channel_id \<Rightarrow> (string, 'id) outcome" where
  "get_escrow_account tenv port chan =
     (case te_account_new tenv ACCOUNT_PREFIX (te_escrow_address tenv port chan) of
        Some account_id \<Rightarrow> Ok account_id
      | None \<Rightarrow> Err (te_failed_to_parse tenv))"

text \<open>The account of a \<open>Signer\<close>, and the escrow account printed and parsed again.\<close>

definition parse_signer ::
  "('id, 'raw, 'e, 'j) bank_env \<Rightarrow> 'id transfer_env \<Rightarrow> string \<Rightarrow> (host_error, 'id) outcome" where
  "parse_signer benv tenv account = (case be_parse benv account of
     Some account_id \<Rightarrow> Ok account_id
   | None \<Rightarrow> Err (OtherHostError (te_failed_to_parse tenv)))"

definition parse_escrow ::
  "('id, 'raw, 'e, 'j) bank_env \<Rightarrow> 'id transfer_env \<Rightarrow> port_id \<Rightarrow> channel_id \<Rightarrow> (host_error, 'id) outcome" where
  "parse_escrow benv tenv port chan = (case get_escrow_account tenv port chan of
     Ok account \<Rightarrow> parse_signer benv tenv (be_show benv account)
   | Err e \<Rightarrow> Err (OtherHostError e)
   | Panic \<Rightarrow> Panic
   | Diverge \<Rightarrow> Diverge)"

definition transfer_coins :: "prefixed_coin \<Rightarrow> coin list" where
  "transfer_coins c = [\<lparr>coin_denom = pc_denom c, coin_amount = pc_amount c\<rparr>]"

text \<open>The result of the keeper is unwrapped in all four methods.\<close>

definition escrow_coins_execute ::
  "('w, 'e, 'z) store_ops_scheme \<Rightarrow> ('id, 'raw, 'e, 'j) bank_env \<Rightarrow> 'id transfer_env \<Rightarrow> string \<Rightarrow> port_id \<Rightarrow>
   channel_id \<Rightarrow> prefixed_coin \<Rightarrow> 'w \<Rightarrow> (host_error, unit) outcome \<times> 'w" where
  "escrow_coins_execute ops benv tenv from_account port chan c w =
     and_then (parse_signer benv tenv from_account, w) (\<lambda>sender w.
     and_then (parse_escrow benv tenv port chan, w) (\<lambda>receiver w.
       expect (send_coins ops benv sender receiver (transfer_coins c) w)))"

definition unescrow_coins_execute ::
  "('w, 'e, 'z) store_ops_scheme \<Rightarrow> ('id, 'raw, 'e, 'j) bank_env \<Rightarrow> 'id transfer_env \<Rightarrow> string \<Rightarrow> port_id \<Rightarrow>
   channel_id \<Rightarrow> prefixed_coin \<Rightarrow> 'w \<Rightarrow> (host_error, unit) outcome \<times> 'w" where
  "unescrow_coins_execute ops benv tenv to_account port chan c w =
     and_then (parse_escrow benv tenv port chan, w) (\<lambda>sender w.
     and_then (parse_signer benv tenv to_account, w) (\<lambda>receiver w.
       expect (send_coins ops benv sender receiver (transfer_coins c) w)))"

definition mint_coins_execute ::
  "('w, 'e, 'z) store_ops_scheme \<Rightarrow> ('id, 'raw, 'e, 'j) bank_env \<Rightarrow> 'id transfer_env \<Rightarrow> string \<Rightarrow>
   prefixed_coin \<Rightarrow> 'w \<Rightarrow> (host_error, unit) outcome \<times> 'w" where
  "mint_coins_execute ops benv tenv account amt w =
     and_then (parse_signer benv tenv account, w) (\<lambda>account w.
       expect (mint_coins ops benv account (transfer_coins amt) w))"

definition burn_coins_execute ::
  "('w, 'e, 'z) store_ops_scheme \<Rightarrow> ('id, 'raw, 'e, 'j) bank_env \<Rightarrow> 'id transfer_env \<Rightarrow> string \<Rightarrow>
   prefixed_coin \<Rightarrow> 'w \<Rightarrow> (host_error, unit) outcome \<times> 'w" where
  "burn_coins_execute ops benv tenv account amt w =
     and_then (parse_signer benv tenv account, w) (\<lambda>account w.
       expect (burn_coins ops benv account (transfer_coins amt) w))"

text \<open>The validation methods check nothing.\<close>

definition get_port :: "port_id \<Rightarrow> (host_error, port_id) outcome" where
  "get_port transfer_port = Ok transfer_port"

definition mint_coins_validate :: "string \<Rightarrow> prefixed_coin \<Rightarrow> (host_error, unit) outcome" where
  "mint_coins_validate account c = Ok ()"

definition burn_coins_validate :: "string \<Rightarrow> prefixed_coin \<Rightarrow> string \<Rightarrow> (host_error, unit) outcome" where
  "burn_coins_validate account c memo = Ok ()"

definition can_send_coins :: "(host_error, unit) outcome" where
  "can_send_coins = Ok ()"

definition can_receive_coins :: "(host_error, unit) outcome" where
  "can_receive_coins = Ok ()"

definition escrow_coins_validate ::
  "string \<Rightarrow> port_id \<Rightarrow> channel_id \<Rightarrow> prefixed_coin \<Rightarrow> string \<Rightarrow> (host_error, unit) outcome" where
  "escrow_coins_validate from_account port chan c memo = Ok ()"

definition unescrow_coins_validate ::
  "string \<Rightarrow> port_id \<Rightarrow> channel_id \<Rightarrow> prefixed_coin \<Rightarrow> (host_error, unit) outcome" where
  "unescrow_coins_validate to_account port chan c = Ok ()"


section \<open>Properties\<close>

text \<open>What the module relies on of the crates: an account id that is printed parses again, and
  the escrow address of a channel is a valid account.\<close>

definition escrow_env_ok :: "('id, 'raw, 'e, 'j) bank_env \<Rightarrow> 'id transfer_env \<Rightarrow> bool" where
  "escrow_env_ok benv tenv \<longleftrightarrow> bank_env_ok benv \<and> (\<forall>i. be_parse benv (be_show benv i) = Some i) \<and>
     (\<forall>port chan. te_account_new tenv ACCOUNT_PREFIX (te_escrow_address tenv port chan) \<noteq> None)"

definition escrow_of :: "'id transfer_env \<Rightarrow> port_id \<Rightarrow> channel_id \<Rightarrow> 'id" where
  "escrow_of tenv port chan = the (te_account_new tenv ACCOUNT_PREFIX (te_escrow_address tenv port chan))"

lemma parse_escrow:
  assumes "escrow_env_ok benv tenv"
  shows "parse_escrow benv tenv port chan = Ok (escrow_of tenv port chan)"
proof -
  from assms obtain account where "te_account_new tenv ACCOUNT_PREFIX (te_escrow_address tenv port chan) = Some account"
    unfolding escrow_env_ok_def by blast
  then show ?thesis
    using assms by (simp add: escrow_env_ok_def parse_escrow_def get_escrow_account_def escrow_of_def parse_signer_def)
qed

lemma escrow_send:
  assumes "escrow_env_ok benv tenv" and "be_parse benv account = Some sender"
  shows "escrow_coins_execute ops benv tenv account port chan c w =
      expect (send_coins ops benv sender (escrow_of tenv port chan) (transfer_coins c) w)"
    and "unescrow_coins_execute ops benv tenv account port chan c w =
      expect (send_coins ops benv (escrow_of tenv port chan) sender (transfer_coins c) w)"
  using assms by (simp_all add: escrow_coins_execute_def unescrow_coins_execute_def parse_signer_def parse_escrow)

text \<open>
  C18. Escrowing moves exactly the coin from the account to the escrow account of the channel when
  the account covers it. When it does not, or when the escrow account would overflow, the
  method panics: the error of the bank is unwrapped, and no validation came before.
\<close>

theorem escrow_exact:
  fixes benv :: "('id, 'raw, infallible, 'j) bank_env"
  assumes env: "escrow_env_ok benv tenv" and account: "be_parse benv account = Some sender"
    and "sender \<noteq> escrow_of tenv port chan" and w: "im_ok sha (cell w a)"
  shows "if covered (bank_store sha a) benv w sender (escrow_of tenv port chan) (transfer_coins c)
     then \<exists>w'. escrow_coins_execute (bank_store sha a) benv tenv account port chan c w = (Ok (), w') \<and>
       im_ok sha (cell w' a) \<and>
       (\<forall>d j. account_balance (bank_store sha a) benv d w' j =
          (if j = sender then account_balance (bank_store sha a) benv d w j - requested d (transfer_coins c)
           else if j = escrow_of tenv port chan
             then account_balance (bank_store sha a) benv d w j + requested d (transfer_coins c)
           else account_balance (bank_store sha a) benv d w j))
     else escrow_coins_execute (bank_store sha a) benv tenv account port chan c w = (Panic, w)"
proof (cases "covered (bank_store sha a) benv w sender (escrow_of tenv port chan) (transfer_coins c)")
  case True
  have benv: "bank_env_ok benv" using env by (simp add: escrow_env_ok_def)
  from shared.kv.send_coins_covered [OF benv TrueI w assms(3) True]
  obtain w' where w': "send_coins (bank_store sha a) benv sender (escrow_of tenv port chan) (transfer_coins c) w = (Ok (), w')"
    "im_ok sha (cell w' a)"
    "\<And>d j. account_balance (bank_store sha a) benv d w' j =
       (if j = sender then account_balance (bank_store sha a) benv d w j - requested d (transfer_coins c)
        else if j = escrow_of tenv port chan
          then account_balance (bank_store sha a) benv d w j + requested d (transfer_coins c)
        else account_balance (bank_store sha a) benv d w j)"
    by metis
  then show ?thesis using True by (simp add: escrow_send [OF env account] expect_def)
next
  case False
  have benv: "bank_env_ok benv" using env by (simp add: escrow_env_ok_def)
  from shared.kv.send_coins_uncovered [OF benv TrueI w False]
  obtain e where "send_coins (bank_store sha a) benv sender (escrow_of tenv port chan) (transfer_coins c) w = (Err e, w)"
    by metis
  then show ?thesis using False by (simp add: escrow_send [OF env account] expect_def)
qed

text \<open>
  C19. A transfer that is escrowed and later refunded leaves no trace: escrowing a covered coin and
  unescrowing the same coin to the same account succeeds and restores every balance of every
  account.
\<close>

theorem escrow_refund_roundtrip:
  fixes benv :: "('id, 'raw, infallible, 'j) bank_env"
  assumes env: "escrow_env_ok benv tenv" and account: "be_parse benv account = Some sender"
    and diff: "sender \<noteq> escrow_of tenv port chan" and w: "im_ok sha (cell w a)"
    and cov: "covered (bank_store sha a) benv w sender (escrow_of tenv port chan) (transfer_coins c)"
  shows "\<exists>w1 w2. escrow_coins_execute (bank_store sha a) benv tenv account port chan c w = (Ok (), w1) \<and>
     unescrow_coins_execute (bank_store sha a) benv tenv account port chan c w1 = (Ok (), w2) \<and>
     (\<forall>d j. account_balance (bank_store sha a) benv d w2 j = account_balance (bank_store sha a) benv d w j)"
proof -
  let ?ops = "bank_store sha a" and ?escrow = "escrow_of tenv port chan" and ?coins = "transfer_coins c"
  have benv: "bank_env_ok benv" using env by (simp add: escrow_env_ok_def)
  from shared.kv.send_coins_covered [OF benv TrueI w diff cov]
  obtain w1 where w1: "send_coins ?ops benv sender ?escrow ?coins w = (Ok (), w1)" "im_ok sha (cell w1 a)"
    and bal1: "\<And>d j. account_balance ?ops benv d w1 j =
       (if j = sender then account_balance ?ops benv d w j - requested d ?coins
        else if j = ?escrow then account_balance ?ops benv d w j + requested d ?coins
        else account_balance ?ops benv d w j)"
    and holds: "\<And>c'. c' \<in> set ?coins \<Longrightarrow> account_holds ?ops benv (coin_denom c') w1 ?escrow"
    by metis
  have enough: "requested d ?coins \<le> account_balance ?ops benv d w sender" for d
    using cov by (simp add: covered_def)
  have "account_balance ?ops benv d w sender < 2 ^ 256" for d
    unfolding account_balance_def by (rule balance_of_bound)
  then have "covered ?ops benv w1 ?escrow sender ?coins"
    using diff enough holds by (simp add: covered_def bal1)
  from shared.kv.send_coins_covered [OF benv TrueI w1(2) diff [symmetric] this]
  obtain w2 where w2: "send_coins ?ops benv ?escrow sender ?coins w1 = (Ok (), w2)"
    and bal2: "\<And>d j. account_balance ?ops benv d w2 j =
       (if j = ?escrow then account_balance ?ops benv d w1 j - requested d ?coins
        else if j = sender then account_balance ?ops benv d w1 j + requested d ?coins
        else account_balance ?ops benv d w1 j)"
    by metis
  have "account_balance ?ops benv d w2 j = account_balance ?ops benv d w j" for d j
    using diff enough [of d] by (simp add: bal1 bal2)
  then show ?thesis
    using w1(1) w2 by (simp add: escrow_send [OF env account] expect_def)
qed


section \<open>Witnesses\<close>

definition demo_tenv :: "string transfer_env" where
  "demo_tenv = \<lparr>te_escrow_address = (\<lambda>port chan. string_bytes (port @ chan)),
     te_account_new = (\<lambda>prefix bs. Some (prefix @ map (char_of \<circ> unat) bs)), te_failed_to_parse = ''failed''\<rparr>"

lemma demo_escrow_ok: "escrow_env_ok test_env demo_tenv"
  using test_env_ok by (simp add: escrow_env_ok_def test_env_def demo_tenv_def)

lemma demo_escrow: "escrow_of demo_tenv ''transfer'' ''channel-0'' = ''cosmostransferchannel-0''"
  by code_simp

abbreviation demo_escrow_account :: string where
  "demo_escrow_account \<equiv> escrow_of demo_tenv ''transfer'' ''channel-0''"

definition demo_coin :: "nat \<Rightarrow> prefixed_coin" where
  "demo_coin n = \<lparr>pc_denom = ''basecoin'', pc_amount = word_of_nat n\<rparr>"

lemma demo_coins: "transfer_coins (demo_coin n) = coins n"
  by (simp add: transfer_coins_def demo_coin_def coins_def)

lemma demo_parties: "be_parse test_env ''alice'' = Some ''alice''" "''alice'' \<noteq> demo_escrow_account"
  by (simp_all add: test_env_def demo_escrow)

lemma demo_covered:
  assumes "unat (word_of_nat n :: u256) = n"
  shows "covered (bank_store id 0) test_env test_world ''alice'' demo_escrow_account (coins n) \<longleftrightarrow> n \<le> 10"
proof -
  have "requested d (coins n) < 2 ^ 256" for d
    using balance_of_bound [of "''basecoin''" "coins n"] by simp
  then show ?thesis
    using assms
    by (auto simp: covered_def account_holds_def account_balance_def test_world demo_escrow coins_def holds_denom_def)
qed

theorem escrow_exact_witness:
  "escrow_coins_execute (bank_store id 0) test_env demo_tenv ''alice'' ''transfer'' ''channel-0'' (demo_coin 40) test_world =
     (Panic, test_world)"
  using escrow_exact [OF demo_escrow_ok demo_parties test_world(1), of "demo_coin 40"]
  by (simp add: demo_coins demo_covered)

theorem escrow_refund_roundtrip_witness:
  "\<exists>w1 w2. escrow_coins_execute (bank_store id 0) test_env demo_tenv ''alice'' ''transfer'' ''channel-0'' (demo_coin 4) test_world = (Ok (), w1) \<and>
     unescrow_coins_execute (bank_store id 0) test_env demo_tenv ''alice'' ''transfer'' ''channel-0'' (demo_coin 4) w1 = (Ok (), w2) \<and>
     account_balance (bank_store id 0) test_env ''basecoin'' w2 ''alice'' = 10"
proof -
  have "covered (bank_store id 0) test_env test_world ''alice'' demo_escrow_account (transfer_coins (demo_coin 4))"
    by (simp add: demo_coins demo_covered)
  moreover have "account_balance (bank_store id 0) test_env ''basecoin'' test_world ''alice'' = 10"
    by (simp add: account_balance_def test_world)
  ultimately show ?thesis
    using escrow_refund_roundtrip [OF demo_escrow_ok demo_parties test_world(1)] by metis
qed

end
