(* ===== verification/Ibc_Calls.thy ===== *)
theory Ibc_Calls
  imports Ibc_Transfer
begin

text \<open>
  What the \<open>ibc-rs\<close> crates do to the program. Their handlers are generic over the host and
  token contexts, so all they can do is read and call the methods of these contexts: a
  handler is a \<open>prog\<close>, a tree of reads and calls that continues with the answers, and \<open>run\<close>
  executes it on the world. The trees themselves are parameters. On top of this the theory
  has the callbacks of the transfer module (\<open>transfer.rs\<close>) and the router (\<open>router.rs\<close>).

  The locale \<open>caller\<close> states what every handler keeps when every method keeps it.
\<close>

section \<open>Calls\<close>

text \<open>The state-changing methods of the host and client contexts, and of the token context.\<close>

datatype ('tcs, 'tcons, 'conn, 'chan, 'ts, 'iev) host_call =
    IncreaseClientCounter
  | IncreaseConnectionCounter
  | IncreaseChannelCounter
  | StoreConnection connection_id 'conn
  | StoreConnectionToClient client_id connection_id
  | StorePacketCommitment port_id channel_id u64 bytes
  | DeletePacketCommitment port_id channel_id u64
  | StorePacketReceipt port_id channel_id u64
  | StorePacketAcknowledgement port_id channel_id u64 bytes
  | DeletePacketAcknowledgement port_id channel_id u64
  | StoreChannel port_id channel_id 'chan
  | StoreNextSequenceSend port_id channel_id u64
  | StoreNextSequenceRecv port_id channel_id u64
  | StoreNextSequenceAck port_id channel_id u64
  | EmitIbcEvent 'iev
  | LogMessage string
  | StoreClientState client_id "'tcs any_client_state"
  | StoreConsensusState "client_id \<times> u64 \<times> u64" "'tcons any_consensus_state"
  | DeleteConsensusState "client_id \<times> u64 \<times> u64"
  | StoreUpdateMeta client_id ibc_height 'ts ibc_height
  | DeleteUpdateMeta client_id ibc_height

datatype token_call =
    EscrowCoins string port_id channel_id prefixed_coin
  | UnescrowCoins string port_id channel_id prefixed_coin
  | MintCoins string prefixed_coin
  | BurnCoins string prefixed_coin

fun perform_host ::
  "(('s, 'tcons, 'iev, 'y) ibc_heap_scheme, 'e, 'z) store_ops_scheme \<Rightarrow>
   ('tcs, 'tcons, 'conn, 'chan, 'ts, 'e) ibc_env \<Rightarrow> ('tcs, 'tcons, 'conn, 'chan, 'ts, 'iev) host_call \<Rightarrow>
   ('s, 'tcons, 'iev, 'y) ibc_heap_scheme \<Rightarrow>
   (host_error, unit) outcome \<times> ('s, 'tcons, 'iev, 'y) ibc_heap_scheme" where
  "perform_host ops env IncreaseClientCounter = increase_client_counter ops env"
| "perform_host ops env IncreaseConnectionCounter = increase_connection_counter ops env"
| "perform_host ops env IncreaseChannelCounter = increase_channel_counter ops env"
| "perform_host ops env (StoreConnection c e) = store_connection ops env c e"
| "perform_host ops env (StoreConnectionToClient i c) = store_connection_to_client ops env i c"
| "perform_host ops env (StorePacketCommitment p c s x) = store_packet_commitment ops env p c s x"
| "perform_host ops env (DeletePacketCommitment p c s) = delete_packet_commitment ops env p c s"
| "perform_host ops env (StorePacketReceipt p c s) = store_packet_receipt ops env p c s"
| "perform_host ops env (StorePacketAcknowledgement p c s x) = store_packet_acknowledgement ops env p c s x"
| "perform_host ops env (DeletePacketAcknowledgement p c s) = delete_packet_acknowledgement ops env p c s"
| "perform_host ops env (StoreChannel p c e) = store_channel ops env p c e"
| "perform_host ops env (StoreNextSequenceSend p c s) = store_next_sequence_send ops env p c s"
| "perform_host ops env (StoreNextSequenceRecv p c s) = store_next_sequence_recv ops env p c s"
| "perform_host ops env (StoreNextSequenceAck p c s) = store_next_sequence_ack ops env p c s"
| "perform_host ops env (EmitIbcEvent ev) = emit_ibc_event ev"
| "perform_host ops env (LogMessage m) = log_message m"
| "perform_host ops env (StoreClientState i cs) = store_client_state ops env i cs"
| "perform_host ops env (StoreConsensusState p cs) = store_consensus_state ops env p cs"
| "perform_host ops env (DeleteConsensusState p) = delete_consensus_state ops env p"
| "perform_host ops env (StoreUpdateMeta i h t n) = store_update_meta ops env i h t n"
| "perform_host ops env (DeleteUpdateMeta i h) = delete_update_meta ops env i h"

fun perform_token ::
  "('w, 'e, 'z) store_ops_scheme \<Rightarrow> ('id, 'raw, 'e, 'j) bank_env \<Rightarrow> 'id transfer_env \<Rightarrow> token_call \<Rightarrow>
   'w \<Rightarrow> (host_error, unit) outcome \<times> 'w" where
  "perform_token ops benv tenv (EscrowCoins who p c x) = escrow_coins_execute ops benv tenv who p c x"
| "perform_token ops benv tenv (UnescrowCoins who p c x) = unescrow_coins_execute ops benv tenv who p c x"
| "perform_token ops benv tenv (MintCoins who x) = mint_coins_execute ops benv tenv who x"
| "perform_token ops benv tenv (BurnCoins who x) = burn_coins_execute ops benv tenv who x"

text \<open>The handlers of the IBC module call both; \<open>a\<close> is the address of the store of the IBC module, \<open>b\<close>
  of the store of the bank.\<close>

type_synonym ('tcs, 'tcons, 'conn, 'chan, 'ts, 'iev) ibc_call =
  "('tcs, 'tcons, 'conn, 'chan, 'ts, 'iev) host_call + token_call"

definition perform ::
  "(bytes \<Rightarrow> bytes) \<Rightarrow> nat \<Rightarrow> nat \<Rightarrow> ('tcs, 'tcons, 'conn, 'chan, 'ts, infallible) ibc_env \<Rightarrow>
   ('id, 'raw, infallible, 'j) bank_env \<Rightarrow> 'id transfer_env \<Rightarrow>
   ('tcs, 'tcons, 'conn, 'chan, 'ts, 'iev) ibc_call \<Rightarrow> (in_memory, 'tcons, 'iev, 'y) ibc_heap_scheme \<Rightarrow>
   (host_error, unit) outcome \<times> (in_memory, 'tcons, 'iev, 'y) ibc_heap_scheme" where
  "perform sha a b env benv tenv call = (case call of
     Inl c \<Rightarrow> perform_host (ibc_store sha a) env c
   | Inr c \<Rightarrow> perform_token (bank_store sha b) benv tenv c)"


section \<open>Handlers\<close>

datatype ('w, 'c, 'a) prog =
    Done 'a
  | Read "'w \<Rightarrow> ('w, 'c, 'a) prog"
  | Call 'c "(host_error, unit) outcome \<Rightarrow> ('w, 'c, 'a) prog"

text \<open>A panic of a method ends the handler.\<close>

primrec run ::
  "('c \<Rightarrow> 'w \<Rightarrow> (host_error, unit) outcome \<times> 'w) \<Rightarrow> ('w, 'c, ('e, 'a) outcome) prog \<Rightarrow> 'w \<Rightarrow>
   ('e, 'a) outcome \<times> 'w" where
  "run f (Done r) = (\<lambda>w. (r, w))"
| "run f (Read k) = (\<lambda>w. run f (k w) w)"
| "run f (Call c k) = (\<lambda>w. case f c w of
     (Panic, w') \<Rightarrow> (Panic, w')
   | (Diverge, w') \<Rightarrow> (Diverge, w')
   | (r, w') \<Rightarrow> run f (k r) w')"

primrec prog_map :: "('a \<Rightarrow> 'b) \<Rightarrow> ('w, 'c, 'a) prog \<Rightarrow> ('w, 'c, 'b) prog" where
  "prog_map g (Done a) = Done (g a)"
| "prog_map g (Read k) = Read (\<lambda>w. prog_map g (k w))"
| "prog_map g (Call c k) = Call c (\<lambda>r. prog_map g (k r))"

lemma run_prog_map:
  assumes "g Panic = Panic" and "g Diverge = Diverge"
  shows "run f (prog_map g p) w = (case run f p w of (r, w') \<Rightarrow> (g r, w'))"
  by (induction p arbitrary: w) (auto simp: assms split: prod.splits outcome.splits)

text \<open>The interface of a handler to the methods it calls.\<close>

locale caller =
  fixes f :: "'c \<Rightarrow> 'w \<Rightarrow> (host_error, unit) outcome \<times> 'w"
    and R :: "'w \<Rightarrow> 'w \<Rightarrow> bool"
  assumes R_refl: "R w w"
    and R_trans: "R w w1 \<Longrightarrow> R w1 w2 \<Longrightarrow> R w w2"
    and R_call: "f c w = (r, w') \<Longrightarrow> R w w'"
begin

lemma R_run: "run f p w = (r, w') \<Longrightarrow> R w w'"
proof (induction p arbitrary: w)
  case (Done a)
  then show ?case using R_refl by simp
next
  case (Read k)
  show ?case using Read.IH [of "k w" w] Read.prems by simp
next
  case (Call c k)
  obtain r1 w1 where c: "f c w = (r1, w1)" by fastforce
  note R1 = R_call [OF c]
  show ?case
  proof (cases r1)
    case (Ok u)
    then show ?thesis using Call.IH [of "k (Ok u)" w1] Call.prems c R1 R_trans by auto
  next
    case (Err e)
    then show ?thesis using Call.IH [of "k (Err e)" w1] Call.prems c R1 R_trans by auto
  qed (use Call.prems c R1 in auto)
qed

end


section \<open>Callbacks of the transfer module\<close>

text \<open>The functions of the transfer application that the callbacks wrap, with their errors as
  texts. \<open>'args\<close> are the arguments of the channel handshake, \<open>'x\<close> the module extras, \<open>'pkt\<close>
  packets, \<open>'ack\<close> acknowledgements.\<close>

record ('w, 'c, 'args, 'x, 'pkt, 'ack) transfer_app =
  ta_version :: string
  ta_no_extras :: 'x
  ta_open_init_validate :: "'args \<Rightarrow> 'w \<Rightarrow> (string, unit) outcome"
  ta_open_init_execute :: "'args \<Rightarrow> ('w, 'c, (string, 'x \<times> string) outcome) prog"
  ta_open_try_validate :: "'args \<Rightarrow> 'w \<Rightarrow> (string, unit) outcome"
  ta_open_try_execute :: "'args \<Rightarrow> ('w, 'c, (string, 'x \<times> string) outcome) prog"
  ta_open_ack_validate :: "port_id \<Rightarrow> channel_id \<Rightarrow> string \<Rightarrow> 'w \<Rightarrow> (string, unit) outcome"
  ta_open_confirm_validate :: "port_id \<Rightarrow> channel_id \<Rightarrow> 'w \<Rightarrow> (string, unit) outcome"
  ta_recv_packet_execute :: "'pkt \<Rightarrow> ('w, 'c, (infallible, 'x \<times> 'ack) outcome) prog"
  ta_ack_validate :: "'pkt \<Rightarrow> 'ack \<Rightarrow> string \<Rightarrow> 'w \<Rightarrow> (string, unit) outcome"
  ta_timeout_validate :: "'pkt \<Rightarrow> string \<Rightarrow> 'w \<Rightarrow> (string, unit) outcome"
  ta_timeout_execute :: "'pkt \<Rightarrow> string \<Rightarrow> ('w, 'c, (infallible, 'x \<times> (string, unit) outcome) outcome) prog"

datatype channel_error = AppSpecific string

definition on_chan_open_init_validate ::
  "('w, 'c, 'args, 'x, 'pkt, 'ack) transfer_app \<Rightarrow> 'args \<Rightarrow> 'w \<Rightarrow> (channel_error, string) outcome" where
  "on_chan_open_init_validate app args w =
     map_ok (\<lambda>_. ta_version app) (map_err AppSpecific (ta_open_init_validate app args w))"

definition on_chan_open_init_execute ::
  "('w, 'c, 'args, 'x, 'pkt, 'ack) transfer_app \<Rightarrow> 'args \<Rightarrow>
   ('w, 'c, (channel_error, 'x \<times> string) outcome) prog" where
  "on_chan_open_init_execute app args = prog_map (map_err AppSpecific) (ta_open_init_execute app args)"

definition on_chan_open_try_validate ::
  "('w, 'c, 'args, 'x, 'pkt, 'ack) transfer_app \<Rightarrow> 'args \<Rightarrow> 'w \<Rightarrow> (channel_error, string) outcome" where
  "on_chan_open_try_validate app args w =
     map_ok (\<lambda>_. ta_version app) (map_err AppSpecific (ta_open_try_validate app args w))"

definition on_chan_open_try_execute ::
  "('w, 'c, 'args, 'x, 'pkt, 'ack) transfer_app \<Rightarrow> 'args \<Rightarrow>
   ('w, 'c, (channel_error, 'x \<times> string) outcome) prog" where
  "on_chan_open_try_execute app args = prog_map (map_err AppSpecific) (ta_open_try_execute app args)"

definition on_chan_open_ack_validate ::
  "('w, 'c, 'args, 'x, 'pkt, 'ack) transfer_app \<Rightarrow> port_id \<Rightarrow> channel_id \<Rightarrow> string \<Rightarrow> 'w \<Rightarrow>
   (channel_error, unit) outcome" where
  "on_chan_open_ack_validate app port chan counterparty_version w =
     map_err AppSpecific (ta_open_ack_validate app port chan counterparty_version w)"

definition on_chan_open_confirm_validate ::
  "('w, 'c, 'args, 'x, 'pkt, 'ack) transfer_app \<Rightarrow> port_id \<Rightarrow> channel_id \<Rightarrow> 'w \<Rightarrow>
   (channel_error, unit) outcome" where
  "on_chan_open_confirm_validate app port chan w =
     map_err AppSpecific (ta_open_confirm_validate app port chan w)"

text \<open>The remaining \<open>execute\<close> callbacks of the handshake do nothing, and closing is always allowed.\<close>

definition on_chan_open_ack_execute ::
  "('w, 'c, 'args, 'x, 'pkt, 'ack) transfer_app \<Rightarrow> port_id \<Rightarrow> channel_id \<Rightarrow> string \<Rightarrow>
   ('w, 'c, (channel_error, 'x) outcome) prog" where
  "on_chan_open_ack_execute app port chan counterparty_version = Done (Ok (ta_no_extras app))"

definition on_chan_open_confirm_execute ::
  "('w, 'c, 'args, 'x, 'pkt, 'ack) transfer_app \<Rightarrow> port_id \<Rightarrow> channel_id \<Rightarrow>
   ('w, 'c, (channel_error, 'x) outcome) prog" where
  "on_chan_open_confirm_execute app port chan = Done (Ok (ta_no_extras app))"

definition on_chan_close_init_validate :: "port_id \<Rightarrow> channel_id \<Rightarrow> 'w \<Rightarrow> (channel_error, unit) outcome" where
  "on_chan_close_init_validate port chan w = Ok ()"

definition on_chan_close_init_execute ::
  "('w, 'c, 'args, 'x, 'pkt, 'ack) transfer_app \<Rightarrow> port_id \<Rightarrow> channel_id \<Rightarrow>
   ('w, 'c, (channel_error, 'x) outcome) prog" where
  "on_chan_close_init_execute app port chan = Done (Ok (ta_no_extras app))"

definition on_chan_close_confirm_validate :: "port_id \<Rightarrow> channel_id \<Rightarrow> 'w \<Rightarrow> (channel_error, unit) outcome" where
  "on_chan_close_confirm_validate port chan w = Ok ()"

definition on_chan_close_confirm_execute ::
  "('w, 'c, 'args, 'x, 'pkt, 'ack) transfer_app \<Rightarrow> port_id \<Rightarrow> channel_id \<Rightarrow>
   ('w, 'c, (channel_error, 'x) outcome) prog" where
  "on_chan_close_confirm_execute app port chan = Done (Ok (ta_no_extras app))"

definition on_recv_packet_execute ::
  "('w, 'c, 'args, 'x, 'pkt, 'ack) transfer_app \<Rightarrow> 'pkt \<Rightarrow> string \<Rightarrow>
   ('w, 'c, (infallible, 'x \<times> 'ack) outcome) prog" where
  "on_recv_packet_execute app packet relayer = ta_recv_packet_execute app packet"

definition on_acknowledgement_packet_validate ::
  "('w, 'c, 'args, 'x, 'pkt, 'ack) transfer_app \<Rightarrow> 'pkt \<Rightarrow> 'ack \<Rightarrow> string \<Rightarrow> 'w \<Rightarrow>
   (channel_error, unit) outcome" where
  "on_acknowledgement_packet_validate app packet ack relayer w =
     map_err AppSpecific (ta_ack_validate app packet ack relayer w)"

text \<open>Acknowledging a packet executes nothing: an error acknowledgement gives no refund.\<close>

definition on_acknowledgement_packet_execute ::
  "('w, 'c, 'args, 'x, 'pkt, 'ack) transfer_app \<Rightarrow> 'pkt \<Rightarrow> 'ack \<Rightarrow> string \<Rightarrow>
   ('w, 'c, (infallible, 'x \<times> (channel_error, unit) outcome) outcome) prog" where
  "on_acknowledgement_packet_execute app packet ack relayer = Done (Ok (ta_no_extras app, Ok ()))"

definition on_timeout_packet_validate ::
  "('w, 'c, 'args, 'x, 'pkt, 'ack) transfer_app \<Rightarrow> 'pkt \<Rightarrow> string \<Rightarrow> 'w \<Rightarrow> (channel_error, unit) outcome" where
  "on_timeout_packet_validate app packet relayer w =
     map_err AppSpecific (ta_timeout_validate app packet relayer w)"

definition on_timeout_packet_execute ::
  "('w, 'c, 'args, 'x, 'pkt, 'ack) transfer_app \<Rightarrow> 'pkt \<Rightarrow> string \<Rightarrow>
   ('w, 'c, (infallible, 'x \<times> (channel_error, unit) outcome) outcome) prog" where
  "on_timeout_packet_execute app packet relayer =
     prog_map (map_ok (\<lambda>(x, r). (x, map_err AppSpecific r))) (ta_timeout_execute app packet relayer)"

text \<open>The methods of the trait \<open>Module\<close> of \<open>ibc-rs\<close>, as a handler sees them, and the transfer
  module's implementation.\<close>

record ('w, 'c, 'args, 'x, 'pkt, 'ack) ibc_callbacks =
  cb_open_init_validate :: "'args \<Rightarrow> 'w \<Rightarrow> (channel_error, string) outcome"
  cb_open_init_execute :: "'args \<Rightarrow> ('w, 'c, (channel_error, 'x \<times> string) outcome) prog"
  cb_open_try_validate :: "'args \<Rightarrow> 'w \<Rightarrow> (channel_error, string) outcome"
  cb_open_try_execute :: "'args \<Rightarrow> ('w, 'c, (channel_error, 'x \<times> string) outcome) prog"
  cb_open_ack_validate :: "port_id \<Rightarrow> channel_id \<Rightarrow> string \<Rightarrow> 'w \<Rightarrow> (channel_error, unit) outcome"
  cb_open_ack_execute :: "port_id \<Rightarrow> channel_id \<Rightarrow> string \<Rightarrow> ('w, 'c, (channel_error, 'x) outcome) prog"
  cb_open_confirm_validate :: "port_id \<Rightarrow> channel_id \<Rightarrow> 'w \<Rightarrow> (channel_error, unit) outcome"
  cb_open_confirm_execute :: "port_id \<Rightarrow> channel_id \<Rightarrow> ('w, 'c, (channel_error, 'x) outcome) prog"
  cb_close_init_validate :: "port_id \<Rightarrow> channel_id \<Rightarrow> 'w \<Rightarrow> (channel_error, unit) outcome"
  cb_close_init_execute :: "port_id \<Rightarrow> channel_id \<Rightarrow> ('w, 'c, (channel_error, 'x) outcome) prog"
  cb_close_confirm_validate :: "port_id \<Rightarrow> channel_id \<Rightarrow> 'w \<Rightarrow> (channel_error, unit) outcome"
  cb_close_confirm_execute :: "port_id \<Rightarrow> channel_id \<Rightarrow> ('w, 'c, (channel_error, 'x) outcome) prog"
  cb_recv_packet_execute :: "'pkt \<Rightarrow> string \<Rightarrow> ('w, 'c, (infallible, 'x \<times> 'ack) outcome) prog"
  cb_ack_validate :: "'pkt \<Rightarrow> 'ack \<Rightarrow> string \<Rightarrow> 'w \<Rightarrow> (channel_error, unit) outcome"
  cb_ack_execute :: "'pkt \<Rightarrow> 'ack \<Rightarrow> string \<Rightarrow> ('w, 'c, (infallible, 'x \<times> (channel_error, unit) outcome) outcome) prog"
  cb_timeout_validate :: "'pkt \<Rightarrow> string \<Rightarrow> 'w \<Rightarrow> (channel_error, unit) outcome"
  cb_timeout_execute :: "'pkt \<Rightarrow> string \<Rightarrow> ('w, 'c, (infallible, 'x \<times> (channel_error, unit) outcome) outcome) prog"

definition transfer_callbacks ::
  "('w, 'c, 'args, 'x, 'pkt, 'ack) transfer_app \<Rightarrow> ('w, 'c, 'args, 'x, 'pkt, 'ack) ibc_callbacks" where
  "transfer_callbacks app = \<lparr>
     cb_open_init_validate = on_chan_open_init_validate app,
     cb_open_init_execute = on_chan_open_init_execute app,
     cb_open_try_validate = on_chan_open_try_validate app,
     cb_open_try_execute = on_chan_open_try_execute app,
     cb_open_ack_validate = on_chan_open_ack_validate app,
     cb_open_ack_execute = on_chan_open_ack_execute app,
     cb_open_confirm_validate = on_chan_open_confirm_validate app,
     cb_open_confirm_execute = on_chan_open_confirm_execute app,
     cb_close_init_validate = on_chan_close_init_validate,
     cb_close_init_execute = on_chan_close_init_execute app,
     cb_close_confirm_validate = on_chan_close_confirm_validate,
     cb_close_confirm_execute = on_chan_close_confirm_execute app,
     cb_recv_packet_execute = on_recv_packet_execute app,
     cb_ack_validate = on_acknowledgement_packet_validate app,
     cb_ack_execute = on_acknowledgement_packet_execute app,
     cb_timeout_validate = on_timeout_packet_validate app,
     cb_timeout_execute = on_timeout_packet_execute app\<rparr>"


section \<open>The router\<close>

text \<open>The transfer module holds the events it has collected; nothing in the source ever adds one.
  The router maps ports to module names, and its one route is the transfer module.\<close>

record ('w, 'c, 'args, 'x, 'pkt, 'ack, 'iev) transfer_module =
  tm_app :: "('w, 'c, 'args, 'x, 'pkt, 'ack) transfer_app"
  tm_events :: "'iev list"

definition transfer_module_new ::
  "('w, 'c, 'args, 'x, 'pkt, 'ack) transfer_app \<Rightarrow> ('w, 'c, 'args, 'x, 'pkt, 'ack, 'iev) transfer_module" where
  "transfer_module_new app = \<lparr>tm_app = app, tm_events = []\<rparr>"

record ('w, 'c, 'args, 'x, 'pkt, 'ack, 'iev) ibc_router =
  rt_transfer :: "('w, 'c, 'args, 'x, 'pkt, 'ack, 'iev) transfer_module"
  rt_ports :: "port_id \<Rightarrow> string option"

text \<open>\<open>transfer_module_id\<close> is \<open>MODULE_ID_STR\<close> of the transfer application.\<close>

definition ibc_router_new ::
  "port_id \<Rightarrow> string \<Rightarrow> ('w, 'c, 'args, 'x, 'pkt, 'ack, 'iev) transfer_module \<Rightarrow>
   ('w, 'c, 'args, 'x, 'pkt, 'ack, 'iev) ibc_router" where
  "ibc_router_new transfer_port transfer_module_id transfer =
     \<lparr>rt_transfer = transfer, rt_ports = [transfer_port \<mapsto> transfer_module_id]\<rparr>"

definition get_route ::
  "string \<Rightarrow> ('w, 'c, 'args, 'x, 'pkt, 'ack, 'iev) ibc_router \<Rightarrow> string \<Rightarrow>
   ('w, 'c, 'args, 'x, 'pkt, 'ack) ibc_callbacks option" where
  "get_route transfer_module_id router module_id =
     (if module_id = transfer_module_id then Some (transfer_callbacks (tm_app (rt_transfer router))) else None)"

definition lookup_module ::
  "('w, 'c, 'args, 'x, 'pkt, 'ack, 'iev) ibc_router \<Rightarrow> port_id \<Rightarrow> string option" where
  "lookup_module router port = rt_ports router port"

text \<open>Only the transfer port leads to a module, and it leads to the transfer module.\<close>

lemma transfer_port_routed:
  "Option.bind (lookup_module (ibc_router_new port m t) q) (get_route m (ibc_router_new port m t)) =
     (if q = port then Some (transfer_callbacks (tm_app t)) else None)"
  by (simp add: lookup_module_def ibc_router_new_def get_route_def)

end
