(* ===== verification/Ibc_Module.thy ===== *)
theory Ibc_Module
  imports Ibc_Calls
begin

text \<open>
  The IBC module: \<open>Ibc\<close> of \<open>basecoin/modules/src/ibc/impls.rs\<close>, the part of it that the
  application calls. The entry points \<open>dispatch\<close> and \<open>send_transfer\<close> of \<open>ibc-rs\<close>, its message
  types and their decoding are fields of \<open>ibc_module_env\<close>.
\<close>

section \<open>Data\<close>

text \<open>The fields of a block header that the modules read.\<close>

record 'tm header =
  hd_app_hash :: bytes
  hd_time :: 'tm
  hd_height :: u64
  hd_next_validators_hash :: bytes

record ('w, 'c, 'args, 'x, 'pkt, 'ack, 'iev, 'menv, 'mtr, 'ie, 'ev, 'tcons, 'tm) ibc_module_env =
  me_envelope :: "any \<Rightarrow> 'menv option"
  me_transfer :: "any \<Rightarrow> 'mtr option"
  me_dispatch :: "(port_id \<Rightarrow> string option) \<Rightarrow>
    (string \<Rightarrow> ('w, 'c, 'args, 'x, 'pkt, 'ack) ibc_callbacks option) \<Rightarrow> 'menv \<Rightarrow>
    ('w, 'c, ('ie, unit) outcome) prog"
  me_send_transfer :: "('w, 'c, 'args, 'x, 'pkt, 'ack) ibc_callbacks \<Rightarrow> 'mtr \<Rightarrow>
    ('w, 'c, (string, unit) outcome) prog"
  me_app :: "('w, 'c, 'args, 'x, 'pkt, 'ack) transfer_app"
  me_transfer_port :: port_id
  me_module_id :: string
  me_query_path :: string
  me_event :: "'iev \<Rightarrow> 'ev option"
  me_encode_proof :: "commitment_proof \<Rightarrow> bytes option"
  me_consensus :: "bytes \<Rightarrow> 'tm \<Rightarrow> bytes \<Rightarrow> 'tcons"


section \<open>Construction\<close>

definition ibc_router_of ::
  "('w, 'c, 'args, 'x, 'pkt, 'ack, 'iev, 'menv, 'mtr, 'ie, 'ev, 'tcons, 'tm) ibc_module_env \<Rightarrow>
   ('w, 'c, 'args, 'x, 'pkt, 'ack, 'iev) ibc_router" where
  "ibc_router_of menv =
     ibc_router_new (me_transfer_port menv) (me_module_id menv) (transfer_module_new (me_app menv))"

text \<open>The context starts without consensus states, events and logs.\<close>

definition ibc_new ::
  "(('s, 'tcons, 'iev, 'y) ibc_heap_scheme, 'e, 'z) store_ops_scheme \<Rightarrow>
   ('tcs, 'tcons, 'conn, 'chan, 'ts, 'e) ibc_env \<Rightarrow> ('s, 'tcons, 'iev, 'y) ibc_heap_scheme \<Rightarrow>
   (infallible, unit) outcome \<times> ('s, 'tcons, 'iev, 'y) ibc_heap_scheme" where
  "ibc_new ops env w = ibc_context_new ops env
     (w\<lparr>host_consensus_states := (\<lambda>_. None), ibc_events := [], ibc_logs := []\<rparr>)"


section \<open>Messages\<close>

text \<open>\<open>f\<close> performs the calls of the handlers. An envelope's events are those of the context, all
  that it holds; a transfer's events are those of the transfer module.\<close>

definition process_message ::
  "('c \<Rightarrow> ('s, 'tcons, 'iev, 'y) ibc_heap_scheme \<Rightarrow>
      (host_error, unit) outcome \<times> ('s, 'tcons, 'iev, 'y) ibc_heap_scheme) \<Rightarrow>
   (('s, 'tcons, 'iev, 'y) ibc_heap_scheme, 'c, 'args, 'x, 'pkt, 'ack, 'iev, 'menv, 'mtr, 'ie, 'ev, 'tcons, 'tm)
     ibc_module_env \<Rightarrow> any \<Rightarrow> ('s, 'tcons, 'iev, 'y) ibc_heap_scheme \<Rightarrow>
   (('id, 'ie) app_error, 'iev list) outcome \<times> ('s, 'tcons, 'iev, 'y) ibc_heap_scheme" where
  "process_message f menv message w = (let router = ibc_router_of menv in
     case me_envelope menv message of
       Some msg \<Rightarrow>
         (case run f (me_dispatch menv (lookup_module router) (get_route (me_module_id menv) router) msg) w of
            (r, w) \<Rightarrow> and_then (map_err IbcErr r, w) (\<lambda>_ w. (Ok (ibc_events w), w\<lparr>ibc_events := []\<rparr>)))
     | None \<Rightarrow> (case me_transfer menv message of
         Some transfer_msg \<Rightarrow>
           (case run f (me_send_transfer menv (transfer_callbacks (tm_app (rt_transfer router))) transfer_msg) w of
              (r, w) \<Rightarrow> and_then (map_err Custom r, w) (\<lambda>_ w. (Ok (tm_events (rt_transfer router)), w)))
       | None \<Rightarrow> (Err NotHandled, w)))"

text \<open>Every event is converted, and the result unwrapped.\<close>

definition ibc_deliver ::
  "('c \<Rightarrow> ('s, 'tcons, 'iev, 'y) ibc_heap_scheme \<Rightarrow>
      (host_error, unit) outcome \<times> ('s, 'tcons, 'iev, 'y) ibc_heap_scheme) \<Rightarrow>
   (('s, 'tcons, 'iev, 'y) ibc_heap_scheme, 'c, 'args, 'x, 'pkt, 'ack, 'iev, 'menv, 'mtr, 'ie, 'ev, 'tcons, 'tm)
     ibc_module_env \<Rightarrow> any \<Rightarrow> 'id \<Rightarrow> ('s, 'tcons, 'iev, 'y) ibc_heap_scheme \<Rightarrow>
   (('id, 'ie) app_error, 'ev list) outcome \<times> ('s, 'tcons, 'iev, 'y) ibc_heap_scheme" where
  "ibc_deliver f menv message signer w =
     and_then (process_message f menv message w) (\<lambda>ibc_events w.
       (case those (map (me_event menv) ibc_events) of Some events \<Rightarrow> Ok events | None \<Rightarrow> Panic, w))"


section \<open>Queries and blocks\<close>

definition ibc_module_proof ::
  "('w, 'e, 'z) provable_ops_scheme \<Rightarrow> (commitment_proof \<Rightarrow> bytes option) \<Rightarrow> height \<Rightarrow> path \<Rightarrow> 'w \<Rightarrow>
   bytes option" where
  "ibc_module_proof ops encode_proof h p w = Option.bind (st_get_proof ops h p w) encode_proof"

text \<open>The data and, when asked for, the proof of one path, as both the IBC and the upgrade module
  answer it.\<close>

definition query_path ::
  "('w, 'e, 'z) provable_ops_scheme \<Rightarrow> (commitment_proof \<Rightarrow> bytes option) \<Rightarrow> path \<Rightarrow> height \<Rightarrow> bool \<Rightarrow>
   'w \<Rightarrow> (('id, 'ie) app_error, query_result) outcome" where
  "query_path ops encode_proof p h prove w =
     (let answer = (\<lambda>proof. case st_get ops h p w of
        None \<Rightarrow> Err (Custom ''Data not found'')
      | Some d \<Rightarrow> Ok \<lparr>qr_data = d, qr_proof = proof\<rparr>)
      in if prove then
        (case ibc_module_proof ops encode_proof h p w of
           None \<Rightarrow> Err (Custom ''Proof not found'')
         | Some proof \<Rightarrow> answer (Some [\<lparr>po_field_type = [], po_key = string_bytes (path_to_string p),
             po_data = proof\<rparr>]))
      else answer None)"

definition ibc_query ::
  "(('s, 'tcons, 'iev, 'y) ibc_heap_scheme, 'e, 'z) provable_ops_scheme \<Rightarrow>
   ('tcs, 'tcons, 'conn, 'chan, 'ts, 'e) ibc_env \<Rightarrow>
   (('s, 'tcons, 'iev, 'y) ibc_heap_scheme, 'c, 'args, 'x, 'pkt, 'ack, 'iev, 'menv, 'mtr, 'ie, 'ev, 'tcons, 'tm)
     ibc_module_env \<Rightarrow> bytes \<Rightarrow> path option \<Rightarrow> height \<Rightarrow> bool \<Rightarrow> ('s, 'tcons, 'iev, 'y) ibc_heap_scheme \<Rightarrow>
   (('id, 'ie) app_error, query_result) outcome" where
  "ibc_query ops env menv d path h prove w = (case path of
     None \<Rightarrow> Err NotHandled
   | Some p \<Rightarrow>
       (if path_to_string p \<noteq> me_query_path menv then Err NotHandled
        else (case from_utf8 d of
          Ok s \<Rightarrow> (case to_ibc_path env (path_from_string s) of
              None \<Rightarrow> Err (Custom ''Invalid IBC path'')
            | Some _ \<Rightarrow> query_path ops (me_encode_proof menv) (path_from_string s) h prove w)
        | _ \<Rightarrow> Err (Custom ''Invalid domain path''))))"

definition ibc_begin_block ::
  "(('s, 'tcons, 'iev, 'y) ibc_heap_scheme, 'c, 'args, 'x, 'pkt, 'ack, 'iev, 'menv, 'mtr, 'ie, 'ev, 'tcons, 'tm)
     ibc_module_env \<Rightarrow> 'tm header \<Rightarrow> ('s, 'tcons, 'iev, 'y) ibc_heap_scheme \<Rightarrow>
   (infallible, 'ev list) outcome \<times> ('s, 'tcons, 'iev, 'y) ibc_heap_scheme" where
  "ibc_begin_block menv header w =
     (Ok [], w\<lparr>host_consensus_states := (host_consensus_states w)(hd_height header \<mapsto>
        me_consensus menv (hd_app_hash header) (hd_time header) (hd_next_validators_hash header))\<rparr>)"

text \<open>\<open>a\<close> is the address of the module's store and \<open>b\<close> of the store of the bank keeper.\<close>

definition ibc_module ::
  "(bytes \<Rightarrow> bytes) \<Rightarrow> nat \<Rightarrow> nat \<Rightarrow> ('tcs, 'tcons, 'conn, 'chan, 'ts, infallible) ibc_env \<Rightarrow>
   ('id, 'raw, infallible, 'j) bank_env \<Rightarrow> 'id transfer_env \<Rightarrow>
   ((in_memory, 'tcons, 'iev, 'y) ibc_heap_scheme, ('tcs, 'tcons, 'conn, 'chan, 'ts, 'iev) ibc_call,
     'args, 'x, 'pkt, 'ack, 'iev, 'menv, 'mtr, 'ie, 'ev, 'tcons, 'tm) ibc_module_env \<Rightarrow>
   ((in_memory, 'tcons, 'iev, 'y) ibc_heap_scheme, 'id, 'ie, 'ev, 'tm header, 'j) module_ops" where
  "ibc_module sha a b env benv tenv menv = \<lparr>
     md_check = default_check,
     md_deliver = ibc_deliver (perform sha a b env benv tenv) menv,
     md_init = default_init,
     md_query = ibc_query (ibc_store sha a) env menv,
     md_begin_block = ibc_begin_block menv,
     md_store = a\<rparr>"

end
