(* ===== verification/Ibc_Laws.thy ===== *)
theory Ibc_Laws
  imports Confined Ibc_Module
begin

text \<open>
  What the IBC module keeps, whatever the handlers of \<open>ibc-rs\<close> do. The locale \<open>writer\<close> lifts a
  relation between worlds from the writes of single store entries to all operations built from
  them, \<open>ibc_writer\<close> to all calls of a handler. It is interpreted on three relations: only the
  stores of some addresses change, only pending trees change, and events are only added.
\<close>

section \<open>Relations kept by all writes\<close>

definition rel_closed ::
  "('w \<Rightarrow> 'w \<Rightarrow> bool) \<Rightarrow> ('w \<Rightarrow> ('e, 'a) outcome \<times> 'w) \<Rightarrow> bool" where
  "rel_closed R f \<longleftrightarrow> (\<forall>w r w'. f w = (r, w') \<longrightarrow> R w w')"

lemma rel_closedI: "(\<And>w r w'. f w = (r, w') \<Longrightarrow> R w w') \<Longrightarrow> rel_closed R f"
  by (simp add: rel_closed_def)

lemma rel_closedD: "rel_closed R f \<Longrightarrow> f w = (r, w') \<Longrightarrow> R w w'"
  by (simp add: rel_closed_def)

lemma rel_closed_reader: "(\<And>x. rel_closed R (f x)) \<Longrightarrow> rel_closed R (\<lambda>w. f (g w) w)"
  by (simp add: rel_closed_def)

locale writer =
  fixes sha :: "bytes \<Rightarrow> bytes" and A :: "nat set"
    and R :: "(in_memory, 'y) heap_scheme \<Rightarrow> (in_memory, 'y) heap_scheme \<Rightarrow> bool"
  assumes R_refl: "R w w"
    and R_trans: "R w w1 \<Longrightarrow> R w1 w2 \<Longrightarrow> R w w2"
    and R_set: "a \<in> A \<Longrightarrow> st_set (shared_ops (in_memory_ops sha) a) p v w = (r, w') \<Longrightarrow> R w w'"
    and R_delete: "a \<in> A \<Longrightarrow> st_delete (shared_ops (in_memory_ops sha) a) p w = (q, w') \<Longrightarrow> R w w'"
begin

lemma closed_return: "rel_closed R (\<lambda>w. (g w, w))"
  by (auto intro!: rel_closedI R_refl)

lemma closed_case_prod:
  assumes "rel_closed R g" and "\<And>r. rel_closed R (f r)"
  shows "rel_closed R (\<lambda>w. case g w of (r, w') \<Rightarrow> f r w')"
  using assms unfolding rel_closed_def by (metis R_trans case_prod_conv surj_pair)

lemma closed_and_then:
  assumes m: "rel_closed R m" and f: "\<And>x. rel_closed R (f x)"
  shows "rel_closed R (\<lambda>w. and_then (m w) f)"
proof (rule rel_closedI)
  fix w r w2
  assume eq: "and_then (m w) f = (r, w2)"
  obtain r1 w1 where m1: "m w = (r1, w1)" by (cases "m w")
  note R1 = rel_closedD [OF m m1]
  show "R w w2"
  proof (cases r1)
    case (Ok x)
    then show ?thesis using eq m1 rel_closedD [OF f, of x w1] R_trans [OF R1] by (simp add: and_then_def)
  qed (use eq m1 R1 in \<open>simp_all add: and_then_def\<close>)
qed

lemma closed_expect: "rel_closed R m \<Longrightarrow> rel_closed R (\<lambda>w. expect (m w))"
  unfolding rel_closed_def expect_def by (metis prod.collapse snd_conv)

lemma closed_option:
  "rel_closed R f \<Longrightarrow> (\<And>x. rel_closed R (g x)) \<Longrightarrow> rel_closed R (\<lambda>w. case o' of None \<Rightarrow> f w | Some x \<Rightarrow> g x w)"
  by (cases o') simp_all

lemma closed_set: "a \<in> A \<Longrightarrow> rel_closed R (st_set (shared_ops (in_memory_ops sha) a) p v)"
  using R_set by (rule rel_closedI)

lemma closed_delete: "a \<in> A \<Longrightarrow> rel_closed R (st_delete (shared_ops (in_memory_ops sha) a) p)"
  using R_delete by (rule rel_closedI)

lemmas closed_rules = closed_return closed_case_prod closed_and_then closed_expect closed_option
  closed_set closed_delete

lemma closed_ts_set: "a \<in> A \<Longrightarrow> rel_closed R (ts_set (shared_ops (in_memory_ops sha) a) ty k v)"
  unfolding ts_set_def [abs_def] by (intro closed_rules)

lemma closed_ts_set_path: "a \<in> A \<Longrightarrow> rel_closed R (ts_set_path (shared_ops (in_memory_ops sha) a) ty k)"
  unfolding ts_set_path_def [abs_def] by (intro closed_rules)

lemma closed_ts_delete: "a \<in> A \<Longrightarrow> rel_closed R (ts_delete (shared_ops (in_memory_ops sha) a) ty k)"
  unfolding ts_delete_def [abs_def] by (intro closed_rules)

lemma closed_host_set: "a \<in> A \<Longrightarrow> rel_closed R (host_set (shared_ops (in_memory_ops sha) a) env ty label k v)"
  unfolding host_set_def [abs_def] by (intro closed_rules closed_ts_set)

lemma closed_host_delete: "a \<in> A \<Longrightarrow> rel_closed R (host_delete (shared_ops (in_memory_ops sha) a) ty k)"
  unfolding host_delete_def [abs_def] by (intro closed_rules closed_ts_delete)

lemma closed_store_balances: "b \<in> A \<Longrightarrow> rel_closed R (store_balances (shared_ops (in_memory_ops sha) b) benv who bs)"
  unfolding store_balances_def [abs_def] by (intro closed_rules closed_ts_set)

lemma closed_send_coins:
  "b \<in> A \<Longrightarrow> rel_closed R (send_coins (shared_ops (in_memory_ops sha) b) benv sender receiver amount)"
  unfolding send_coins_def [abs_def] Let_def case_prod_unfold by (intro closed_rules closed_store_balances)

lemma closed_mint_coins: "b \<in> A \<Longrightarrow> rel_closed R (mint_coins (shared_ops (in_memory_ops sha) b) benv who amount)"
  unfolding mint_coins_def [abs_def] Let_def by (intro closed_rules closed_store_balances)

lemma closed_burn_coins: "b \<in> A \<Longrightarrow> rel_closed R (burn_coins (shared_ops (in_memory_ops sha) b) benv who amount)"
  unfolding burn_coins_def [abs_def] Let_def by (intro closed_rules closed_store_balances)

lemma closed_context_new:
  assumes "a \<in> A"
  shows "rel_closed R (ibc_context_new (shared_ops (in_memory_ops sha) a) env)"
  unfolding ibc_context_new_def [abs_def] by (intro closed_return closed_and_then closed_expect closed_ts_set assms)

lemma closed_token_methods:
  assumes "b \<in> A"
  shows "rel_closed R (escrow_coins_execute (shared_ops (in_memory_ops sha) b) benv tenv who port chan coin)"
    and "rel_closed R (unescrow_coins_execute (shared_ops (in_memory_ops sha) b) benv tenv who port chan coin)"
    and "rel_closed R (mint_coins_execute (shared_ops (in_memory_ops sha) b) benv tenv who coin)"
    and "rel_closed R (burn_coins_execute (shared_ops (in_memory_ops sha) b) benv tenv who coin)"
  unfolding escrow_coins_execute_def [abs_def] unescrow_coins_execute_def [abs_def]
    mint_coins_execute_def [abs_def] burn_coins_execute_def [abs_def]
  by (intro closed_rules closed_send_coins closed_mint_coins closed_burn_coins assms)+

lemma closed_perform_token:
  "b \<in> A \<Longrightarrow> rel_closed R (perform_token (shared_ops (in_memory_ops sha) b) benv tenv c)"
  by (cases c) (simp_all only: perform_token.simps closed_token_methods)

end


section \<open>Relations kept by all handlers\<close>

locale ibc_writer = writer sha A R
  for sha :: "bytes \<Rightarrow> bytes" and A :: "nat set"
    and R :: "(in_memory, 'tcons, 'iev, 'y) ibc_heap_scheme \<Rightarrow> (in_memory, 'tcons, 'iev, 'y) ibc_heap_scheme \<Rightarrow> bool" +
  assumes R_emit: "R w (w\<lparr>ibc_events := ibc_events w @ [ev]\<rparr>)"
    and R_log: "R w (w\<lparr>ibc_logs := ibc_logs w @ [m]\<rparr>)"
begin

lemma closed_counters:
  assumes "a \<in> A"
  shows "rel_closed R (increase_client_counter (ibc_store sha a) env)"
    and "rel_closed R (increase_connection_counter (ibc_store sha a) env)"
    and "rel_closed R (increase_channel_counter (ibc_store sha a) env)"
  unfolding increase_client_counter_def [abs_def] increase_connection_counter_def [abs_def]
    increase_channel_counter_def [abs_def]
  by (intro closed_rules closed_host_set assms)+

lemma closed_setters:
  assumes "a \<in> A"
  shows "rel_closed R (store_connection (ibc_store sha a) env c e)"
    and "rel_closed R (store_packet_commitment (ibc_store sha a) env port chan seq x)"
    and "rel_closed R (delete_packet_commitment (ibc_store sha a) env port chan seq)"
    and "rel_closed R (store_packet_acknowledgement (ibc_store sha a) env port chan seq x)"
    and "rel_closed R (delete_packet_acknowledgement (ibc_store sha a) env port chan seq)"
    and "rel_closed R (store_channel (ibc_store sha a) env port chan ch)"
    and "rel_closed R (store_next_sequence_send (ibc_store sha a) env port chan seq)"
    and "rel_closed R (store_next_sequence_recv (ibc_store sha a) env port chan seq)"
    and "rel_closed R (store_next_sequence_ack (ibc_store sha a) env port chan seq)"
    and "rel_closed R (store_client_state (ibc_store sha a) env client cs)"
    and "rel_closed R (store_consensus_state (ibc_store sha a) env path cons)"
    and "rel_closed R (delete_consensus_state (ibc_store sha a) env path)"
  unfolding method_defs [abs_def]
  by (intro closed_host_set closed_host_delete assms)+

lemma closed_compound:
  assumes "a \<in> A"
  shows "rel_closed R (store_packet_receipt (ibc_store sha a) env port chan seq)"
    and "rel_closed R (store_update_meta (ibc_store sha a) env client height t now)"
    and "rel_closed R (delete_update_meta (ibc_store sha a) env client height)"
  unfolding store_packet_receipt_def [abs_def] store_update_meta_def [abs_def] delete_update_meta_def [abs_def]
  by (intro closed_rules closed_ts_set_path closed_host_set closed_host_delete assms)+

lemma closed_connection_ids:
  "a \<in> A \<Longrightarrow> rel_closed R (store_connection_to_client (ibc_store sha a) env client c)"
  unfolding store_connection_to_client_def [abs_def] Let_def
  by (rule rel_closed_reader) (rule closed_host_set)

lemma closed_output: "rel_closed R (emit_ibc_event ev)" "rel_closed R (log_message m)"
  by (auto simp: rel_closed_def emit_ibc_event_def log_message_def R_emit R_log)

lemma closed_perform_host:
  assumes "a \<in> A"
  shows "rel_closed R (perform_host (ibc_store sha a) env c)"
  by (cases c) (simp_all only: perform_host.simps closed_counters [OF assms] closed_setters [OF assms]
      closed_compound [OF assms] closed_connection_ids [OF assms] closed_output)

lemma closed_perform:
  assumes "a \<in> A" and "b \<in> A"
  shows "rel_closed R (perform sha a b env benv tenv c)"
  unfolding perform_def
  by (cases c) (simp_all only: sum.case closed_perform_host [OF assms(1)] closed_perform_token [OF assms(2)])

lemma closed_run:
  assumes "a \<in> A" and "b \<in> A"
  shows "rel_closed R (run (perform sha a b env benv tenv) p)"
proof -
  have "caller (perform sha a b env benv tenv) R"
    by unfold_locales (rule R_refl, erule R_trans, assumption, erule rel_closedD [OF closed_perform [OF assms]])
  then show ?thesis by (intro rel_closedI) (rule caller.R_run)
qed

end


section \<open>The three relations\<close>

text \<open>Nothing but the stores at the addresses \<open>A\<close> changes.\<close>

interpretation frame: ibc_writer sha A "\<lambda>w w'. \<forall>c. c \<notin> A \<longrightarrow> cell w' c = cell w c" for sha A
  by unfold_locales (auto simp: write_access_def split: prod.splits)

text \<open>Nothing but the pending trees of these stores changes.\<close>

lemma confined_rel_closed: "confined sha A f \<longleftrightarrow> rel_closed (\<lambda>w w'. heap_ok sha w \<longrightarrow> pending_only sha A w w') f"
  by (auto simp: confined_def rel_closed_def)

lemma pending_only_same_cells:
  "cell w' = cell w \<Longrightarrow> heap_ok sha w \<Longrightarrow> pending_only sha A w w'"
  by (simp add: pending_only_def heap_ok_def)

lemma confined_same_cells [confined_intros]:
  "(\<And>w. cell (g w) = cell w) \<Longrightarrow> confined sha A (\<lambda>w. (r w, g w))"
  by (rule confinedI) (auto intro: pending_only_same_cells)

interpretation cells: writer sha A "\<lambda>w w'. heap_ok sha w \<longrightarrow> pending_only sha A w w'" for sha A
proof (unfold_locales, goal_cases)
  case (2 w w1 w2)
  then show ?case using pending_only_trans [of sha A w w1 w2] by (auto simp: pending_only_def)
next
  case (3 a p v w r w')
  then show ?case using confinedD [OF confined_st_set] by blast
next
  case (4 a p w q w')
  then show ?case using confinedD [OF confined_st_delete] by blast
qed (auto intro: pending_only_refl)

interpretation pending: ibc_writer sha A "\<lambda>w w'. heap_ok sha w \<longrightarrow> pending_only sha A w w'" for sha A
  by unfold_locales (auto intro: pending_only_same_cells)

text \<open>Events are only added, and the host's consensus states stay.\<close>

definition outputs_only_added ::
  "(in_memory, 'tcons, 'iev, 'y) ibc_heap_scheme \<Rightarrow> (in_memory, 'tcons, 'iev, 'y) ibc_heap_scheme \<Rightarrow> bool" where
  "outputs_only_added w w' \<longleftrightarrow> (\<exists>evs. ibc_events w' = ibc_events w @ evs) \<and>
     host_consensus_states w' = host_consensus_states w"

interpretation outputs: ibc_writer sha UNIV outputs_only_added for sha
proof (unfold_locales, goal_cases)
  case (2 w w1 w2)
  then show ?case by (auto simp: outputs_only_added_def)
qed (auto simp: outputs_only_added_def write_access_def split: prod.splits)


section \<open>The IBC module is confined\<close>

lemma confined_run [confined_intros]:
  "a \<in> A \<Longrightarrow> b \<in> A \<Longrightarrow> confined sha A (run (perform sha a b env benv tenv) p)"
  unfolding confined_rel_closed by (rule pending.closed_run)

lemma ibc_module_confined:
  assumes "a \<in> A" and "b \<in> A"
  shows "module_confined sha A (ibc_module sha a b env benv tenv menv)"
  unfolding module_confined_def ibc_module_def module_ops.simps ibc_deliver_def [abs_def]
    process_message_def [abs_def] ibc_begin_block_def [abs_def] default_init_def [abs_def] Let_def
  by (intro conjI allI confined_intros assms) simp_all


section \<open>Handlers keep the guarantees of the host\<close>

lemma perform_host_view:
  assumes env: "ibc_env_ok env" and w: "im_ok sha (cell w a)"
    and "perform_host (ibc_store sha a) env c w = (r, w')"
  shows "im_ok sha (cell w' a) \<and> view_steps env (ibc_view (ibc_store sha a) env w) (ibc_view (ibc_store sha a) env w')"
proof (rule host.ctx_step_refines [OF env _ w])
  show "ctx_step (ibc_store sha a) env w w'" using assms(3) by (cases c) (auto intro: ctx_step.intros)
qed

lemma perform_view:
  fixes w :: "(in_memory, 'tcons, 'iev, 'y) ibc_heap_scheme"
  assumes env: "ibc_env_ok env" and "a \<noteq> b" and w: "im_ok sha (cell w a)"
    and "perform sha a b env benv tenv c w = (r, w')"
  shows "im_ok sha (cell w' a) \<and> view_steps env (ibc_view (ibc_store sha a) env w) (ibc_view (ibc_store sha a) env w')"
proof (cases c)
  case (Inl call)
  then show ?thesis using perform_host_view [OF env w] assms(4) by (simp add: perform_def)
next
  case (Inr call)
  have "cell w' a = cell w a"
    using rel_closedD [OF frame.closed_perform_token [of b "{b}"]] assms(2,4) Inr by (fastforce simp: perform_def)
  then show ?thesis using w by (simp add: ibc_view_def [abs_def] read_access_def)
qed

lemma run_view:
  fixes w :: "(in_memory, 'tcons, 'iev, 'y) ibc_heap_scheme"
  assumes env: "ibc_env_ok env" and "a \<noteq> b" and w: "im_ok sha (cell w a)"
    and run: "run (perform sha a b env benv tenv) p w = (r, w')"
  shows "im_ok sha (cell w' a) \<and> view_steps env (ibc_view (ibc_store sha a) env w) (ibc_view (ibc_store sha a) env w')"
proof -
  let ?R = "\<lambda>(w :: (in_memory, 'tcons, 'iev, 'y) ibc_heap_scheme) w'. im_ok sha (cell w a) \<longrightarrow> im_ok sha (cell w' a) \<and>
    view_steps env (ibc_view (ibc_store sha a) env w) (ibc_view (ibc_store sha a) env w')"
  have "caller (perform sha a b env benv tenv) ?R"
  proof (unfold_locales, goal_cases)
    case (1 w)
    show ?case by simp
  next
    case (2 w w1 w2)
    then show ?case using rtranclp_trans by fastforce
  next
    case (3 c w r w')
    then show ?case using perform_view [OF env assms(2) _ 3] by simp
  qed
  from caller.R_run [OF this run] show ?thesis using w by simp
qed

end
