(* ===== verification/Ibc_Counters.thy ===== *)
theory Ibc_Counters
  imports Ibc_Laws
begin

text \<open>
  The counters of the IBC host count the calls that increase them: what a handler leaves in the
  counters of clients, connections and channels is fixed by the calls it makes. \<open>leaves\<close> is the
  frame of a method: the paths of the host that it does not write.
\<close>

section \<open>The paths a method leaves alone\<close>

named_theorems leaves_intros

definition leaves ::
  "('w, 'e, 'z) store_ops_scheme \<Rightarrow> ('w \<Rightarrow> bool) \<Rightarrow> ('tcs, 'tcons, 'conn, 'chan, 'ts, 'e) ibc_env \<Rightarrow>
   ibc_path set \<Rightarrow> ('w \<Rightarrow> ('f, 'a) outcome \<times> 'w) \<Rightarrow> bool" where
  "leaves ops invar env A f \<longleftrightarrow> (\<forall>w r w'. invar w \<longrightarrow> f w = (r, w') \<longrightarrow>
     invar w' \<and> (\<forall>p \<in> A. ibc_view ops env w' p = ibc_view ops env w p))"

lemma leavesI:
  "(\<And>w r w'. invar w \<Longrightarrow> f w = (r, w') \<Longrightarrow>
      invar w' \<and> (\<forall>p \<in> A. ibc_view ops env w' p = ibc_view ops env w p)) \<Longrightarrow> leaves ops invar env A f"
  by (simp add: leaves_def)

lemma leavesD:
  "leaves ops invar env A f \<Longrightarrow> invar w \<Longrightarrow> f w = (r, w') \<Longrightarrow>
     invar w' \<and> (\<forall>p \<in> A. ibc_view ops env w' p = ibc_view ops env w p)"
  by (simp add: leaves_def)

lemma leaves_return [leaves_intros]: "leaves ops invar env A (\<lambda>w. (g w, w))"
  by (auto intro!: leavesI)

lemma leaves_and_then [leaves_intros]:
  assumes m: "leaves ops invar env A m" and f: "\<And>x. leaves ops invar env A (f x)"
  shows "leaves ops invar env A (\<lambda>w. and_then (m w) f)"
proof (rule leavesI)
  fix w r w2
  assume w: "invar w" and eq: "and_then (m w) f = (r, w2)"
  obtain r1 w1 where m1: "m w = (r1, w1)" by (cases "m w")
  note s1 = leavesD [OF m w m1]
  show "invar w2 \<and> (\<forall>p \<in> A. ibc_view ops env w2 p = ibc_view ops env w p)"
  proof (cases r1)
    case (Ok x)
    then have "f x w1 = (r, w2)" using eq m1 by simp
    from leavesD [OF f conjunct1 [OF s1] this] show ?thesis using s1 by simp
  qed (use s1 eq m1 in auto)
qed

lemma leaves_reader: "(\<And>x. leaves ops invar env A (f x)) \<Longrightarrow> leaves ops invar env A (\<lambda>w. f (g w) w)"
  by (simp add: leaves_def)

context host_store
begin

lemma leaves_set [leaves_intros]:
  assumes env: "ibc_env_ok env" and "con k \<notin> A"
  shows "leaves ops invar env A (host_set ops env (ibc_typed env con c) label k v)"
proof (rule leavesI)
  fix w r w'
  assume w: "invar w" and eq: "host_set ops env (ibc_typed env con c) label k v w = (r, w')"
  show "invar w' \<and> (\<forall>p \<in> A. ibc_view ops env w' p = ibc_view ops env w p)"
  proof (cases "encode c v")
    case None
    then have "w' = w" using eq by (simp add: host_set_def ts_set_def ibc_typed_def)
    then show ?thesis using w by simp
  next
    case (Some bs)
    obtain w1 where "host_set ops env (ibc_typed env con c) label k v w = (Ok (), w1)" "invar w1"
      "ibc_view ops env w1 = (ibc_view ops env w)(con k := Some bs)"
      by (rule host_set_view [OF env w Some])
    then show ?thesis using eq assms(2) by auto
  qed
qed

lemma leaves_delete [leaves_intros]:
  assumes env: "ibc_env_ok env" and "con k \<notin> A"
  shows "leaves ops invar env A (host_delete ops (ibc_typed env con c) k)"
proof (rule leavesI)
  fix w r w'
  assume w: "invar w" and eq: "host_delete ops (ibc_typed env con c) k w = (r, w')"
  obtain w1 where "host_delete ops (ibc_typed env con c) k w = (Ok (), w1)" "invar w1"
    "ibc_view ops env w1 = (ibc_view ops env w)(con k := None)"
    by (rule host_delete_view [OF env w])
  then show "invar w' \<and> (\<forall>p \<in> A. ibc_view ops env w' p = ibc_view ops env w p)"
    using eq assms(2) by auto
qed

lemma leaves_receipt:
  assumes env: "ibc_env_ok env" and "ReceiptPath port chan seq \<notin> A"
  shows "leaves ops invar env A (store_packet_receipt ops env port chan seq)"
proof (rule leavesI)
  fix w r w'
  assume w: "invar w" and eq: "store_packet_receipt ops env port chan seq w = (r, w')"
  show "invar w' \<and> (\<forall>p \<in> A. ibc_view ops env w' p = ibc_view ops env w p)"
    by (rule store_receipt_view [OF env w, of port chan seq]) (use eq assms(2) in auto)
qed

end


section \<open>Calls and counters\<close>

fun counter_call :: "ibc_path \<Rightarrow> ('tcs, 'tcons, 'conn, 'chan, 'ts, 'iev) host_call option" where
  "counter_call NextClientSequencePath = Some IncreaseClientCounter"
| "counter_call NextConnectionSequencePath = Some IncreaseConnectionCounter"
| "counter_call NextChannelSequencePath = Some IncreaseChannelCounter"
| "counter_call p = None"

abbreviation counter_paths :: "ibc_path set" where
  "counter_paths \<equiv> {NextClientSequencePath, NextConnectionSequencePath, NextChannelSequencePath}"

lemmas increase_defs = increase_client_counter_def increase_connection_counter_def increase_channel_counter_def
  client_counter_def connection_counter_def channel_counter_def

context host_store
begin

lemma increase_leaves:
  assumes "ibc_env_ok env"
  shows "leaves ops invar env (- {NextClientSequencePath}) (increase_client_counter ops env)"
    and "leaves ops invar env (- {NextConnectionSequencePath}) (increase_connection_counter ops env)"
    and "leaves ops invar env (- {NextChannelSequencePath}) (increase_channel_counter ops env)"
  unfolding increase_defs [abs_def] client_counter_ty_def conn_counter_ty_def channel_counter_ty_def
  by (intro leaves_intros assms; simp)+

lemma increase_count:
  assumes "ibc_env_ok env" and "invar w" and "ty = ibc_typed env (\<lambda>_::unit. p) (json_of (ie_u64 env))"
    and "decode_u64 env (ibc_view ops env w p) = Some n"
    and "and_then (host_get ops ty missing () w, w) (\<lambda>n. host_set ops env ty label () (n + 1)) = (r, w')"
  shows "r = Ok () \<and> decode_u64 env (ibc_view ops env w' p) = Some (n + 1)"
  by (rule increase_view [OF assms(1-4), of missing label]) (use assms(5) in simp)

lemma increase_counts:
  assumes "ibc_env_ok env" and "invar w"
  shows "decode_u64 env (ibc_view ops env w NextClientSequencePath) = Some n \<Longrightarrow>
      increase_client_counter ops env w = (r, w') \<Longrightarrow>
      r = Ok () \<and> decode_u64 env (ibc_view ops env w' NextClientSequencePath) = Some (n + 1)"
    and "decode_u64 env (ibc_view ops env w NextConnectionSequencePath) = Some n \<Longrightarrow>
      increase_connection_counter ops env w = (r, w') \<Longrightarrow>
      r = Ok () \<and> decode_u64 env (ibc_view ops env w' NextConnectionSequencePath) = Some (n + 1)"
    and "decode_u64 env (ibc_view ops env w NextChannelSequencePath) = Some n \<Longrightarrow>
      increase_channel_counter ops env w = (r, w') \<Longrightarrow>
      r = Ok () \<and> decode_u64 env (ibc_view ops env w' NextChannelSequencePath) = Some (n + 1)"
  unfolding increase_defs
  by (rule increase_count [OF assms client_counter_ty_def] increase_count [OF assms conn_counter_ty_def]
      increase_count [OF assms channel_counter_ty_def]; assumption)+

text \<open>Every other method leaves the three counters alone.\<close>

lemma records_leave:
  assumes env: "ibc_env_ok env"
  shows "leaves ops invar env counter_paths (store_connection ops env conn_id conn)"
    and "leaves ops invar env counter_paths (store_packet_commitment ops env port chan seq commitment)"
    and "leaves ops invar env counter_paths (delete_packet_commitment ops env port chan seq)"
    and "leaves ops invar env counter_paths (store_packet_acknowledgement ops env port chan seq ack)"
    and "leaves ops invar env counter_paths (delete_packet_acknowledgement ops env port chan seq)"
    and "leaves ops invar env counter_paths (store_channel ops env port chan chan_end)"
    and "leaves ops invar env counter_paths (store_next_sequence_send ops env port chan seq)"
    and "leaves ops invar env counter_paths (store_next_sequence_recv ops env port chan seq)"
    and "leaves ops invar env counter_paths (store_next_sequence_ack ops env port chan seq)"
    and "leaves ops invar env counter_paths (store_client_state ops env client cs)"
    and "leaves ops invar env counter_paths (store_consensus_state ops env path cons)"
    and "leaves ops invar env counter_paths (delete_consensus_state ops env path)"
    and "leaves ops invar env counter_paths (store_update_meta ops env client height timestamp now)"
    and "leaves ops invar env counter_paths (delete_update_meta ops env client height)"
  unfolding method_defs [abs_def] ibc_ty_defs
  by (intro leaves_intros env; auto split: prod.splits)+

lemma connection_ids_leave:
  assumes env: "ibc_env_ok env"
  shows "leaves ops invar env counter_paths (store_connection_to_client ops env client conn_id)"
  unfolding method_defs [abs_def] Let_def
  by (rule leaves_reader) (auto simp: connection_ids_ty_def intro!: leaves_intros env)

lemma output_leaves:
  "leaves ops invar env counter_paths (emit_ibc_event event)"
  "leaves ops invar env counter_paths (log_message message)"
  by (auto simp: leaves_def emit_ibc_event_def log_message_def ibc_view_def [abs_def]
      events_invar events_get logs_invar logs_get)

lemma receipt_leaves:
  "ibc_env_ok env \<Longrightarrow> leaves ops invar env counter_paths (store_packet_receipt ops env port chan seq)"
  by (rule leaves_receipt) simp_all

lemmas methods_leave = records_leave connection_ids_leave receipt_leaves

lemma perform_host_counter:
  assumes env: "ibc_env_ok env" and w: "invar w" and p: "p \<in> counter_paths"
    and n: "decode_u64 env (ibc_view ops env w p) = Some n" and run: "perform_host ops env c w = (r, w')"
  shows "invar w' \<and> decode_u64 env (ibc_view ops env w' p) = Some (n + (if Some c = counter_call p then 1 else 0))"
proof (cases "Some c = counter_call p")
  case True
  then show ?thesis
    using p n run increase_counts [OF env w] increase_leaves [OF env] by (auto dest: leavesD [where invar = invar and w = w, OF _ w])
next
  case False
  have "invar w' \<and> ibc_view ops env w' p = ibc_view ops env w p"
  proof (cases "c \<in> {IncreaseClientCounter, IncreaseConnectionCounter, IncreaseChannelCounter}")
    case True
    then show ?thesis using False p run increase_leaves [OF env] by (auto dest: leavesD [where invar = invar and w = w, OF _ w])
  next
    case other: False
    have "leaves ops invar env counter_paths (perform_host ops env c)"
      using other by (cases c) (simp_all add: methods_leave [OF env] output_leaves)
    then show ?thesis using p run by (auto dest: leavesD [where invar = invar and w = w, OF _ w])
  qed
  then show ?thesis using n False by simp
qed

end

text \<open>The calls that the run of a handler makes, in order.\<close>

primrec calls_of ::
  "('c \<Rightarrow> 'w \<Rightarrow> (host_error, unit) outcome \<times> 'w) \<Rightarrow> ('w, 'c, 'a) prog \<Rightarrow> 'w \<Rightarrow> 'c list" where
  "calls_of f (Done r) = (\<lambda>w. [])"
| "calls_of f (Read k) = (\<lambda>w. calls_of f (k w) w)"
| "calls_of f (Call c k) = (\<lambda>w. c # (case f c w of
     (Panic, w') \<Rightarrow> []
   | (Diverge, w') \<Rightarrow> []
   | (r, w') \<Rightarrow> calls_of f (k r) w'))"

lemma perform_counter:
  fixes w :: "(in_memory, 'tcons, 'iev, 'y) ibc_heap_scheme"
  assumes env: "ibc_env_ok env" and "a \<noteq> b" and w: "im_ok sha (cell w a)" and p: "p \<in> counter_paths"
    and n: "decode_u64 env (ibc_view (ibc_store sha a) env w p) = Some n"
    and run: "perform sha a b env benv tenv c w = (r, w')"
  shows "im_ok sha (cell w' a) \<and> decode_u64 env (ibc_view (ibc_store sha a) env w' p) =
    Some (n + (if map_option Inl (counter_call p) = Some c then 1 else 0))"
proof (cases c)
  case (Inl call)
  then have "perform_host (ibc_store sha a) env call w = (r, w')" using run by (simp add: perform_def)
  from host.perform_host_counter [OF env w p n this] show ?thesis by (cases "counter_call p") (auto simp: Inl)
next
  case (Inr call)
  have "cell w' a = cell w a"
    using rel_closedD [OF frame.closed_perform_token [of b "{b}"]] assms(2) run Inr by (fastforce simp: perform_def)
  then show ?thesis using w n Inr by (auto simp: ibc_view_def read_access_def)
qed

lemma run_counter:
  fixes w :: "(in_memory, 'tcons, 'iev, 'y) ibc_heap_scheme"
  assumes env: "ibc_env_ok env" and "a \<noteq> b" and p: "p \<in> counter_paths" and "counter_call p = Some c"
    and "im_ok sha (cell w a)" and "decode_u64 env (ibc_view (ibc_store sha a) env w p) = Some n"
    and "run (perform sha a b env benv tenv) q w = (r, w')"
  shows "decode_u64 env (ibc_view (ibc_store sha a) env w' p) =
    Some (n + word_of_nat (count_list (calls_of (perform sha a b env benv tenv) q w) (Inl c)))"
  using assms(5-)
proof (induction q arbitrary: w n)
  case (Call d k)
  obtain r1 w1 where d: "perform sha a b env benv tenv d w = (r1, w1)" by fastforce
  note w1 = perform_counter [OF env assms(2) Call.prems(1) p Call.prems(2) d, unfolded assms(4)]
  show ?case
  proof (cases "r1 = Panic \<or> r1 = Diverge")
    case True
    then show ?thesis using Call.prems(3) d w1 by auto
  next
    case False
    then have "run (perform sha a b env benv tenv) (k r1) w1 = (r, w')"
      and calls: "calls_of (perform sha a b env benv tenv) (Call d k) w =
        d # calls_of (perform sha a b env benv tenv) (k r1) w1"
      using Call.prems(3) d by (cases r1; simp)+
    from Call.IH [OF rangeI conjunct1 [OF w1] conjunct2 [OF w1] this(1)] show ?thesis
      unfolding calls by (auto simp: algebra_simps)
  qed
qed auto


section \<open>Property\<close>

text \<open>
  C23. The counters of clients, connections and channels count exactly the calls that increase
  them: whatever handler of the IBC module runs, and whatever else it calls in whatever order,
  each counter ends at its old value plus the number of calls of its own method, modulo
  \<open>2 ^ 64\<close>; nothing decreases it, resets it or increases another one instead. So of fewer than
  \<open>2 ^ 64\<close> identifiers drawn from a counter no two are equal.
\<close>

theorem counters_count_calls:
  fixes w :: "(in_memory, 'tcons, 'iev, 'y) ibc_heap_scheme"
  assumes env: "ibc_env_ok env" and "a \<noteq> b" and w: "im_ok sha (cell w a)"
    and run: "run (perform sha a b env benv tenv) handler w = (r, w')"
    and calls: "calls = calls_of (perform sha a b env benv tenv) handler w"
  shows "(client_counter (ibc_store sha a) env w = Ok n \<longrightarrow>
       client_counter (ibc_store sha a) env w' =
         Ok (n + word_of_nat (count_list calls (Inl IncreaseClientCounter)))) \<and>
     (connection_counter (ibc_store sha a) env w = Ok n \<longrightarrow>
       connection_counter (ibc_store sha a) env w' =
         Ok (n + word_of_nat (count_list calls (Inl IncreaseConnectionCounter)))) \<and>
     (channel_counter (ibc_store sha a) env w = Ok n \<longrightarrow>
       channel_counter (ibc_store sha a) env w' =
         Ok (n + word_of_nat (count_list calls (Inl IncreaseChannelCounter))))"
  unfolding counter_view calls
  by (intro conjI impI; rule run_counter [OF env assms(2) _ _ w _ run]; simp)


section \<open>Witness\<close>

text \<open>A handler that increases two counters, one of them twice, in a new context.\<close>

definition demo_handler :: "((in_memory, unit, unit, 'y) ibc_heap_scheme,
    (unit, unit, unit, unit, u64, unit) ibc_call, (string, unit) outcome) prog" where
  "demo_handler = Call (Inl IncreaseClientCounter) (\<lambda>_. Call (Inl IncreaseChannelCounter)
     (\<lambda>_. Call (Inl IncreaseClientCounter) (\<lambda>_. Done (Ok ()))))"

abbreviation demo_perform where
  "demo_perform \<equiv> perform id 0 2 demo_ienv test_env demo_tenv"

abbreviation demo_count :: "(in_memory, unit, unit) ibc_heap \<Rightarrow> ibc_path \<Rightarrow> u64 option" where
  "demo_count w p \<equiv> decode_u64 demo_ienv (ibc_view (ibc_store id 0) demo_ienv w p)"

lemma demo_increase:
  assumes w: "im_ok id (cell w 0)" and n: "demo_count w NextClientSequencePath = Some n"
    "demo_count w NextChannelSequencePath = Some m" and c: "c \<in> {IncreaseClientCounter, IncreaseChannelCounter}"
  obtains w' where "demo_perform (Inl c) w = (Ok (), w')" and "im_ok id (cell w' 0)"
    and "demo_count w' NextClientSequencePath \<noteq> None" and "demo_count w' NextChannelSequencePath \<noteq> None"
proof -
  obtain r w' where run: "demo_perform (Inl c) w = (r, w')" by fastforce
  have "r = Ok ()"
    using run n c host.increase_counts [OF demo_ienv_ok w] by (auto simp: perform_def)
  then show ?thesis
    using that run perform_counter [OF demo_ienv_ok _ w _ n(1) run] perform_counter [OF demo_ienv_ok _ w _ n(2) run] by simp
qed

theorem counters_count_calls_witness:
  "\<exists>w1 w2. ibc_context_new (ibc_store id 0) demo_ienv demo_iworld = (Ok (), w1) \<and>
     run demo_perform demo_handler w1 = (Ok (), w2) \<and>
     client_counter (ibc_store id 0) demo_ienv w2 = Ok 2 \<and>
     connection_counter (ibc_store id 0) demo_ienv w2 = Ok 0 \<and>
     channel_counter (ibc_store id 0) demo_ienv w2 = Ok 1"
proof -
  obtain w1 where w1: "ibc_context_new (ibc_store id 0) demo_ienv demo_iworld = (Ok (), w1)" "im_ok id (cell w1 0)"
    "client_counter (ibc_store id 0) demo_ienv w1 = Ok 0" "connection_counter (ibc_store id 0) demo_ienv w1 = Ok 0"
    "channel_counter (ibc_store id 0) demo_ienv w1 = Ok 0"
    by (rule host.context_new_ok [OF demo_ienv_ok demo_iworld_ok])
  note n1 = w1(3,5) [unfolded counter_view]
  obtain w2 where w2: "demo_perform (Inl IncreaseClientCounter) w1 = (Ok (), w2)" "im_ok id (cell w2 0)"
    "demo_count w2 NextClientSequencePath \<noteq> None" "demo_count w2 NextChannelSequencePath \<noteq> None"
    by (rule demo_increase [OF w1(2) n1 insertI1]) (rule that)
  obtain n m where n2: "demo_count w2 NextClientSequencePath = Some n" "demo_count w2 NextChannelSequencePath = Some m"
    using w2(3,4) by auto
  obtain w3 where w3: "demo_perform (Inl IncreaseChannelCounter) w2 = (Ok (), w3)" "im_ok id (cell w3 0)"
    "demo_count w3 NextClientSequencePath \<noteq> None" "demo_count w3 NextChannelSequencePath \<noteq> None"
    by (rule demo_increase [OF w2(2) n2 insertI2 [OF singletonI]]) (rule that)
  obtain n' m' where n3: "demo_count w3 NextClientSequencePath = Some n'" "demo_count w3 NextChannelSequencePath = Some m'"
    using w3(3,4) by auto
  obtain w4 where w4: "demo_perform (Inl IncreaseClientCounter) w3 = (Ok (), w4)"
    by (rule demo_increase [OF w3(2) n3 insertI1]) (rule that)
  have run: "run demo_perform demo_handler w1 = (Ok (), w4)"
    and calls: "[Inl IncreaseClientCounter, Inl IncreaseChannelCounter, Inl IncreaseClientCounter] =
      calls_of demo_perform demo_handler w1"
    by (simp_all add: demo_handler_def w2(1) w3(1) w4)
  show ?thesis
    using w1(1) run counters_count_calls [OF demo_ienv_ok _ w1(2) run calls, of 0] w1(3-5) by auto
qed

end
