(* ===== verification/App_Safety.thy ===== *)
theory App_Safety
  imports Confined
begin

text \<open>
  The application over in-memory stores: transactions are atomic over all modules, the
  application hash authenticates every module store, and what the ABCI methods do to the
  genesis state and to a block proposal. The locale \<open>confined_app\<close> is what these facts need of
  an application; it is interpreted on the application with the auth and bank modules, put
  together as in \<open>basecoin/src/runner.rs\<close>.
\<close>

section \<open>Loops over the modules\<close>

abbreviation addr :: "('w, 'id, 'ie, 'ev, 'h, 'j) identified_module \<Rightarrow> nat" where
  "addr m \<equiv> md_store (mod_ops m)"

text \<open>\<open>rolled_back A w\<close>: the cells in \<open>A\<close> with the pending tree replaced by the staged one;
  \<open>applied A w\<close>: the other way round.\<close>

definition rolled_back :: "nat set \<Rightarrow> (in_memory, 'y) heap_scheme \<Rightarrow> nat \<Rightarrow> in_memory" where
  "rolled_back A w b = (if b \<in> A then (cell w b)\<lparr>im_pending := im_staged (cell w b)\<rparr> else cell w b)"

definition applied :: "nat set \<Rightarrow> (in_memory, 'y) heap_scheme \<Rightarrow> nat \<Rightarrow> in_memory" where
  "applied A w b = (if b \<in> A then (cell w b)\<lparr>im_staged := im_pending (cell w b)\<rparr> else cell w b)"

lemma shared_reset:
  "st_reset (shared_ops (in_memory_ops sha) a) w = (Ok (), w\<lparr>cell := rolled_back {a} w\<rparr>)"
  by (auto simp: write_access_def im_reset_def rolled_back_def fun_eq_iff intro!: heap.fold_congs)

lemma shared_apply:
  "st_apply (shared_ops (in_memory_ops sha) a) w = (Ok (), w\<lparr>cell := applied {a} w\<rparr>)"
  by (auto simp: write_access_def im_apply_def applied_def fun_eq_iff intro!: heap.fold_congs)

lemma reset_modules_ok:
  "reset_modules (in_memory_ops sha) ms w = (Ok (), w\<lparr>cell := rolled_back (addr ` set ms) w\<rparr>)"
proof (induction ms arbitrary: w)
  case Nil
  have "rolled_back {} w = cell w" by (auto simp: rolled_back_def)
  then show ?case by simp
next
  case (Cons m ms)
  have "rolled_back (addr ` set ms) (w\<lparr>cell := rolled_back {addr m} w\<rparr>) = rolled_back (addr ` set (m # ms)) w"
    by (auto simp: rolled_back_def)
  then show ?case
    using Cons by (simp add: expect_def shared_reset del: shared_ops_methods)
qed

lemma apply_modules_ok:
  "apply_modules (in_memory_ops sha) ms w = (Ok (), w\<lparr>cell := applied (addr ` set ms) w\<rparr>)"
proof (induction ms arbitrary: w)
  case Nil
  have "applied {} w = cell w" by (auto simp: applied_def)
  then show ?case by simp
next
  case (Cons m ms)
  have "applied (addr ` set ms) (w\<lparr>cell := applied {addr m} w\<rparr>) = applied (addr ` set (m # ms)) w"
    by (auto simp: applied_def)
  then show ?case
    using Cons by (simp add: expect_def shared_apply del: shared_ops_methods)
qed

lemma heap_ok_applied: "heap_ok sha w \<Longrightarrow> heap_ok sha (w\<lparr>cell := applied A w\<rparr>)"
  by (auto simp: heap_ok_def applied_def im_ok_def)

lemma heap_ok_rolled_back: "heap_ok sha w \<Longrightarrow> heap_ok sha (w\<lparr>cell := rolled_back A w\<rparr>)"
  by (auto simp: heap_ok_def rolled_back_def im_ok_def)

lemma deliver_loop_confined:
  "\<forall>m \<in> set ms. module_confined sha A (mod_ops m) \<Longrightarrow>
     confined sha A (deliver_loop ms message signer)"
proof (induction ms)
  case Nil
  show ?case unfolding deliver_loop.simps(1) [abs_def] by (intro confined_intros)
next
  case (Cons m ms)
  have m: "confined sha A (md_deliver (mod_ops m) message signer)"
    using Cons.prems by (simp add: module_confined_def)
  have ms: "confined sha A (deliver_loop ms message signer)" using Cons by simp
  have "confined sha A (\<lambda>w. case md_deliver (mod_ops m) message signer w of (r, w') \<Rightarrow>
      (case r of Ok msg_events \<Rightarrow> (Ok msg_events, w')
       | Err e \<Rightarrow> (if e = NotHandled then deliver_loop ms message signer w' else (Err e, w'))
       | Panic \<Rightarrow> (Panic, w') | Diverge \<Rightarrow> (Diverge, w')))"
  proof (rule confined_case_prod [OF m])
    fix r :: "(('b, 'c) app_error, 'd list) outcome"
    show "confined sha A (\<lambda>w'. case r of Ok msg_events \<Rightarrow> (Ok msg_events, w')
       | Err e \<Rightarrow> (if e = NotHandled then deliver_loop ms message signer w' else (Err e, w'))
       | Panic \<Rightarrow> (Panic, w') | Diverge \<Rightarrow> (Diverge, w'))"
      by (cases r) (auto intro!: confined_intros ms)
  qed
  moreover have "deliver_loop (m # ms) message signer =
      (\<lambda>w. case md_deliver (mod_ops m) message signer w of (r, w') \<Rightarrow>
      (case r of Ok msg_events \<Rightarrow> (Ok msg_events, w')
       | Err e \<Rightarrow> (if e = NotHandled then deliver_loop ms message signer w' else (Err e, w'))
       | Panic \<Rightarrow> (Panic, w') | Diverge \<Rightarrow> (Diverge, w')))"
    by (auto simp: fun_eq_iff split: prod.splits outcome.splits)
  ultimately show ?case by simp
qed

lemma init_chain_Ok:
  assumes "init_chain ops env app genesis w = (Ok h, w')"
  obtains j where "init_modules (app_modules app) j w = (Ok (), w')"
  using assms by (auto simp: init_chain_def and_then_Ok split: outcome.splits option.splits)

lemma begin_block_Ok:
  assumes "begin_block env app header w = (Ok events, w')"
  obtains h where "begin_modules (app_modules app) h [] w = (Ok events, w')"
  using assms by (auto simp: begin_block_def split: option.splits)

lemma init_modules_confined:
  "\<forall>m \<in> set ms. module_confined sha A (mod_ops m) \<Longrightarrow> confined sha A (init_modules ms j)"
proof (induction ms)
  case Nil
  show ?case unfolding init_modules.simps(1) [abs_def] by (intro confined_intros)
next
  case (Cons m ms)
  then have "confined sha A (md_init (mod_ops m) j)" by (simp add: module_confined_def)
  then show ?case using Cons unfolding init_modules.simps(2) [abs_def]
    by (auto intro!: confined_intros)
qed


section \<open>Applications whose modules are confined\<close>

locale confined_app =
  fixes sha :: "bytes \<Rightarrow> bytes"
    and app :: "(in_memory, 'y, 'id, 'ie, 'ev, 'h, 'j) app"
  assumes modules: "m \<in> set (app_modules app) \<Longrightarrow>
      module_confined sha (addr ` set (app_modules app)) (mod_ops m)"
    and main: "app_store app \<notin> addr ` set (app_modules app)"
    and addrs: "distinct (map addr (app_modules app))"
    and ids: "distinct (map mod_id (app_modules app))"
begin

abbreviation all_stores :: "nat set" where
  "all_stores \<equiv> insert (app_store app) (addr ` set (app_modules app))"

lemma deliver_messages_confined:
  "confined sha (addr ` set (app_modules app)) (deliver_messages app messages signer events)"
proof (induction messages arbitrary: events)
  case Nil
  show ?case unfolding deliver_messages.simps(1) [abs_def] by (intro confined_intros)
next
  case (Cons message messages)
  have "confined sha (addr ` set (app_modules app)) (deliver_msg app message signer)"
    unfolding deliver_msg_def [abs_def] by (rule deliver_loop_confined) (use modules in blast)
  then show ?case unfolding deliver_messages.simps(2) [abs_def]
    by (intro confined_intros Cons.IH)
qed

lemma deliver_failed:
  assumes "heap_ok sha w" and "ap_decode_tx env request = Ok tx"
    and "first_signer env tx = Inr signer" and "tx_messages tx \<noteq> []"
    and "deliver_messages app (tx_messages tx) signer [] w = (Err e, w1)"
  obtains w' resp where "deliver_tx (in_memory_ops sha) env app request w = (Ok resp, w')"
    and "rd_code resp = 2" and "cell w' = rolled_back all_stores w"
proof -
  have p: "pending_only sha (addr ` set (app_modules app)) w w1"
    by (rule confinedD [OF deliver_messages_confined assms(1,5)])
  let ?w = "w1\<lparr>cell := rolled_back (addr ` set (app_modules app)) w1\<rparr>"
  have "rolled_back {app_store app} ?w = rolled_back all_stores w"
  proof
    fix b
    obtain t where "cell w1 b = (cell w b)\<lparr>im_pending := t\<rparr>" using p by (auto simp: pending_only_def)
    moreover have "b \<notin> addr ` set (app_modules app) \<Longrightarrow> cell w1 b = cell w b"
      using p by (simp add: pending_only_def)
    ultimately show "rolled_back {app_store app} ?w b = rolled_back all_stores w b"
      using main by (auto simp: rolled_back_def)
  qed
  then show ?thesis using assms that
    by (simp add: deliver_tx_def reset_modules_ok shared_reset expect_def deliver_tx_error_def
        del: shared_ops_methods)
qed

text \<open>What the modules keep beside the stores is not reset.\<close>

lemma deliver_failed_beside:
  assumes "ap_decode_tx env request = Ok tx"
    and "first_signer env tx = Inr signer" and "tx_messages tx \<noteq> []"
    and "deliver_messages app (tx_messages tx) signer [] w = (Err e, w1)"
    and "deliver_tx (in_memory_ops sha) env app request w = (Ok resp, w')"
  shows "heap.more w' = heap.more w1"
proof -
  have "w' = w1\<lparr>cell := rolled_back {app_store app}
      (w1\<lparr>cell := rolled_back (addr ` set (app_modules app)) w1\<rparr>)\<rparr>"
    using assms by (simp add: deliver_tx_def reset_modules_ok shared_reset expect_def del: shared_ops_methods)
  then show ?thesis by simp
qed

lemma deliver_succeeded:
  assumes "heap_ok sha w" and "ap_decode_tx env request = Ok tx"
    and "first_signer env tx = Inr signer" and "tx_messages tx \<noteq> []"
    and "deliver_messages app (tx_messages tx) signer [] w = (Ok events, w1)"
  obtains w' resp where "deliver_tx (in_memory_ops sha) env app request w = (Ok resp, w')"
    and "rd_code resp = 0" and "rd_events resp = events" and "cell w' = applied all_stores w1"
    and "pending_only sha (addr ` set (app_modules app)) w w1"
proof -
  let ?w = "w1\<lparr>cell := applied (addr ` set (app_modules app)) w1\<rparr>"
  have "applied {app_store app} ?w = applied all_stores w1"
    using main by (auto simp: applied_def)
  then show ?thesis using assms that confinedD [OF deliver_messages_confined assms(1,5)]
    by (simp add: deliver_tx_def apply_modules_ok shared_apply expect_def del: shared_ops_methods)
qed

end


section \<open>Committing a block\<close>

definition committed :: "in_memory \<Rightarrow> in_memory" where
  "committed s = s\<lparr>im_staged := im_pending s, im_store := pv_push (im_pending s) (im_store s)\<rparr>"

definition tree_root :: "state \<Rightarrow> bytes" where
  "tree_root t = unwrap_or (replicate 32 0) (avl_root_hash t)"

lemma im_commit_eq: "im_commit s = (Ok (tree_root (im_pending s)), committed s)"
  by (auto simp: im_commit_def im_apply_def Let_def committed_def tree_root_def im_root_hash_def
      im_get_state_def pv_last_def pv_push_def)

lemma im_root_hash_committed: "im_root_hash (committed s) = tree_root (im_pending s)"
  by (simp add: committed_def tree_root_def im_root_hash_def im_get_state_def pv_last_def pv_push_def)

lemma committed_ok: "im_ok sha s \<Longrightarrow> im_ok sha (committed s)"
  by (auto simp: im_ok_def committed_def pv_push_def)

lemma committed_latest: "im_get_state Latest (committed s) = Some (im_pending s)"
  by (simp add: committed_def im_get_state_def pv_last_def pv_push_def)

lemma path_from_identifier_inj: "path_from_identifier i = path_from_identifier j \<longleftrightarrow> i = j"
  by (simp add: path_from_identifier_def)

text \<open>Afterwards each module store has its pending tree as its latest block, and the main store
  has, still pending, the root hash of that tree at the module's identifier.\<close>

lemma commit_modules_ok:
  assumes "heap_ok sha w" and "distinct (map addr ms)" and "distinct (map mod_id ms)"
    and "main \<notin> addr ` set ms"
  shows "\<exists>w'. commit_modules (in_memory_ops sha) main ms w = (Ok (), w') \<and> heap_ok sha w' \<and>
     (\<forall>b. b \<noteq> main \<longrightarrow> cell w' b = (if b \<in> addr ` set ms then committed (cell w b) else cell w b)) \<and>
     (\<exists>t. cell w' main = (cell w main)\<lparr>im_pending := t\<rparr>) \<and>
     (\<forall>p. p \<notin> (path_from_identifier \<circ> mod_id) ` set ms \<longrightarrow>
        avl_get p (im_pending (cell w' main)) = avl_get p (im_pending (cell w main))) \<and>
     (\<forall>m \<in> set ms. avl_get (path_from_identifier (mod_id m)) (im_pending (cell w' main)) =
        Some (tree_root (im_pending (cell w (addr m)))))"
  using assms
proof (induction ms arbitrary: w)
  case Nil
  then show ?case by simp
next
  case (Cons m ms)
  let ?a = "addr m" and ?p = "path_from_identifier (mod_id m)"
  let ?root = "tree_root (im_pending (cell w ?a))"
  let ?w1 = "w\<lparr>cell := (cell w)(?a := committed (cell w ?a))\<rparr>"
  have a: "?a \<noteq> main" "?a \<notin> addr ` set ms" using Cons.prems by auto
  have w1: "heap_ok sha ?w1" using Cons.prems(1) by (auto simp: heap_ok_def committed_ok)
  obtain s where set: "im_set sha ?p ?root (cell w main) = (Ok (ch_pending (im_abs (cell w main)) ?p), s)"
    and s: "im_ok sha s" "im_abs s = chain_put ?p (Some ?root) (im_abs (cell w main))"
    using im_set_ok [of sha "cell w main" ?p ?root] Cons.prems(1) by (auto simp: heap_ok_def)
  obtain t where t: "s = (cell w main)\<lparr>im_pending := t\<rparr>"
    using set by (auto simp: im_set_def split: option.splits)
  have get: "avl_get q t = (if q = ?p then Some ?root else avl_get q (im_pending (cell w main)))" for q
  proof -
    have "ch_pending (im_abs s) q = ((ch_pending (im_abs (cell w main)))(?p := Some ?root)) q"
      by (simp add: s(2) chain_put_def)
    then show ?thesis by (simp add: im_abs_def tree_map_def t)
  qed
  let ?w2 = "?w1\<lparr>cell := (cell ?w1)(main := s)\<rparr>"
  have step: "commit_modules (in_memory_ops sha) main (m # ms) w = commit_modules (in_memory_ops sha) main ms ?w2"
    using set a(1) by (simp add: Let_def write_access_def read_access_def im_commit_eq expect_def
        im_root_hash_committed)
  have w2: "heap_ok sha ?w2" using w1 s(1) by (auto simp: heap_ok_def)
  have "distinct (map addr ms)" "distinct (map mod_id ms)" "main \<notin> addr ` set ms"
    using Cons.prems by auto
  from Cons.IH [OF w2 this] obtain w' where
    run: "commit_modules (in_memory_ops sha) main ms ?w2 = (Ok (), w')" and w': "heap_ok sha w'"
    and other: "\<And>b. b \<noteq> main \<Longrightarrow> cell w' b = (if b \<in> addr ` set ms then committed (cell ?w2 b) else cell ?w2 b)"
    and pend: "\<exists>t. cell w' main = (cell ?w2 main)\<lparr>im_pending := t\<rparr>"
    and keep: "\<And>q. q \<notin> (path_from_identifier \<circ> mod_id) ` set ms \<Longrightarrow>
        avl_get q (im_pending (cell w' main)) = avl_get q (im_pending (cell ?w2 main))"
    and roots: "\<And>m'. m' \<in> set ms \<Longrightarrow> avl_get (path_from_identifier (mod_id m')) (im_pending (cell w' main)) =
        Some (tree_root (im_pending (cell ?w2 (addr m'))))"
    by blast
  have new: "?p \<notin> (path_from_identifier \<circ> mod_id) ` set ms"
    using Cons.prems(3) by (auto simp: path_from_identifier_inj)
  have "cell w' b = (if b \<in> addr ` set (m # ms) then committed (cell w b) else cell w b)"
    if "b \<noteq> main" for b
    using other [OF that] that a by auto
  moreover have "\<exists>t. cell w' main = (cell w main)\<lparr>im_pending := t\<rparr>"
    using pend t by auto
  moreover have "avl_get q (im_pending (cell w' main)) = avl_get q (im_pending (cell w main))"
    if "q \<notin> (path_from_identifier \<circ> mod_id) ` set (m # ms)" for q
    using keep [of q] that get t by auto
  moreover have "avl_get (path_from_identifier (mod_id m')) (im_pending (cell w' main)) =
      Some (tree_root (im_pending (cell w (addr m'))))" if m': "m' \<in> set (m # ms)" for m'
  proof (cases "m' = m")
    case True
    then show ?thesis using keep [OF new] get t by simp
  next
    case False
    then have "m' \<in> set ms" using m' by simp
    moreover from this have "addr m' \<in> addr ` set ms" by (rule imageI)
    then have "addr m' \<noteq> ?a" "addr m' \<noteq> main" using a(2) Cons.prems(4) by auto
    ultimately show ?thesis using roots by simp
  qed
  ultimately show ?case using step run w' by auto
qed

context confined_app
begin

lemma commit_ok:
  assumes "heap_ok sha w"
  obtains h w' where "commit (in_memory_ops sha) app w = (Ok h, w')" and "heap_ok sha w'"
    and "\<And>m. m \<in> set (app_modules app) \<Longrightarrow> cell w' (addr m) = committed (cell w (addr m))"
    and "\<exists>s. cell w' (app_store app) = committed s \<and> im_ok sha s \<and> h = tree_root (im_pending s) \<and>
       im_store s = im_store (cell w (app_store app)) \<and>
       (\<forall>m \<in> set (app_modules app). avl_get (path_from_identifier (mod_id m)) (im_pending s) =
          Some (tree_root (im_pending (cell w (addr m)))))"
    and "\<And>b. b \<notin> all_stores \<Longrightarrow> cell w' b = cell w b"
proof -
  let ?main = "app_store app"
  obtain w1 where run: "commit_modules (in_memory_ops sha) ?main (app_modules app) w = (Ok (), w1)"
    and w1: "heap_ok sha w1"
    and other: "\<And>b. b \<noteq> ?main \<Longrightarrow>
        cell w1 b = (if b \<in> addr ` set (app_modules app) then committed (cell w b) else cell w b)"
    and pend: "\<exists>t. cell w1 ?main = (cell w ?main)\<lparr>im_pending := t\<rparr>"
    and roots: "\<And>m. m \<in> set (app_modules app) \<Longrightarrow>
        avl_get (path_from_identifier (mod_id m)) (im_pending (cell w1 ?main)) =
          Some (tree_root (im_pending (cell w (addr m))))"
    using commit_modules_ok [OF assms addrs ids main] by blast
  let ?w2 = "w1\<lparr>cell := (cell w1)(?main := committed (cell w1 ?main))\<rparr>"
  have commit: "commit (in_memory_ops sha) app w = (Ok (tree_root (im_pending (cell w1 ?main))), ?w2)"
    by (simp add: commit_def run write_access_def im_commit_eq expect_def)
  have w2: "heap_ok sha ?w2" using w1 by (auto simp: heap_ok_def committed_ok)
  have mods: "cell ?w2 (addr m) = committed (cell w (addr m))" if "m \<in> set (app_modules app)" for m
    using other that main by force
  have main_store: "\<exists>s. cell ?w2 ?main = committed s \<and> im_ok sha s \<and>
      tree_root (im_pending (cell w1 ?main)) = tree_root (im_pending s) \<and>
      im_store s = im_store (cell w ?main) \<and>
      (\<forall>m \<in> set (app_modules app). avl_get (path_from_identifier (mod_id m)) (im_pending s) =
         Some (tree_root (im_pending (cell w (addr m)))))"
    using w1 pend roots by (intro exI [of _ "cell w1 ?main"]) (auto simp: heap_ok_def)
  have rest: "cell ?w2 b = cell w b" if "b \<notin> all_stores" for b using other that by auto
  show ?thesis by (rule that [OF commit w2 mods main_store rest])
qed

end


section \<open>Properties\<close>

definition clean :: "nat set \<Rightarrow> (in_memory, 'y) heap_scheme \<Rightarrow> bool" where
  "clean A w \<longleftrightarrow> (\<forall>b \<in> A. im_pending (cell w b) = im_staged (cell w b))"

abbreviation stores_of :: "('s, 'y, 'id, 'ie, 'ev, 'h, 'j) app \<Rightarrow> nat set" where
  "stores_of app \<equiv> insert (app_store app) (addr ` set (app_modules app))"

lemma rolled_back_clean: "clean A w \<Longrightarrow> rolled_back A w = cell w"
  by (auto simp: rolled_back_def clean_def fun_eq_iff)

text \<open>
  C3. Transactions are atomic over all modules, from a state without changes that are not yet
  accepted, as every commit and every transaction leaves it (\<open>clean\<close>). A transaction that is
  answered with an error leaves every store exactly as it was, hashes included, however many of its
  messages and modules had already written. One that is answered with code 0 has delivered all its
  messages for its first signer: the tree of every store is the one the last message left, the
  response carries the events of all messages, and the changes are accepted, so that the next
  transaction starts from them and cannot undo them. No transaction touches a committed block.
\<close>

theorem deliver_tx_atomic:
  assumes app: "confined_app sha app" and w: "heap_ok sha w" and clean: "clean (stores_of app) w"
    and run: "deliver_tx (in_memory_ops sha) env app request w = (Ok resp, w')"
  shows "if rd_code resp = 0
     then (\<exists>tx signer w1. ap_decode_tx env request = Ok tx \<and> first_signer env tx = Inr signer \<and>
         deliver_messages app (tx_messages tx) signer [] w = (Ok (rd_events resp), w1) \<and>
         (\<forall>b. im_pending (cell w' b) = im_pending (cell w1 b))) \<and>
       heap_ok sha w' \<and> clean (stores_of app) w' \<and> (\<forall>b. im_store (cell w' b) = im_store (cell w b))
     else cell w' = cell w"
proof -
  consider (rejected) "w' = w" "rd_code resp \<noteq> 0"
    | (tx) tx signer where "ap_decode_tx env request = Ok tx" "first_signer env tx = Inr signer"
        "tx_messages tx \<noteq> []"
    using run by (auto simp: deliver_tx_def deliver_tx_error_def split: outcome.splits sum.splits if_splits)
  then show ?thesis
  proof cases
    case rejected
    then show ?thesis by simp
  next
    case tx
    obtain r w1 where d: "deliver_messages app (tx_messages tx) signer [] w = (r, w1)" by fastforce
    show ?thesis
    proof (cases r)
      case (Ok events)
      from confined_app.deliver_succeeded [OF app w tx d [unfolded Ok]]
      have w': "rd_code resp = 0" "cell w' = applied (stores_of app) w1" "rd_events resp = events"
        and p: "pending_only sha (addr ` set (app_modules app)) w w1"
        using run by (metis outcome.inject(1) prod.inject)+
      have "\<forall>b. im_pending (cell w' b) = im_pending (cell w1 b)" by (simp add: w'(2) applied_def)
      with tx(1,2) d [unfolded Ok] w'(3) have "\<exists>tx signer w1. ap_decode_tx env request = Ok tx \<and>
          first_signer env tx = Inr signer \<and>
          deliver_messages app (tx_messages tx) signer [] w = (Ok (rd_events resp), w1) \<and>
          (\<forall>b. im_pending (cell w' b) = im_pending (cell w1 b))" by blast
      moreover
      have "heap_ok sha (w1\<lparr>cell := applied (stores_of app) w1\<rparr>)"
        using p by (intro heap_ok_applied) (simp add: pending_only_def)
      then have "heap_ok sha w'" using w'(2) by (simp add: heap_ok_def)
      moreover have "clean (stores_of app) w'" by (simp add: clean_def w'(2) applied_def)
      moreover have "im_store (cell w' b) = im_store (cell w b)" for b
      proof -
        obtain t where "cell w1 b = (cell w b)\<lparr>im_pending := t\<rparr>" using p by (auto simp: pending_only_def)
        then show ?thesis by (simp add: w'(2) applied_def)
      qed
      ultimately show ?thesis using w'(1) by simp
    next
      case (Err e)
      from confined_app.deliver_failed [OF app w tx d [unfolded Err]]
      have "rd_code resp = 2" "cell w' = rolled_back (stores_of app) w"
        using run by (metis outcome.inject(1) prod.inject)+
      then show ?thesis using rolled_back_clean [OF clean] by simp
    next
      case Panic
      then show ?thesis using run tx d by (simp add: deliver_tx_def)
    next
      case Diverge
      then show ?thesis using run tx d by (simp add: deliver_tx_def)
    qed
  qed
qed

text \<open>
  C1. The application hash authenticates every module store: committing always succeeds,
  and for every entry of every module there is afterwards an existence proof of the entry
  against a module root and an existence proof of that root, under the module's identifier,
  against the application hash that \<open>commit\<close> returned.
\<close>

theorem app_hash_authenticates:
  assumes app: "confined_app sha app" and w: "heap_ok sha w"
  shows "\<exists>h w'. commit (in_memory_ops sha) app w = (Ok h, w') \<and> heap_ok sha w' \<and>
     (\<forall>m \<in> set (app_modules app). \<forall>p v. im_get Pending p (cell w (addr m)) = Some v \<longrightarrow>
        (\<exists>pr root pr'.
           im_get_proof Latest p (cell w' (addr m)) = Some \<lparr>cp_proof = Some (Exist pr)\<rparr> \<and>
           proves_entry sha path_as_bytes root pr (p, v) \<and>
           im_get_proof Latest (path_from_identifier (mod_id m)) (cell w' (app_store app)) =
             Some \<lparr>cp_proof = Some (Exist pr')\<rparr> \<and>
           proves_entry sha path_as_bytes h pr' (path_from_identifier (mod_id m), root)))"
proof -
  obtain h w' s where commit: "commit (in_memory_ops sha) app w = (Ok h, w')" and w': "heap_ok sha w'"
    and mods: "\<And>m. m \<in> set (app_modules app) \<Longrightarrow> cell w' (addr m) = committed (cell w (addr m))"
    and s: "cell w' (app_store app) = committed s" "im_ok sha s" "h = tree_root (im_pending s)"
    and roots: "\<And>m. m \<in> set (app_modules app) \<Longrightarrow>
        avl_get (path_from_identifier (mod_id m)) (im_pending s) =
          Some (tree_root (im_pending (cell w (addr m))))"
    by (rule confined_app.commit_ok [OF app w]) blast
  have proof_of: "\<exists>pr. im_get_proof Latest q (committed s0) = Some \<lparr>cp_proof = Some (Exist pr)\<rparr> \<and>
      proves_entry sha path_as_bytes (tree_root (im_pending s0)) pr (q, x)"
    if "im_ok sha s0" "avl_get q (im_pending s0) = Some x" for s0 q x
  proof -
    have "avl_ok sha path_as_bytes (im_pending s0)" using that(1) by (simp add: im_ok_def)
    from avl_existence [OF this that(2)] show ?thesis
      by (metis committed_latest im_get_proof_def option.map(2) tree_root_def unwrap_or_simps(2))
  qed
  have "\<exists>pr root pr'.
      im_get_proof Latest p (cell w' (addr m)) = Some \<lparr>cp_proof = Some (Exist pr)\<rparr> \<and>
      proves_entry sha path_as_bytes root pr (p, v) \<and>
      im_get_proof Latest (path_from_identifier (mod_id m)) (cell w' (app_store app)) =
        Some \<lparr>cp_proof = Some (Exist pr')\<rparr> \<and>
      proves_entry sha path_as_bytes h pr' (path_from_identifier (mod_id m), root)"
    if m: "m \<in> set (app_modules app)" and v: "im_get Pending p (cell w (addr m)) = Some v" for m p v
  proof -
    have "im_ok sha (cell w (addr m))" using w by (simp add: heap_ok_def)
    moreover have "avl_get p (im_pending (cell w (addr m))) = Some v"
      using v by (simp add: im_get_def im_get_state_def)
    ultimately show ?thesis
      using proof_of [of "cell w (addr m)" p v] proof_of [OF s(2) roots [OF m]] mods [OF m] s by metis
  qed
  then show ?thesis using commit w' by blast
qed

text \<open>
  C25. The first failing transaction erases the genesis state: \<open>init_chain\<close> writes it to the
  pending trees only and nothing accepts it, so a transaction that fails before the first
  one that succeeds (or the first commit) resets every store to what it held before
  \<open>init_chain\<close>.
\<close>

theorem genesis_lost_on_first_failure:
  assumes app: "confined_app sha app" and w: "heap_ok sha w" and clean: "clean (stores_of app) w"
    and init: "init_chain (in_memory_ops sha) env app genesis w = (Ok h, w1)"
    and decode: "ap_decode_tx env request = Ok tx" and signer: "first_signer env tx = Inr signer"
    and nonempty: "tx_messages tx \<noteq> []"
    and fails: "deliver_messages app (tx_messages tx) signer [] w1 = (Err e, w2)"
  shows "\<exists>resp w3. deliver_tx (in_memory_ops sha) env app request w1 = (Ok resp, w3) \<and>
     rd_code resp = 2 \<and> cell w3 = cell w"
proof -
  let ?A = "addr ` set (app_modules app)"
  from init obtain j where j: "init_modules (app_modules app) j w = (Ok (), w1)" by (rule init_chain_Ok)
  have "confined sha ?A (init_modules (app_modules app) j)"
    by (rule init_modules_confined) (use confined_app.modules [OF app] in blast)
  from confinedD [OF this w j] have p: "pending_only sha ?A w w1" .
  then have w1: "heap_ok sha w1" by (simp add: pending_only_def)
  have "rolled_back (stores_of app) w1 b = cell w b" for b
  proof -
    obtain t where "cell w1 b = (cell w b)\<lparr>im_pending := t\<rparr>" using p by (auto simp: pending_only_def)
    moreover have "b \<notin> ?A \<Longrightarrow> cell w1 b = cell w b" using p by (simp add: pending_only_def)
    ultimately show ?thesis using clean by (auto simp: rolled_back_def clean_def)
  qed
  then have "rolled_back (stores_of app) w1 = cell w" by blast
  with confined_app.deliver_failed [OF app w1 decode signer nonempty fails] show ?thesis by metis
qed


section \<open>Block proposals\<close>

definition total_bytes :: "bytes list \<Rightarrow> nat" where
  "total_bytes txs = sum_list (map length txs)"

lemma saturating_sum:
  "a + total_bytes txs < 2 ^ 64 \<Longrightarrow>
     foldl (\<lambda>acc len. saturating_add acc len) a (map length txs) = a + total_bytes txs"
  by (induction txs arbitrary: a) (auto simp: total_bytes_def saturating_add_def)

lemma drop_loop_take:
  "\<exists>n \<le> length txs. drop_loop limit (total_bytes txs) txs = take n txs \<and>
     total_bytes (take n txs) \<le> limit \<and> (n < length txs \<longrightarrow> limit < total_bytes (take (Suc n) txs))"
proof (induction txs rule: rev_induct)
  case Nil
  show ?case by (simp add: drop_loop.simps total_bytes_def)
next
  case (snoc tx txs)
  show ?case
  proof (cases "limit < total_bytes (txs @ [tx])")
    case True
    then have "drop_loop limit (total_bytes (txs @ [tx])) (txs @ [tx]) = drop_loop limit (total_bytes txs) txs"
      by (simp add: drop_loop.simps [of _ _ "txs @ [tx]"] total_bytes_def)
    moreover obtain n where "n \<le> length txs" "drop_loop limit (total_bytes txs) txs = take n txs"
      "total_bytes (take n txs) \<le> limit" "n < length txs \<longrightarrow> limit < total_bytes (take (Suc n) txs)"
      using snoc by blast
    moreover from this have "limit < total_bytes (take (Suc n) (txs @ [tx]))"
      using True by (cases "n = length txs") (auto simp: Suc_leI)
    ultimately show ?thesis by (intro exI [of _ n]) simp
  next
    case False
    then show ?thesis
      by (intro exI [of _ "length (txs @ [tx])"]) (simp add: drop_loop.simps)
  qed
qed

text \<open>
  A block proposal is the longest prefix of the transactions that fits the byte limit, a
  negative limit counting as zero.
\<close>

theorem prepare_proposal_longest_prefix:
  assumes "total_bytes txs < 2 ^ 64"
  shows "\<exists>n \<le> length txs. prepare_proposal txs max_tx_bytes = take n txs \<and>
     int (total_bytes (take n txs)) \<le> max 0 max_tx_bytes \<and>
     (n < length txs \<longrightarrow> max_tx_bytes < int (total_bytes (take (Suc n) txs)))"
proof -
  have "prepare_proposal txs max_tx_bytes = drop_loop (nat max_tx_bytes) (total_bytes txs) txs"
    using saturating_sum [of 0 txs] assms by (simp add: prepare_proposal_def Let_def)
  moreover obtain n where "n \<le> length txs" "drop_loop (nat max_tx_bytes) (total_bytes txs) txs = take n txs"
    "total_bytes (take n txs) \<le> nat max_tx_bytes"
    "n < length txs \<longrightarrow> nat max_tx_bytes < total_bytes (take (Suc n) txs)"
    using drop_loop_take [of txs "nat max_tx_bytes"] by blast
  ultimately show ?thesis by (intro exI [of _ n]) auto
qed

theorem prepare_proposal_longest_prefix_witness:
  "\<exists>n \<le> 3. prepare_proposal [[1, 2], [3], [4, 5, 6]] 4 = take n [[1, 2], [3], [4, 5, 6]] \<and> n = 2"
  using prepare_proposal_longest_prefix [of "[[1, 2], [3], [4, 5, 6]]" 4]
  by (auto simp: total_bytes_def le_Suc_eq numeral_3_eq_3)

end
