(* ===== verification/Runner.thy ===== *)
theory Runner
  imports App_Safety
begin

text \<open>
  The auth and bank modules in the application of \<open>basecoin/src/runner.rs\<close>, over in-memory stores:
  they come first in the list of modules, so what they do with a transfer does not depend on
  the rest. The locale \<open>confined_app\<close> is interpreted on the two alone, which is the application
  of the examples; the whole application is in the theory \<open>Full_App\<close>.
\<close>

section \<open>Putting the application together\<close>

text \<open>The addresses of the stores: the main store at \<open>a\<close>, the module stores after it in the order
  in which they are created.\<close>

definition auth_address :: "nat \<Rightarrow> nat" where
  "auth_address a = a + 1"

definition bank_address :: "nat \<Rightarrow> nat" where
  "bank_address a = a + 2"

lemma addresses_distinct [simp]:
  "auth_address a \<noteq> a" "a \<noteq> auth_address a" "bank_address a \<noteq> a" "a \<noteq> bank_address a"
  "auth_address a \<noteq> bank_address a" "bank_address a \<noteq> auth_address a"
  by (simp_all add: auth_address_def bank_address_def)

definition runner_auth ::
  "(bytes \<Rightarrow> bytes) \<Rightarrow> ('id, 'j) auth_env \<Rightarrow> nat \<Rightarrow>
   ((in_memory, 'y) heap_scheme, 'id, 'ie, 'ev, 'h, 'j) module_ops" where
  "runner_auth sha aenv a = auth_module (in_memory_ops sha) (auth_address a) aenv"

definition runner_bank ::
  "(bytes \<Rightarrow> bytes) \<Rightarrow> ('id, 'j) auth_env \<Rightarrow> ('id, 'raw, infallible, 'j) bank_env \<Rightarrow> nat \<Rightarrow>
   ((in_memory, 'y) heap_scheme, 'id, 'ie, 'ev, 'h, 'j) module_ops" where
  "runner_bank sha aenv benv a =
     bank_module (\<lambda>w who. get_account (shared_ops (in_memory_ops sha) (auth_address a)) aenv who w)
       (in_memory_ops sha) (bank_address a) benv"

text \<open>The modules after the bank are \<open>rest\<close>.\<close>

definition runner_app ::
  "(bytes \<Rightarrow> bytes) \<Rightarrow> ('id, 'j) auth_env \<Rightarrow> ('id, 'raw, infallible, 'j) bank_env \<Rightarrow> nat \<Rightarrow>
   (in_memory, 'y, 'id, 'ie, 'ev, 'h, 'j) module_list \<Rightarrow> (in_memory, 'y, 'id, 'ie, 'ev, 'h, 'j) app" where
  "runner_app sha aenv benv a rest = \<lparr>app_store = a, app_modules =
     \<lparr>mod_id = auth_prefix, mod_ops = runner_auth sha aenv a\<rparr> #
     \<lparr>mod_id = bank_prefix, mod_ops = runner_bank sha aenv benv a\<rparr> # rest\<rparr>"

lemma prefixes_distinct [simp]: "auth_prefix \<noteq> bank_prefix"
  by (simp add: auth_prefix_def bank_prefix_def identifier_from_string_def)

lemma module_addresses [simp]:
  "md_store (runner_auth sha aenv a) = auth_address a"
  "md_store (runner_bank sha aenv benv a) = bank_address a"
  by (simp_all add: runner_auth_def runner_bank_def auth_module_def bank_module_def)

lemma runner_modules_confined:
  assumes "auth_address a \<in> A" and "bank_address a \<in> A"
  shows "module_confined sha A (runner_auth sha aenv a)" and "module_confined sha A (runner_bank sha aenv benv a)"
  using assms by (simp_all add: runner_auth_def runner_bank_def auth_module_confined bank_module_confined)

text \<open>The application with these two modules only.\<close>

interpretation runner: confined_app sha "runner_app sha aenv benv a []" for sha aenv benv a
  by unfold_locales (auto simp: runner_app_def intro: runner_modules_confined)


section \<open>A transfer through the whole application\<close>

abbreviation auth_store :: "(bytes \<Rightarrow> bytes) \<Rightarrow> nat \<Rightarrow> ((in_memory, 'y) heap_scheme, infallible) provable_ops" where
  "auth_store sha a \<equiv> shared_ops (in_memory_ops sha) (auth_address a)"

abbreviation runner_bank_store :: "(bytes \<Rightarrow> bytes) \<Rightarrow> nat \<Rightarrow> ((in_memory, 'y) heap_scheme, infallible) provable_ops" where
  "runner_bank_store sha a \<equiv> shared_ops (in_memory_ops sha) (bank_address a)"

lemma get_account_cong:
  "im_pending (cell w b) = im_pending (cell w' b) \<Longrightarrow>
     get_account (shared_ops (in_memory_ops sha) b) env i w = get_account (shared_ops (in_memory_ops sha) b) env i w'"
  by (simp add: get_account_def ts_get_def read_access_def im_get_def im_get_state_def)

lemma get_all_balances_cong:
  "im_pending (cell w b) = im_pending (cell w' b) \<Longrightarrow>
     get_all_balances (shared_ops (in_memory_ops sha) b) env i w =
     get_all_balances (shared_ops (in_memory_ops sha) b) env i w'"
  by (simp add: get_all_balances_unfold ts_get_def read_access_def im_get_def im_get_state_def)

text \<open>A transaction with the one message that decodes to the transfer \<open>m\<close>.\<close>

definition transfer_tx ::
  "('id, 'pk, 'ie, 'rh, 'h, 'j) app_env \<Rightarrow> ('id, 'raw, 'e, 'j) bank_env \<Rightarrow> bytes \<Rightarrow> 'id \<Rightarrow>
   'id \<Rightarrow> 'id \<Rightarrow> coin list \<Rightarrow> bool" where
  "transfer_tx env benv request signer sender receiver amount \<longleftrightarrow>
     (\<exists>tx message raw m. ap_decode_tx env request = Ok tx \<and> first_signer env tx = Inr signer \<and>
        tx_messages tx = [message] \<and> type_url message = ''/cosmos.bank.v1beta1.MsgSend'' \<and>
        be_decode_send benv (any_value message) = Some raw \<and> be_send_try_into benv raw = Ok m \<and>
        from_address m = sender \<and> to_address m = receiver \<and>
        those (map (coin_from_msg (be_parse_u256 benv)) (msg_amount m)) = Some amount)"

lemma pending_only_cell:
  "pending_only sha A w w' \<Longrightarrow> b \<notin> A \<Longrightarrow> cell w' b = cell w b"
  by (simp add: pending_only_def)

text \<open>The auth module adds one to the sequence of the signer and hands the message to the bank.\<close>

lemma runner_auth_step:
  fixes benv :: "('id, 'raw, infallible, 'j) bank_env"
    and w :: "(in_memory, 'y) heap_scheme"
    and app :: "(in_memory, 'y, 'id, 'ie, 'ev, 'h, 'j) app"
  assumes aenv: "auth_env_ok aenv" and w: "heap_ok sha w" and app: "app = runner_app sha aenv benv a rest"
    and keyed: "accounts_keyed (auth_store sha a) aenv w"
    and known: "get_account (auth_store sha a) aenv signer w = Ok account"
  obtains w1 where "heap_ok sha w1" and "\<And>b. b \<noteq> auth_address a \<Longrightarrow> cell w1 b = cell w b"
    and "\<And>i. get_account (auth_store sha a) aenv i w1 =
       (if i = signer then Ok (account\<lparr>acc_sequence := acc_sequence account + 1\<rparr>)
        else get_account (auth_store sha a) aenv i w)"
    and "deliver_msg app message signer w =
       deliver_loop (\<lparr>mod_id = bank_prefix, mod_ops = runner_bank sha aenv benv a\<rparr> # rest) message signer w1"
proof -
  let ?account = "account\<lparr>acc_sequence := acc_sequence account + 1\<rparr>"
  have "im_ok sha (cell w (auth_address a))" using w by (simp add: heap_ok_def)
  from shared.kv.sequence_incremented [OF aenv TrueI this keyed known]
  obtain w1 where w1: "set_account (auth_store sha a) aenv ?account w = (Ok (), w1)"
    "\<And>i. get_account (auth_store sha a) aenv i w1 =
       (if i = signer then Ok ?account else get_account (auth_store sha a) aenv i w)"
    by metis
  have "confined sha {auth_address a} (set_account (auth_store sha a) aenv ?account)"
    by (intro confined_intros) simp
  from confinedD [OF this w w1(1)] have p: "pending_only sha {auth_address a} w w1" .
  have "deliver_msg app message signer w =
      deliver_loop (\<lparr>mod_id = bank_prefix, mod_ops = runner_bank sha aenv benv a\<rparr> # rest) message signer w1"
    by (simp add: app deliver_msg_def runner_app_def runner_auth_def auth_module_def
        auth_deliver_step [OF known w1(1)] del: One_nat_def)
  then show ?thesis
    using that [of w1] w1(2) p pending_only_cell [OF p] by (simp add: pending_only_def)
qed

lemma runner_send:
  fixes benv :: "('id, 'raw, infallible, 'j) bank_env"
    and w :: "(in_memory, 'y) heap_scheme"
    and app :: "(in_memory, 'y, 'id, 'ie, 'ev, 'h, 'j) app"
  assumes aenv: "auth_env_ok aenv" and w: "heap_ok sha w" and app: "app = runner_app sha aenv benv a rest"
    and keyed: "accounts_keyed (auth_store sha a) aenv w"
    and known: "get_account (auth_store sha a) aenv signer w = Ok account"
    and exists: "get_account (auth_store sha a) aenv sender w = Ok from_account"
    and message: "type_url message = ''/cosmos.bank.v1beta1.MsgSend''"
      "be_decode_send benv (any_value message) = Some raw" "be_send_try_into benv raw = Ok m"
      "from_address m = sender" "to_address m = receiver"
      "those (map (coin_from_msg (be_parse_u256 benv)) (msg_amount m)) = Some amount"
  obtains w1 where "heap_ok sha w1" and "cell w1 (bank_address a) = cell w (bank_address a)"
    and "\<And>i. get_account (auth_store sha a) aenv i w1 =
       (if i = signer then Ok (account\<lparr>acc_sequence := acc_sequence account + 1\<rparr>)
        else get_account (auth_store sha a) aenv i w)"
    and "deliver_msg app message signer w =
       (case send_coins (runner_bank_store sha a) benv sender receiver amount w1 of
          (r, w') \<Rightarrow> and_then (map_err BankErr r, w') (\<lambda>_ w. (Ok [], w)))"
proof -
  let ?account = "account\<lparr>acc_sequence := acc_sequence account + 1\<rparr>"
  let ?bank = "runner_bank sha aenv benv a :: ((in_memory, 'y) heap_scheme, 'id, 'ie, 'ev, 'h, 'j) module_ops"
  obtain w1 where ok: "heap_ok sha w1" "\<And>b. b \<noteq> auth_address a \<Longrightarrow> cell w1 b = cell w b"
    and w1: "\<And>i. get_account (auth_store sha a) aenv i w1 =
       (if i = signer then Ok ?account else get_account (auth_store sha a) aenv i w)"
    and auth: "deliver_msg app message signer w =
      deliver_loop (\<lparr>mod_id = bank_prefix, mod_ops = ?bank\<rparr> # rest) message signer w1"
    using runner_auth_step [OF aenv w app keyed known, where message = message] by blast
  have reader: "\<exists>from'. get_account (auth_store sha a) aenv sender w1 = Ok from'"
    using w1 exists by simp
  obtain r w2 where send: "send_coins (runner_bank_store sha a) benv sender receiver amount w1 = (r, w2)"
    by fastforce
  have "md_deliver ?bank message signer w1 = and_then (map_err BankErr r, w2) (\<lambda>_ w. (Ok [], w))"
    using reader message send
    by (auto simp: runner_bank_def bank_module_def bank_deliver_def bank_decode_def)
  with send have "deliver_msg app message signer w =
      (case send_coins (runner_bank_store sha a) benv sender receiver amount w1 of
         (r, w') \<Rightarrow> and_then (map_err BankErr r, w') (\<lambda>_ w. (Ok [], w)))"
    by (cases r) (simp_all add: auth)
  then show ?thesis using that [of w1] ok w1 by simp
qed

text \<open>
  C12. A transfer goes through: a transaction whose one message decodes to a transfer between two
  different accounts, signed by any known account, is answered with code 0 as soon as the
  sender has an account that covers the amount. Afterwards exactly the amounts have moved,
  the sequence of the signer, and no other, has grown by one, and every store is ready for
  the next transaction. The signer need not be the sender: nobody checks it.
\<close>

theorem transfer_delivered:
  fixes benv :: "('id, 'raw, infallible, 'j) bank_env"
    and env :: "('id, 'pk, 'ie, 'rh, 'h, 'j) app_env"
    and w :: "(in_memory, 'y) heap_scheme"
    and app :: "(in_memory, 'y, 'id, 'ie, 'ev, 'h, 'j) app"
  assumes conf: "confined_app sha app"
    and envs: "auth_env_ok aenv" "bank_env_ok benv" and w: "heap_ok sha w"
    and app: "app = runner_app sha aenv benv a rest"
    and keyed: "accounts_keyed (auth_store sha a) aenv w"
    and known: "get_account (auth_store sha a) aenv signer w = Ok account"
    and exists: "get_account (auth_store sha a) aenv sender w = Ok from_account"
    and tx: "transfer_tx env benv request signer sender receiver amount"
    and ne: "sender \<noteq> receiver"
    and covered: "covered (runner_bank_store sha a) benv w sender receiver amount"
  shows "\<exists>resp w'. deliver_tx (in_memory_ops sha) env app request w = (Ok resp, w') \<and>
     rd_code resp = 0 \<and> heap_ok sha w' \<and> clean (stores_of app) w' \<and>
     (\<forall>i. get_account (auth_store sha a) aenv i w' =
        (if i = signer then Ok (account\<lparr>acc_sequence := acc_sequence account + 1\<rparr>)
         else get_account (auth_store sha a) aenv i w)) \<and>
     (\<forall>d j. account_balance (runner_bank_store sha a) benv d w' j =
        (if j = sender then account_balance (runner_bank_store sha a) benv d w j - requested d amount
         else if j = receiver then account_balance (runner_bank_store sha a) benv d w j + requested d amount
         else account_balance (runner_bank_store sha a) benv d w j))"
proof -
  obtain tx message raw m where tx: "ap_decode_tx env request = Ok tx" "first_signer env tx = Inr signer"
    "tx_messages tx = [message]" and message: "type_url message = ''/cosmos.bank.v1beta1.MsgSend''"
    "be_decode_send benv (any_value message) = Some raw" "be_send_try_into benv raw = Ok m"
    "from_address m = sender" "to_address m = receiver"
    "those (map (coin_from_msg (be_parse_u256 benv)) (msg_amount m)) = Some amount"
    using tx unfolding transfer_tx_def by blast
  obtain w1 where w1: "heap_ok sha w1" "cell w1 (bank_address a) = cell w (bank_address a)"
    "\<And>i. get_account (auth_store sha a) aenv i w1 =
       (if i = signer then Ok (account\<lparr>acc_sequence := acc_sequence account + 1\<rparr>)
        else get_account (auth_store sha a) aenv i w)"
    "deliver_msg app message signer w =
       (case send_coins (runner_bank_store sha a) benv sender receiver amount w1 of
          (r, w') \<Rightarrow> and_then (map_err BankErr r, w') (\<lambda>_ w. (Ok [], w)))"
    using runner_send [OF envs(1) w app keyed known exists message] by metis
  have "get_all_balances (runner_bank_store sha a) benv j w1 = get_all_balances (runner_bank_store sha a) benv j w" for j
    by (rule get_all_balances_cong) (simp only: w1(2))
  then have same: "account_balance (runner_bank_store sha a) benv d w1 j = account_balance (runner_bank_store sha a) benv d w j"
    "account_holds (runner_bank_store sha a) benv d w1 j = account_holds (runner_bank_store sha a) benv d w j" for d j
    by (simp_all add: account_balance_def account_holds_def)
  have cov1: "covered (runner_bank_store sha a) benv w1 sender receiver amount"
    using covered by (simp add: covered_def same)
  have "im_ok sha (cell w1 (bank_address a))" using w1(1) by (simp add: heap_ok_def)
  from shared.kv.send_coins_covered [OF envs(2) TrueI this ne cov1]
  obtain w2 where w2: "send_coins (runner_bank_store sha a) benv sender receiver amount w1 = (Ok (), w2)"
    "\<And>d j. account_balance (runner_bank_store sha a) benv d w2 j =
       (if j = sender then account_balance (runner_bank_store sha a) benv d w1 j - requested d amount
        else if j = receiver then account_balance (runner_bank_store sha a) benv d w1 j + requested d amount
        else account_balance (runner_bank_store sha a) benv d w1 j)"
    by metis
  have "confined sha {bank_address a} (send_coins (runner_bank_store sha a) benv sender receiver amount)"
    by (intro confined_intros) simp
  from confinedD [OF this w1(1) w2(1)] have "cell w2 (auth_address a) = cell w1 (auth_address a)"
    by (simp add: pending_only_def)
  then have accounts: "get_account (auth_store sha a) aenv i w2 = get_account (auth_store sha a) aenv i w1" for i
    by (intro get_account_cong) simp
  have d: "deliver_messages app (tx_messages tx) signer [] w = (Ok [], w2)"
    using w1(4) w2(1) tx(3) by simp
  have nonempty: "tx_messages tx \<noteq> []" using tx(3) by simp
  obtain w' resp where w': "deliver_tx (in_memory_ops sha) env app request w = (Ok resp, w')"
    "rd_code resp = 0" "cell w' = applied (stores_of app) w2"
    and p: "pending_only sha (addr ` set (app_modules app)) w w2"
    by (rule confined_app.deliver_succeeded [OF conf w tx(1,2) nonempty d])
  have pending: "im_pending (cell w' b) = im_pending (cell w2 b)" for b by (simp add: w'(3) applied_def)
  have "get_account (auth_store sha a) aenv i w' = get_account (auth_store sha a) aenv i w2" for i
    by (intro get_account_cong pending)
  then have seq: "get_account (auth_store sha a) aenv i w' =
      (if i = signer then Ok (account\<lparr>acc_sequence := acc_sequence account + 1\<rparr>)
       else get_account (auth_store sha a) aenv i w)" for i
    by (simp only: accounts w1(3))
  have "account_balance (runner_bank_store sha a) benv d w' j = account_balance (runner_bank_store sha a) benv d w2 j"
    for d j
    unfolding account_balance_def by (intro arg_cong [where f = "balance_of d"] get_all_balances_cong pending)
  then have bal: "account_balance (runner_bank_store sha a) benv d w' j =
      (if j = sender then account_balance (runner_bank_store sha a) benv d w j - requested d amount
       else if j = receiver then account_balance (runner_bank_store sha a) benv d w j + requested d amount
       else account_balance (runner_bank_store sha a) benv d w j)" for d j
    by (simp only: w2(2) same)
  have ok: "heap_ok sha w'"
    using heap_ok_applied [of sha w2] p by (simp add: pending_only_def heap_ok_def w'(3))
  have cl: "clean (stores_of app) w'" by (simp add: clean_def w'(3) applied_def)
  show ?thesis
    by (rule exI [of _ resp], rule exI [of _ w']) (intro conjI allI w'(1,2) ok cl seq bal)
qed


section \<open>Witnesses\<close>

text \<open>Executable instances of the crates' functions: the genesis gives Alice an account and ten
  coins; every transaction is signed by Alice and its bytes are its one message, a transfer of
  four coins from Alice to Bob, or a message nobody handles when there are none.\<close>

definition demo_transfer :: "string msg_send" where
  "demo_transfer = \<lparr>from_address = ''alice'', to_address = ''bob'',
     msg_amount = [\<lparr>mc_denom = ''basecoin'', mc_amount = 4\<rparr>]\<rparr>"

definition demo_benv :: "(string, string msg_send, infallible, string list) bank_env" where
  "demo_benv = \<lparr>be_show = id, be_parse = Some,
     be_to_json = (\<lambda>cs. Some (unary (coins_nats cs))),
     be_from_json = (\<lambda>s. Some (nats_coins (of_unary 0 s))),
     be_genesis = (\<lambda>_. Some [(''alice'', [(''basecoin'', 10)])]),
     be_decode_send = (\<lambda>_. Some demo_transfer), be_send_try_into = Ok,
     be_parse_u256 = (\<lambda>_. Some 4), be_debug = (\<lambda>_. [])\<rparr>"

definition demo_env :: "(string, string, unit, unit, unit, string list) app_env" where
  "demo_env = \<lparr>
     ap_decode_tx = (\<lambda>request. Ok (bare_tx ''alice''
       [\<lparr>type_url = (if request = [] then [] else ''/cosmos.bank.v1beta1.MsgSend''), any_value = request\<rparr>])),
     ap_account_id = (\<lambda>key _. Some key), ap_from_json = (\<lambda>_. Some [''alice'']),
     ap_encode_proof = (\<lambda>_. []), ap_header = Some, ap_show_id = id, ap_show_ie = (\<lambda>_. []),
     ap_debug_error = (\<lambda>_. [])\<rparr>"

definition demo_app :: "(in_memory, unit, string, unit, unit, unit, string list) app" where
  "demo_app = runner_app id auth_test_env demo_benv 0 []"

definition demo_world :: "in_memory heap" where
  "demo_world = snd (mint_coins (runner_bank_store id 0) demo_benv ''alice'' (coins 10)
     (snd (set_account (auth_store id 0) auth_test_env (auth_account_new ''alice'') empty_world)))"

lemma demo_benv_ok: "bank_env_ok demo_benv"
  by (auto simp: bank_env_ok_def demo_benv_def of_unary_unary nats_coins_nats rust_string_unary)

lemma empty_world_ok: "heap_ok sha empty_world"
  by (simp add: heap_ok_def empty_world_def)

lemma empty_world_entries:
  "get_account (shared_ops (in_memory_ops id) b) auth_test_env j empty_world = Err ()"
  "get_all_balances (shared_ops (in_memory_ops id) b) demo_benv j empty_world = []"
  by (simp_all add: empty_world_def get_account_def get_all_balances_unfold ts_get_def read_access_def
      im_get_def im_get_state_def im_default_def avl.look_emp)

lemma demo_world_built:
  obtains w1 where
    "set_account (auth_store id 0) auth_test_env (auth_account_new ''alice'') empty_world = (Ok (), w1)"
    "mint_coins (runner_bank_store id 0) demo_benv ''alice'' (coins 10) w1 = (Ok (), demo_world)"
    "heap_ok id demo_world"
    "\<And>j. get_account (auth_store id 0) auth_test_env j demo_world =
       (if j = ''alice'' then Ok (auth_account_new ''alice'') else Err ())"
    "\<And>j. get_all_balances (runner_bank_store id 0) demo_benv j demo_world = (if j = ''alice'' then coins 10 else [])"
proof -
  have ok: "im_ok id (cell empty_world (auth_address 0))" by (simp add: empty_world_def)
  obtain w1 where w1: "set_account (auth_store id 0) auth_test_env (auth_account_new ''alice'') empty_world = (Ok (), w1)"
    and acc: "\<And>j. get_account (auth_store id 0) auth_test_env j w1 =
       (if j = acc_address (auth_account_new ''alice'') then Ok (auth_account_new ''alice'')
        else get_account (auth_store id 0) auth_test_env j empty_world)"
    using shared.kv.set_account_ok [OF auth_test_env_ok TrueI ok, of "auth_account_new ''alice''"] by metis
  have acc: "get_account (auth_store id 0) auth_test_env j w1 =
      (if j = ''alice'' then Ok (auth_account_new ''alice'') else Err ())" for j
    by (simp only: acc empty_world_entries) (simp add: auth_account_new_def)
  have "confined id {auth_address 0} (set_account (auth_store id 0) auth_test_env (auth_account_new ''alice''))"
    by (intro confined_intros) simp
  from confinedD [OF this empty_world_ok w1]
  have w1_ok: "heap_ok id w1" "cell w1 (bank_address 0) = cell empty_world (bank_address 0)"
    by (simp_all add: pending_only_def)
  then have none: "get_all_balances (runner_bank_store id 0) demo_benv j w1 = []" for j
    using get_all_balances_cong [of w1 "bank_address 0" empty_world id demo_benv j]
    by (simp add: empty_world_entries)
  have bank_ok: "im_ok id (cell w1 (bank_address 0))" using w1_ok(1) by (simp add: heap_ok_def)
  obtain w2 where w2: "mint_coins (runner_bank_store id 0) demo_benv ''alice'' (coins 10) w1 = (Ok (), w2)"
    "\<And>j. get_all_balances (runner_bank_store id 0) demo_benv j w2 = (if j = ''alice'' then coins 10 else [])"
  proof (cases rule: shared.kv.mint_coins_cases [OF demo_benv_ok TrueI bank_ok, of "''alice''" "coins 10",
        case_names ok fail])
    case (ok bs w2)
    then have "bs = coins 10" using mint_fresh [of 10] by (simp add: none)
    with ok that show ?thesis by (simp add: none)
  next
    case fail
    then show ?thesis using mint_fresh [of 10] by (simp add: none)
  qed
  have "confined id {bank_address 0} (mint_coins (runner_bank_store id 0) demo_benv ''alice'' (coins 10))"
    by (intro confined_intros) simp
  from confinedD [OF this w1_ok(1) w2(1)]
  have w2_ok: "heap_ok id w2" "cell w2 (auth_address 0) = cell w1 (auth_address 0)"
    by (simp_all add: pending_only_def)
  have "get_account (auth_store id 0) auth_test_env j w2 = get_account (auth_store id 0) auth_test_env j w1" for j
    by (rule get_account_cong) (simp only: w2_ok(2))
  moreover have "demo_world = w2" by (simp add: demo_world_def w1 w2(1))
  ultimately show ?thesis using that w1 w2 w2_ok(1) by (simp add: acc)
qed

lemma demo_app_confined: "confined_app id demo_app"
  unfolding demo_app_def by (rule runner.confined_app_axioms)

lemma demo_accounts_keyed: "accounts_keyed (auth_store id 0) auth_test_env demo_world"
  by (rule demo_world_built) (auto simp: accounts_keyed_def auth_account_new_def split: if_splits)

text \<open>The message nobody handles fails after Alice's sequence has been incremented.\<close>

lemma demo_unhandled:
  assumes w: "heap_ok id w" and keyed: "accounts_keyed (auth_store id 0) auth_test_env w"
    and known: "get_account (auth_store id 0) auth_test_env ''alice'' w = Ok account"
  obtains tx w1 where "ap_decode_tx demo_env [] = Ok tx" and "first_signer demo_env tx = Inr ''alice''"
    and "tx_messages tx \<noteq> []"
    and "deliver_messages demo_app (tx_messages tx) ''alice'' [] w = (Err NotHandled, w1)"
    and "get_account (auth_store id 0) auth_test_env ''alice'' w1 =
       Ok (account\<lparr>acc_sequence := acc_sequence account + 1\<rparr>)"
proof -
  have ok: "im_ok id (cell w (auth_address 0))" using w by (simp add: heap_ok_def)
  obtain w1 where w1: "set_account (auth_store id 0) auth_test_env
      (account\<lparr>acc_sequence := acc_sequence account + 1\<rparr>) w = (Ok (), w1)"
    "\<And>j. get_account (auth_store id 0) auth_test_env j w1 =
       (if j = ''alice'' then Ok (account\<lparr>acc_sequence := acc_sequence account + 1\<rparr>)
        else get_account (auth_store id 0) auth_test_env j w)"
    using shared.kv.sequence_incremented [OF auth_test_env_ok TrueI ok keyed known] by metis
  let ?tx = "bare_tx ''alice'' [\<lparr>type_url = [], any_value = []\<rparr>]"
  have bank: "md_deliver (runner_bank id auth_test_env demo_benv 0) \<lparr>type_url = [], any_value = []\<rparr> signer w1 =
      (Err NotHandled, w1)" for signer
    by (simp add: runner_bank_def bank_module_def bank_deliver_def bank_decode_def)
  have "deliver_messages demo_app (tx_messages ?tx) ''alice'' [] w = (Err NotHandled, w1)"
    by (simp add: deliver_msg_def demo_app_def runner_app_def runner_auth_def auth_module_def
        auth_deliver_step [OF known w1(1)] bank)
  then show ?thesis
    using that [of ?tx w1] w1(2) by (simp add: demo_env_def first_signer_def)
qed

text \<open>The genesis of the example builds the world with Alice's account and coins.\<close>

lemma demo_init_chain:
  "\<exists>h. init_chain (in_memory_ops id) demo_env demo_app [] empty_world = (Ok h, demo_world)"
proof -
  obtain w1 where w1:
    "set_account (auth_store id 0) auth_test_env (auth_account_new ''alice'') empty_world = (Ok (), w1)"
    "mint_coins (runner_bank_store id 0) demo_benv ''alice'' (coins 10) w1 = (Ok (), demo_world)"
    by (rule demo_world_built)
  have auth: "md_init (runner_auth id auth_test_env 0) [''alice''] empty_world =
      ((Ok (), w1) :: (infallible, unit) outcome \<times> in_memory heap)"
    using w1(1) by (simp add: runner_auth_def auth_module_def auth_init_def auth_test_env_def expect_def)
  have "map coin_from_pair [(''basecoin'', 10)] = coins 10"
    by (simp add: coins_def coin_from_pair_def)
  then have bank: "md_init (runner_bank id auth_test_env demo_benv 0) [''alice''] w1 =
      ((Ok (), demo_world) :: (infallible, unit) outcome \<times> in_memory heap)"
    using w1(2) by (simp add: runner_bank_def bank_module_def bank_init_def demo_benv_def expect_def)
  have "from_utf8 [] = Ok []" by code_simp
  then show ?thesis
    by (simp add: init_chain_def demo_env_def demo_app_def runner_app_def auth bank expect_def)
qed

theorem genesis_lost_on_first_failure_witness:
  "\<exists>h resp w. init_chain (in_memory_ops id) demo_env demo_app [] empty_world = (Ok h, demo_world) \<and>
     get_account (auth_store id 0) auth_test_env ''alice'' demo_world = Ok (auth_account_new ''alice'') \<and>
     deliver_tx (in_memory_ops id) demo_env demo_app [] demo_world = (Ok resp, w) \<and>
     rd_code resp = 2 \<and> get_account (auth_store id 0) auth_test_env ''alice'' w = Err ()"
proof -
  obtain h where init: "init_chain (in_memory_ops id) demo_env demo_app [] empty_world = (Ok h, demo_world)"
    using demo_init_chain by blast
  have w: "heap_ok id demo_world"
    and known: "get_account (auth_store id 0) auth_test_env ''alice'' demo_world = Ok (auth_account_new ''alice'')"
    by (rule demo_world_built; simp)+
  obtain tx w2 where tx: "ap_decode_tx demo_env [] = Ok tx" "first_signer demo_env tx = Inr ''alice''"
    "tx_messages tx \<noteq> []" "deliver_messages demo_app (tx_messages tx) ''alice'' [] demo_world = (Err NotHandled, w2)"
    by (rule demo_unhandled [OF w demo_accounts_keyed known])
  have "clean (stores_of demo_app) empty_world"
    by (simp add: clean_def empty_world_def im_default_def)
  from genesis_lost_on_first_failure [OF demo_app_confined empty_world_ok this init tx]
  obtain resp w3 where w3: "deliver_tx (in_memory_ops id) demo_env demo_app [] demo_world = (Ok resp, w3)"
    "rd_code resp = 2" "cell w3 = cell empty_world"
    by blast
  have "get_account (auth_store id 0) auth_test_env ''alice'' w3 =
      get_account (auth_store id 0) auth_test_env ''alice'' empty_world"
    by (rule get_account_cong) (simp only: w3(3))
  then show ?thesis using init known w3(1,2) by (simp add: empty_world_entries)
qed

text \<open>The same world with its changes accepted.\<close>

definition demo_applied :: "in_memory heap" where
  "demo_applied = demo_world\<lparr>cell := applied (stores_of demo_app) demo_world\<rparr>"

lemma demo_applied_ok: "heap_ok id demo_applied" "clean (stores_of demo_app) demo_applied"
proof -
  have "heap_ok id demo_world" by (rule demo_world_built)
  then show "heap_ok id demo_applied" unfolding demo_applied_def by (rule heap_ok_applied)
  show "clean (stores_of demo_app) demo_applied" by (simp add: clean_def demo_applied_def applied_def)
qed

lemma demo_applied_entries:
  "get_account (auth_store id 0) auth_test_env j demo_applied =
     (if j = ''alice'' then Ok (auth_account_new ''alice'') else Err ())"
  "get_all_balances (runner_bank_store id 0) demo_benv j demo_applied = (if j = ''alice'' then coins 10 else [])"
proof -
  have pending: "im_pending (cell demo_applied b) = im_pending (cell demo_world b)" for b
    by (simp add: demo_applied_def applied_def)
  have "get_account (auth_store id 0) auth_test_env j demo_applied =
      get_account (auth_store id 0) auth_test_env j demo_world"
    by (rule get_account_cong) (rule pending)
  then show "get_account (auth_store id 0) auth_test_env j demo_applied =
     (if j = ''alice'' then Ok (auth_account_new ''alice'') else Err ())"
    by - (rule demo_world_built; simp)
  have "get_all_balances (runner_bank_store id 0) demo_benv j demo_applied =
      get_all_balances (runner_bank_store id 0) demo_benv j demo_world"
    by (rule get_all_balances_cong) (rule pending)
  then show "get_all_balances (runner_bank_store id 0) demo_benv j demo_applied = (if j = ''alice'' then coins 10 else [])"
    by - (rule demo_world_built; simp)
qed

theorem deliver_tx_atomic_witness:
  "\<exists>w1 resp w2. deliver_messages demo_app [\<lparr>type_url = [], any_value = []\<rparr>] ''alice'' [] demo_applied =
       (Err NotHandled, w1) \<and>
     get_account (auth_store id 0) auth_test_env ''alice'' w1 \<noteq>
       get_account (auth_store id 0) auth_test_env ''alice'' demo_applied \<and>
     deliver_tx (in_memory_ops id) demo_env demo_app [] demo_applied = (Ok resp, w2) \<and>
     cell w2 = cell demo_applied"
proof -
  have keyed: "accounts_keyed (auth_store id 0) auth_test_env demo_applied"
    by (auto simp: accounts_keyed_def demo_applied_entries auth_account_new_def split: if_splits)
  have known: "get_account (auth_store id 0) auth_test_env ''alice'' demo_applied = Ok (auth_account_new ''alice'')"
    by (simp add: demo_applied_entries)
  obtain tx w1 where tx: "ap_decode_tx demo_env [] = Ok tx" "first_signer demo_env tx = Inr ''alice''"
    "tx_messages tx \<noteq> []" "deliver_messages demo_app (tx_messages tx) ''alice'' [] demo_applied = (Err NotHandled, w1)"
    and seq: "get_account (auth_store id 0) auth_test_env ''alice'' w1 =
       Ok ((auth_account_new ''alice'')\<lparr>acc_sequence := acc_sequence (auth_account_new ''alice'') + 1\<rparr>)"
    by (rule demo_unhandled [OF demo_applied_ok(1) keyed known])
  obtain w2 resp where w2: "deliver_tx (in_memory_ops id) demo_env demo_app [] demo_applied = (Ok resp, w2)"
    "rd_code resp = 2"
    by (rule confined_app.deliver_failed [OF demo_app_confined demo_applied_ok(1) tx])
  have "cell w2 = cell demo_applied"
    using deliver_tx_atomic [OF demo_app_confined demo_applied_ok w2(1)] w2(2) by simp
  moreover have "tx_messages tx = [\<lparr>type_url = [], any_value = []\<rparr>]"
    using tx(1) by (auto simp: demo_env_def)
  moreover have "get_account (auth_store id 0) auth_test_env ''alice'' w1 \<noteq>
      get_account (auth_store id 0) auth_test_env ''alice'' demo_applied"
    by (simp add: seq known auth_account_new_def)
  ultimately show ?thesis using tx(4) w2(1) by fastforce
qed

theorem app_hash_authenticates_witness:
  "\<exists>h w' p v pr root pr'. commit (in_memory_ops id) demo_app demo_applied = (Ok h, w') \<and>
     im_get Pending p (cell demo_applied (auth_address 0)) = Some v \<and>
     proves_entry id path_as_bytes root pr (p, v) \<and>
     proves_entry id path_as_bytes h pr' (path_from_identifier auth_prefix, root)"
proof -
  let ?m = "\<lparr>mod_id = auth_prefix, mod_ops = runner_auth id auth_test_env 0\<rparr>"
  have m: "?m \<in> set (app_modules demo_app)" by (simp add: demo_app_def runner_app_def)
  have "get_account (auth_store id 0) auth_test_env ''alice'' demo_applied \<noteq> Err ()"
    by (simp add: demo_applied_entries)
  then obtain p v where "im_get Pending p (cell demo_applied (auth_address 0)) = Some v"
    by (auto simp: get_account_def ts_get_def read_access_def split: option.splits bind_splits)
  then have v: "im_get Pending p (cell demo_applied (addr ?m)) = Some v" by simp
  obtain h w' where c: "commit (in_memory_ops id) demo_app demo_applied = (Ok h, w')"
    and all: "\<And>m p v. m \<in> set (app_modules demo_app) \<Longrightarrow> im_get Pending p (cell demo_applied (addr m)) = Some v \<Longrightarrow>
        \<exists>pr root pr'. proves_entry id path_as_bytes root pr (p, v) \<and>
           proves_entry id path_as_bytes h pr' (path_from_identifier (mod_id m), root)"
    using app_hash_authenticates [OF demo_app_confined demo_applied_ok(1)] by meson
  from all [OF m v] obtain pr root pr' where "proves_entry id path_as_bytes root pr (p, v)"
    "proves_entry id path_as_bytes h pr' (path_from_identifier auth_prefix, root)" by auto
  with c v show ?thesis
    by (intro exI [of _ h] exI [of _ w'] exI [of _ p] exI [of _ v] exI [of _ pr] exI [of _ root] exI [of _ pr']) simp
qed

theorem transfer_delivered_witness:
  "\<exists>resp w'. deliver_tx (in_memory_ops id) demo_env demo_app [1] demo_applied = (Ok resp, w') \<and>
     rd_code resp = 0 \<and>
     get_account (auth_store id 0) auth_test_env ''alice'' w' =
       Ok \<lparr>acc_address = ''alice'', acc_number = 0, acc_sequence = 1\<rparr> \<and>
     account_balance (runner_bank_store id 0) demo_benv ''basecoin'' w' ''alice'' = 6 \<and>
     account_balance (runner_bank_store id 0) demo_benv ''basecoin'' w' ''bob'' = 4"
proof -
  have keyed: "accounts_keyed (auth_store id 0) auth_test_env demo_applied"
    by (auto simp: accounts_keyed_def demo_applied_entries auth_account_new_def split: if_splits)
  have known: "get_account (auth_store id 0) auth_test_env ''alice'' demo_applied = Ok (auth_account_new ''alice'')"
    by (simp add: demo_applied_entries)
  have tx: "transfer_tx demo_env demo_benv [1] ''alice'' ''alice'' ''bob'' (coins 4)"
    by (simp add: transfer_tx_def demo_env_def demo_benv_def first_signer_def demo_transfer_def
        coin_from_msg_def coins_def)
  have "requested d (coins 4) < 2 ^ 256" for d by simp
  then have cov: "covered (runner_bank_store id 0) demo_benv demo_applied ''alice'' ''bob'' (coins 4)"
    by (auto simp: covered_def account_holds_def account_balance_def demo_applied_entries coins_def
        holds_denom_def)
  show ?thesis
    using transfer_delivered [OF demo_app_confined auth_test_env_ok demo_benv_ok demo_applied_ok(1) demo_app_def keyed known known tx _ cov]
    by (fastforce simp: account_balance_def demo_applied_entries auth_account_new_def)
qed

end
