(* ===== verification/Ledger.thy ===== *)
theory Ledger
  imports Runner
begin

text \<open>
  The abstract specification of the bank as the users of the chain see it: a ledger of sequence
  numbers and balances on which transactions of transfers act all or nothing. The application of
  \<open>basecoin/src/runner.rs\<close> implements it: whatever transactions of transfers a block holds, and
  however many blocks are committed, the stores of the auth and bank modules show exactly what
  the ledger computes, and every response has the code the ledger gives it. What follows for the
  ledger, such as the conservation of the supply, follows for the application.
\<close>

section \<open>The ledger\<close>

text \<open>\<open>lg_balance L i d\<close> is \<open>None\<close> when account \<open>i\<close> has no entry for the denomination \<open>d\<close>, which for
  the sender of a transfer is not the same as a balance of 0.\<close>

record 'id ledger =
  lg_sequence :: "'id \<Rightarrow> u64 option"
  lg_balance :: "'id \<Rightarrow> string \<Rightarrow> nat option"

record 'id transfer =
  tr_from :: 'id
  tr_to :: 'id
  tr_coins :: "coin list"

definition held :: "'id ledger \<Rightarrow> string \<Rightarrow> 'id \<Rightarrow> nat" where
  "held L d i = unwrap_or 0 (lg_balance L i d)"

definition denoms :: "coin list \<Rightarrow> string list" where
  "denoms cs = map coin_denom cs"

definition sendable :: "'id transfer \<Rightarrow> 'id ledger \<Rightarrow> bool" where
  "sendable t L \<longleftrightarrow> list_all (\<lambda>d. lg_balance L (tr_from t) d \<noteq> None \<and>
     requested d (tr_coins t) \<le> held L d (tr_from t) \<and>
     held L d (tr_to t) + requested d (tr_coins t) < 2 ^ 256) (denoms (tr_coins t))"

text \<open>The receiver is written last: a transfer to oneself only credits.\<close>

definition moved :: "'id transfer \<Rightarrow> 'id ledger \<Rightarrow> 'id \<Rightarrow> string \<Rightarrow> nat option" where
  "moved t L i d =
     (if i = tr_to t then
        (if d \<in> set (denoms (tr_coins t)) then Some (held L d i + requested d (tr_coins t)) else lg_balance L i d)
      else if i = tr_from t then map_option (\<lambda>n. n - requested d (tr_coins t)) (lg_balance L i d)
      else lg_balance L i d)"

definition ledger_message :: "'id \<Rightarrow> 'id transfer \<Rightarrow> 'id ledger \<Rightarrow> 'id ledger option" where
  "ledger_message signer t L = (case lg_sequence L signer of
     None \<Rightarrow> None
   | Some n \<Rightarrow>
       if lg_sequence L (tr_from t) = None \<or> \<not> sendable t L then None
       else Some \<lparr>lg_sequence = (lg_sequence L)(signer \<mapsto> n + 1), lg_balance = moved t L\<rparr>)"

fun ledger_messages :: "'id \<Rightarrow> 'id transfer list \<Rightarrow> 'id ledger \<Rightarrow> 'id ledger option" where
  "ledger_messages signer [] L = Some L"
| "ledger_messages signer (t # ts) L = Option.bind (ledger_message signer t L) (ledger_messages signer ts)"

text \<open>A transaction and its code.\<close>

definition ledger_tx :: "'id \<times> 'id transfer list \<Rightarrow> 'id ledger \<Rightarrow> 32 word \<times> 'id ledger" where
  "ledger_tx tx L = (case ledger_messages (fst tx) (snd tx) L of None \<Rightarrow> (2, L) | Some L' \<Rightarrow> (0, L'))"

fun ledger_run :: "('id \<times> 'id transfer list) list \<Rightarrow> 'id ledger \<Rightarrow> 32 word list \<times> 'id ledger" where
  "ledger_run [] L = ([], L)"
| "ledger_run (tx # txs) L = (case ledger_tx tx L of
     (code, L') \<Rightarrow> (case ledger_run txs L' of (codes, L'') \<Rightarrow> (code # codes, L'')))"


lemma ledger_run_append:
  "ledger_run (txs @ txs') L = (case ledger_run txs L of
     (codes, L') \<Rightarrow> (case ledger_run txs' L' of (codes', L'') \<Rightarrow> (codes @ codes', L'')))"
  by (induction txs arbitrary: L) (auto split: prod.splits)


section \<open>What the application shows of it\<close>

definition ledger_of ::
  "(bytes \<Rightarrow> bytes) \<Rightarrow> ('id, 'j) auth_env \<Rightarrow> ('id, 'raw, infallible, 'j) bank_env \<Rightarrow> nat \<Rightarrow>
   (in_memory, 'y) heap_scheme \<Rightarrow> 'id ledger" where
  "ledger_of sha aenv benv a w = \<lparr>
     lg_sequence = (\<lambda>i. case get_account (auth_store sha a) aenv i w of Ok acc \<Rightarrow> Some (acc_sequence acc) | _ \<Rightarrow> None),
     lg_balance = (\<lambda>i d. if account_holds (runner_bank_store sha a) benv d w i
        then Some (account_balance (runner_bank_store sha a) benv d w i) else None)\<rparr>"

text \<open>The transfers that a message and a transaction carry.\<close>

definition read_send :: "('id, 'raw, 'e, 'j) bank_env \<Rightarrow> any \<Rightarrow> 'id transfer option" where
  "read_send benv message =
     (if type_url message \<noteq> ''/cosmos.bank.v1beta1.MsgSend'' then None
      else (case be_decode_send benv (any_value message) of
          None \<Rightarrow> None
        | Some raw \<Rightarrow> (case be_send_try_into benv raw of
            Ok m \<Rightarrow> map_option (\<lambda>cs. \<lparr>tr_from = from_address m, tr_to = to_address m, tr_coins = cs\<rparr>)
               (those (map (coin_from_msg (be_parse_u256 benv)) (msg_amount m)))
          | _ \<Rightarrow> None)))"

definition read_tx ::
  "('id, 'pk, 'ie, 'rh, 'h, 'j) app_env \<Rightarrow> ('id, 'raw, 'e, 'j) bank_env \<Rightarrow> bytes \<Rightarrow>
   ('id \<times> 'id transfer list) option" where
  "read_tx env benv request = (case ap_decode_tx env request of
     Ok tx \<Rightarrow> (case first_signer env tx of
         Inr signer \<Rightarrow>
           if tx_messages tx = [] then None
           else map_option (Pair signer) (those (map (read_send benv) (tx_messages tx)))
       | Inl _ \<Rightarrow> None)
   | _ \<Rightarrow> None)"

text \<open>Blocks: the transactions of each are delivered one after the other and then committed.\<close>

fun deliver_all ::
  "('s, 'e, 'z) provable_ops_scheme \<Rightarrow> ('id, 'pk, 'ie, 'rh, 'h, 'j) app_env \<Rightarrow>
   ('s, 'y, 'id, 'ie, 'ev, 'h, 'j) app \<Rightarrow> bytes list \<Rightarrow> ('s, 'y) heap_scheme \<Rightarrow>
   (infallible, 'ev response_deliver_tx list) outcome \<times> ('s, 'y) heap_scheme" where
  "deliver_all ops env app [] w = (Ok [], w)"
| "deliver_all ops env app (request # requests) w =
     and_then (deliver_tx ops env app request w) (\<lambda>resp w.
     and_then (deliver_all ops env app requests w) (\<lambda>resps w. (Ok (resp # resps), w)))"

fun run_blocks ::
  "('s, 'e, 'z) provable_ops_scheme \<Rightarrow> ('id, 'pk, 'ie, 'rh, 'h, 'j) app_env \<Rightarrow>
   ('s, 'y, 'id, 'ie, 'ev, 'h, 'j) app \<Rightarrow> bytes list list \<Rightarrow> ('s, 'y) heap_scheme \<Rightarrow>
   (infallible, 'ev response_deliver_tx list) outcome \<times> ('s, 'y) heap_scheme" where
  "run_blocks ops env app [] w = (Ok [], w)"
| "run_blocks ops env app (block # blocks) w =
     and_then (deliver_all ops env app block w) (\<lambda>resps w.
     and_then (commit ops app w) (\<lambda>_ w.
     and_then (run_blocks ops env app blocks w) (\<lambda>resps' w. (Ok (resps @ resps'), w))))"


section \<open>One message\<close>

lemma held_ledger_of [simp]:
  "held (ledger_of sha aenv benv a w) d i = account_balance (runner_bank_store sha a) benv d w i"
proof -
  have "\<not> holds_denom d cs \<Longrightarrow> balance_of d cs = 0" for cs
    by (auto simp: holds_denom_position intro: balance_of_absent)
  then show ?thesis by (simp add: held_def ledger_of_def account_holds_def account_balance_def)
qed

lemma requested_absent: "d \<notin> set (denoms cs) \<Longrightarrow> requested d cs = 0"
  by (induction cs) (auto simp: denoms_def)

lemma sendable_covered:
  "sendable t (ledger_of sha aenv benv a w) \<longleftrightarrow>
     covered (runner_bank_store sha a) benv w (tr_from t) (tr_to t) (tr_coins t)"
proof -
  have "account_balance (runner_bank_store sha a) benv d w i + requested d (tr_coins t) < 2 ^ 256"
    and "requested d (tr_coins t) \<le> account_balance (runner_bank_store sha a) benv d w j"
    if "d \<notin> set (denoms (tr_coins t))" for d i j
    using requested_absent [OF that] balance_of_bound by (simp_all add: account_balance_def)
  moreover have "lg_balance (ledger_of sha aenv benv a w) i d \<noteq> None \<longleftrightarrow>
      account_holds (runner_bank_store sha a) benv d w i" for i d
    by (simp add: ledger_of_def)
  ultimately show ?thesis
    by (auto simp: sendable_def covered_def list_all_iff) (auto simp: denoms_def)
qed

lemma ledger_of_cong:
  assumes "\<And>b. b \<in> {auth_address a, bank_address a} \<Longrightarrow> im_pending (cell w b) = im_pending (cell w' b)"
  shows "ledger_of sha aenv benv a w = ledger_of sha aenv benv a w'"
    and "accounts_keyed (auth_store sha a) aenv w \<longleftrightarrow> accounts_keyed (auth_store sha a) aenv w'"
proof -
  have g: "get_account (auth_store sha a) aenv i w = get_account (auth_store sha a) aenv i w'" for i
    by (rule get_account_cong) (simp add: assms)
  have b: "get_all_balances (runner_bank_store sha a) benv i w = get_all_balances (runner_bank_store sha a) benv i w'" for i
    by (rule get_all_balances_cong) (simp add: assms)
  show "ledger_of sha aenv benv a w = ledger_of sha aenv benv a w'"
    unfolding ledger_of_def account_balance_def account_holds_def g b ..
  show "accounts_keyed (auth_store sha a) aenv w \<longleftrightarrow> accounts_keyed (auth_store sha a) aenv w'"
    unfolding accounts_keyed_def g ..
qed


text \<open>What is pending in every other store stays.\<close>

definition untouched_beside :: "nat \<Rightarrow> (in_memory, 'y) heap_scheme \<Rightarrow> (in_memory, 'y) heap_scheme \<Rightarrow> bool" where
  "untouched_beside a w w' \<longleftrightarrow> (\<forall>b. b \<notin> {auth_address a, bank_address a} \<longrightarrow>
     im_pending (cell w' b) = im_pending (cell w b))"

lemma untouched_trans: "untouched_beside a w w1 \<Longrightarrow> untouched_beside a w1 w2 \<Longrightarrow> untouched_beside a w w2"
  by (simp add: untouched_beside_def)

lemma send_moves:
  fixes benv :: "('id, 'raw, infallible, 'j) bank_env"
    and w :: "(in_memory, 'y) heap_scheme"
  assumes benv: "bank_env_ok benv" and w: "heap_ok sha w"
    and cov: "sendable t (ledger_of sha aenv benv a w)"
  obtains w' where "send_coins (runner_bank_store sha a) benv (tr_from t) (tr_to t) (tr_coins t) w = (Ok (), w')"
    and "heap_ok sha w'" and "\<And>b. b \<noteq> bank_address a \<Longrightarrow> cell w' b = cell w b"
    and "lg_balance (ledger_of sha aenv benv a w') = moved t (ledger_of sha aenv benv a w)"
proof -
  have bank: "im_ok sha (cell w (bank_address a))" using w by (simp add: heap_ok_def)
  note cov = cov [unfolded sendable_covered shared.kv.covered_loops]
  show ?thesis
  proof (cases rule: shared.kv.send_coins_cases [OF benv TrueI bank, of "tr_from t" "tr_to t" "tr_coins t",
        case_names ok fail])
    case (ok src' dst' w')
    have "confined sha {bank_address a}
        (send_coins (runner_bank_store sha a) benv (tr_from t) (tr_to t) (tr_coins t))"
      by (intro confined_intros) simp
    from confinedD [OF this w ok(1)]
    have w': "heap_ok sha w'" "\<And>b. b \<noteq> bank_address a \<Longrightarrow> cell w' b = cell w b"
      by (simp_all add: pending_only_def)
    have bal: "balance_of d src' = account_balance (runner_bank_store sha a) benv d w (tr_from t) - requested d (tr_coins t)"
      "balance_of d dst' = account_balance (runner_bank_store sha a) benv d w (tr_to t) + requested d (tr_coins t)" for d
      using burn_loop_Ok [OF ok(3), of d] mint_loop_Ok [OF ok(4), of d] by (auto simp: account_balance_def)
    have holds: "holds_denom d src' \<longleftrightarrow> account_holds (runner_bank_store sha a) benv d w (tr_from t)"
      "holds_denom d dst' \<longleftrightarrow> account_holds (runner_bank_store sha a) benv d w (tr_to t) \<or> d \<in> set (denoms (tr_coins t))" for d
      using burn_loop_Ok [OF ok(3), of d] mint_loop_holds [OF ok(4), of d]
      by (auto simp: account_holds_def denoms_def)
    have "lg_balance (ledger_of sha aenv benv a w') i d = moved t (ledger_of sha aenv benv a w) i d" for i d
      using bal holds requested_absent [of d "tr_coins t"]
      by (auto simp: moved_def) (auto simp: ledger_of_def account_balance_def account_holds_def ok(5))
    then have "lg_balance (ledger_of sha aenv benv a w') = moved t (ledger_of sha aenv benv a w)" by blast
    then show ?thesis using that ok(1) w' by blast
  next
    case (fail e)
    then show ?thesis using cov by blast
  qed
qed

lemma runner_message:
  fixes benv :: "('id, 'raw, infallible, 'j) bank_env"
    and w :: "(in_memory, 'y) heap_scheme"
    and app :: "(in_memory, 'y, 'id, 'ie, 'ev, 'h, 'j) app"
  assumes envs: "auth_env_ok aenv" "bank_env_ok benv" and w: "heap_ok sha w"
    and app: "app = runner_app sha aenv benv a rest"
    and keyed: "accounts_keyed (auth_store sha a) aenv w"
    and read: "read_send benv message = Some t"
  shows "case ledger_message signer t (ledger_of sha aenv benv a w) of
      None \<Rightarrow> \<exists>e w'. deliver_msg app message signer w = (Err e, w')
    | Some L \<Rightarrow> \<exists>w'. deliver_msg app message signer w = (Ok [], w') \<and> heap_ok sha w' \<and>
        accounts_keyed (auth_store sha a) aenv w' \<and> ledger_of sha aenv benv a w' = L \<and>
        untouched_beside a w w'"
proof (cases "get_account (auth_store sha a) aenv signer w")
  case (Ok account)
  obtain w1 where w1: "heap_ok sha w1" "\<And>b. b \<noteq> auth_address a \<Longrightarrow> cell w1 b = cell w b"
    and acc: "\<And>i. get_account (auth_store sha a) aenv i w1 =
       (if i = signer then Ok (account\<lparr>acc_sequence := acc_sequence account + 1\<rparr>)
        else get_account (auth_store sha a) aenv i w)"
    and bank: "deliver_msg app message signer w =
       deliver_loop (\<lparr>mod_id = bank_prefix, mod_ops = runner_bank sha aenv benv a\<rparr> # rest) message signer w1"
    using runner_auth_step [OF envs(1) w app keyed Ok, where message = message] by blast
  obtain raw m where m: "type_url message = ''/cosmos.bank.v1beta1.MsgSend''"
    "be_decode_send benv (any_value message) = Some raw" "be_send_try_into benv raw = Ok m"
    "from_address m = tr_from t" "to_address m = tr_to t"
    "those (map (coin_from_msg (be_parse_u256 benv)) (msg_amount m)) = Some (tr_coins t)"
    using read by (auto simp: read_send_def split: if_splits option.splits outcome.splits)
  have deliver: "md_deliver (runner_bank sha aenv benv a) message signer w1 =
      and_then (map_err (\<lambda>_. BankErr (NonExistentAccount (tr_from t)))
         (get_account (auth_store sha a) aenv (tr_from t) w1), w1) (\<lambda>_ w.
        case send_coins (runner_bank_store sha a) benv (tr_from t) (tr_to t) (tr_coins t) w of
          (r, w') \<Rightarrow> and_then (map_err BankErr r, w') (\<lambda>_ w. (Ok [], w)))"
    using m by (simp add: runner_bank_def bank_module_def bank_deliver_def bank_decode_def)
  have "get_all_balances (runner_bank_store sha a) benv j w1 = get_all_balances (runner_bank_store sha a) benv j w" for j
    by (rule get_all_balances_cong) (simp add: w1(2))
  then have L1: "ledger_of sha aenv benv a w1 = (ledger_of sha aenv benv a w)
      \<lparr>lg_sequence := (lg_sequence (ledger_of sha aenv benv a w))(signer \<mapsto> acc_sequence account + 1)\<rparr>"
    by (auto simp: ledger_of_def acc account_balance_def account_holds_def fun_eq_iff)
  have seq: "lg_sequence (ledger_of sha aenv benv a w) signer = Some (acc_sequence account)"
    using Ok by (simp add: ledger_of_def)
  have known: "lg_sequence (ledger_of sha aenv benv a w) (tr_from t) = None \<longleftrightarrow>
      (\<forall>x. get_account (auth_store sha a) aenv (tr_from t) w1 \<noteq> Ok x)"
    using Ok by (auto simp: ledger_of_def acc split: outcome.splits)
  have same: "sendable t (ledger_of sha aenv benv a w1) \<longleftrightarrow> sendable t (ledger_of sha aenv benv a w)"
    "moved t (ledger_of sha aenv benv a w1) = moved t (ledger_of sha aenv benv a w)"
    unfolding L1 by (simp_all add: sendable_def moved_def held_def fun_eq_iff)
  consider (unknown) "\<forall>x. get_account (auth_store sha a) aenv (tr_from t) w1 \<noteq> Ok x"
    | (short) x where "get_account (auth_store sha a) aenv (tr_from t) w1 = Ok x" "\<not> sendable t (ledger_of sha aenv benv a w)"
    | (sent) x where "get_account (auth_store sha a) aenv (tr_from t) w1 = Ok x" "sendable t (ledger_of sha aenv benv a w)"
    by blast
  then show ?thesis
  proof cases
    case unknown
    then have "get_account (auth_store sha a) aenv (tr_from t) w1 = Err ()"
      by (auto simp: get_account_def split: option.splits)
    moreover have "ledger_message signer t (ledger_of sha aenv benv a w) = None"
      using unknown known seq by (simp add: ledger_message_def)
    ultimately show ?thesis by (simp add: bank deliver)
  next
    case short
    have "im_ok sha (cell w1 (bank_address a))" using w1(1) by (simp add: heap_ok_def)
    from shared.kv.send_coins_uncovered [OF envs(2) TrueI this]
    obtain e where "send_coins (runner_bank_store sha a) benv (tr_from t) (tr_to t) (tr_coins t) w1 = (Err e, w1)"
      using short(2) same(1) unfolding sendable_covered by metis
    moreover have "ledger_message signer t (ledger_of sha aenv benv a w) = None"
      using short seq by (simp add: ledger_message_def)
    ultimately show ?thesis using short(1) by (simp add: bank deliver)
  next
    case sent
    obtain w2 where w2: "send_coins (runner_bank_store sha a) benv (tr_from t) (tr_to t) (tr_coins t) w1 = (Ok (), w2)"
      "heap_ok sha w2" "\<And>b. b \<noteq> bank_address a \<Longrightarrow> cell w2 b = cell w1 b"
      "lg_balance (ledger_of sha aenv benv a w2) = moved t (ledger_of sha aenv benv a w1)"
      by (rule send_moves [OF envs(2) w1(1), of t aenv a]) (use sent same in auto)
    have acc2: "get_account (auth_store sha a) aenv i w2 = get_account (auth_store sha a) aenv i w1" for i
      by (rule get_account_cong) (simp add: w2(3))
    have "accounts_keyed (auth_store sha a) aenv w2"
      using keyed Ok by (auto simp: accounts_keyed_def acc2 acc split: if_splits)
    moreover have "lg_sequence (ledger_of sha aenv benv a w2) = lg_sequence (ledger_of sha aenv benv a w1)"
      by (simp add: ledger_of_def acc2)
    then have "ledger_of sha aenv benv a w2 = \<lparr>lg_sequence = (lg_sequence (ledger_of sha aenv benv a w))
        (signer \<mapsto> acc_sequence account + 1), lg_balance = moved t (ledger_of sha aenv benv a w)\<rparr>"
      using w2(4) by (simp add: L1 same(2) [unfolded L1])
    then have "ledger_message signer t (ledger_of sha aenv benv a w) = Some (ledger_of sha aenv benv a w2)"
      using seq sent known by (auto simp: ledger_message_def)
    moreover have "untouched_beside a w w2" by (simp add: untouched_beside_def w1(2) w2(3))
    ultimately show ?thesis using sent(1) w2(1,2) by (simp add: bank deliver)
  qed
next
  case (Err u)
  then have "deliver_msg app message signer w = (Err (Custom ''unknown signer''), w)"
    by (simp add: app deliver_msg_def runner_app_def runner_auth_def auth_module_def auth_deliver_def)
  moreover have "ledger_message signer t (ledger_of sha aenv benv a w) = None"
    using Err by (simp add: ledger_message_def ledger_of_def)
  ultimately show ?thesis by simp
qed (simp_all add: get_account_def split: option.splits)


section \<open>Transactions and blocks\<close>

lemma runner_messages:
  fixes benv :: "('id, 'raw, infallible, 'j) bank_env"
    and w :: "(in_memory, 'y) heap_scheme"
    and app :: "(in_memory, 'y, 'id, 'ie, 'ev, 'h, 'j) app"
  assumes envs: "auth_env_ok aenv" "bank_env_ok benv" and app: "app = runner_app sha aenv benv a rest"
    and "heap_ok sha w" and "accounts_keyed (auth_store sha a) aenv w"
    and "those (map (read_send benv) messages) = Some ts"
  shows "case ledger_messages signer ts (ledger_of sha aenv benv a w) of
      None \<Rightarrow> \<exists>e w'. deliver_messages app messages signer [] w = (Err e, w')
    | Some L \<Rightarrow> \<exists>w'. deliver_messages app messages signer [] w = (Ok [], w') \<and> heap_ok sha w' \<and>
        accounts_keyed (auth_store sha a) aenv w' \<and> ledger_of sha aenv benv a w' = L \<and>
        untouched_beside a w w'"
  using assms(4-)
proof (induction messages arbitrary: w ts)
  case (Cons message messages)
  obtain t ts' where ts: "ts = t # ts'" "read_send benv message = Some t"
    "those (map (read_send benv) messages) = Some ts'"
    using Cons.prems(3) by (auto split: option.splits)
  note step = runner_message [OF envs Cons.prems(1) app Cons.prems(2) ts(2), of signer]
  show ?case
  proof (cases "ledger_message signer t (ledger_of sha aenv benv a w)")
    case None
    then show ?thesis using step by (auto simp: ts(1))
  next
    case (Some L)
    then obtain w1 where w1: "deliver_msg app message signer w = (Ok [], w1)" "heap_ok sha w1"
      "accounts_keyed (auth_store sha a) aenv w1" "ledger_of sha aenv benv a w1 = L" "untouched_beside a w w1"
      using step by auto
    show ?thesis using Cons.IH [OF w1(2,3) ts(3)] Some w1(1,4) untouched_trans [OF w1(5)]
      by (auto simp: ts(1) split: option.splits)
  qed
qed (auto simp: untouched_beside_def)

lemma runner_tx:
  fixes benv :: "('id, 'raw, infallible, 'j) bank_env"
    and env :: "('id, 'pk, 'ie, 'rh, 'h, 'j) app_env"
    and w :: "(in_memory, 'y) heap_scheme"
    and app :: "(in_memory, 'y, 'id, 'ie, 'ev, 'h, 'j) app"
  assumes conf: "confined_app sha app" and envs: "auth_env_ok aenv" "bank_env_ok benv"
    and app: "app = runner_app sha aenv benv a rest"
    and w: "heap_ok sha w" and clean: "clean (stores_of app) w" and keyed: "accounts_keyed (auth_store sha a) aenv w"
    and read: "read_tx env benv request = Some tx"
  obtains resp w' where "deliver_tx (in_memory_ops sha) env app request w = (Ok resp, w')"
    and "(rd_code resp, ledger_of sha aenv benv a w') = ledger_tx tx (ledger_of sha aenv benv a w)"
    and "heap_ok sha w'" and "clean (stores_of app) w'" and "accounts_keyed (auth_store sha a) aenv w'"
    and "untouched_beside a w w'"
proof -
  obtain x where x: "ap_decode_tx env request = Ok x" "first_signer env x = Inr (fst tx)" "tx_messages x \<noteq> []"
    "those (map (read_send benv) (tx_messages x)) = Some (snd tx)"
    using read by (auto simp: read_tx_def split: outcome.splits sum.splits if_splits)
  note run = runner_messages [OF envs app w keyed x(4), of "fst tx"]
  show ?thesis
  proof (cases "ledger_messages (fst tx) (snd tx) (ledger_of sha aenv benv a w)")
    case None
    then obtain e w1 where "deliver_messages app (tx_messages x) (fst tx) [] w = (Err e, w1)"
      using run by auto
    from confined_app.deliver_failed [OF conf w x(1,2,3) this]
    obtain w' resp where w': "deliver_tx (in_memory_ops sha) env app request w = (Ok resp, w')"
      "rd_code resp = 2" "cell w' = rolled_back (stores_of app) w" by metis
    then have same: "cell w' = cell w" using rolled_back_clean [OF clean] by simp
    then have pending: "im_pending (cell w' b) = im_pending (cell w b)" for b by simp
    have L: "ledger_of sha aenv benv a w' = ledger_of sha aenv benv a w"
      and k: "accounts_keyed (auth_store sha a) aenv w'"
      using ledger_of_cong [of a w' w sha] pending keyed by auto
    show ?thesis
      by (rule that [OF w'(1)])
        (use w'(2) None L k w clean same in
          \<open>simp_all add: ledger_tx_def heap_ok_def clean_def untouched_beside_def\<close>)
  next
    case (Some L)
    then obtain w1 where w1: "deliver_messages app (tx_messages x) (fst tx) [] w = (Ok [], w1)"
      "accounts_keyed (auth_store sha a) aenv w1" "ledger_of sha aenv benv a w1 = L" "untouched_beside a w w1"
      using run by auto
    from confined_app.deliver_succeeded [OF conf w x(1,2,3) w1(1)]
    obtain w' resp where w': "deliver_tx (in_memory_ops sha) env app request w = (Ok resp, w')"
      "rd_code resp = 0" "cell w' = applied (stores_of app) w1" by metis
    then have pending: "im_pending (cell w' b) = im_pending (cell w1 b)" for b by (simp add: applied_def)
    have L: "ledger_of sha aenv benv a w' = L"
      and k: "accounts_keyed (auth_store sha a) aenv w'"
      using ledger_of_cong [of a w' w1 sha] pending w1(2,3) by auto
    have atomic: "heap_ok sha w' \<and> clean (stores_of app) w'"
      using deliver_tx_atomic [OF conf w clean w'(1)] w'(2) by simp
    show ?thesis
      by (rule that [OF w'(1)]) (use w'(2) Some L k atomic w1(4) pending in \<open>simp_all add: ledger_tx_def untouched_beside_def\<close>)
  qed
qed

lemma runner_block:
  fixes benv :: "('id, 'raw, infallible, 'j) bank_env"
    and env :: "('id, 'pk, 'ie, 'rh, 'h, 'j) app_env"
    and w :: "(in_memory, 'y) heap_scheme"
    and app :: "(in_memory, 'y, 'id, 'ie, 'ev, 'h, 'j) app"
  assumes conf: "confined_app sha app" and envs: "auth_env_ok aenv" "bank_env_ok benv"
    and app: "app = runner_app sha aenv benv a rest"
    and "heap_ok sha w" and "clean (stores_of app) w" and "accounts_keyed (auth_store sha a) aenv w"
    and "those (map (read_tx env benv) requests) = Some txs"
  shows "\<exists>resps w'. deliver_all (in_memory_ops sha) env app requests w = (Ok resps, w') \<and>
     (map rd_code resps, ledger_of sha aenv benv a w') = ledger_run txs (ledger_of sha aenv benv a w) \<and>
     heap_ok sha w' \<and> clean (stores_of app) w' \<and> accounts_keyed (auth_store sha a) aenv w'"
  using assms(5-)
proof (induction requests arbitrary: w txs)
  case (Cons request requests)
  obtain tx txs' where txs: "txs = tx # txs'" "read_tx env benv request = Some tx"
    "those (map (read_tx env benv) requests) = Some txs'"
    using Cons.prems(4) by (auto split: option.splits)
  obtain resp w1 where w1: "deliver_tx (in_memory_ops sha) env app request w = (Ok resp, w1)"
    "(rd_code resp, ledger_of sha aenv benv a w1) = ledger_tx tx (ledger_of sha aenv benv a w)"
    "heap_ok sha w1" "clean (stores_of app) w1" "accounts_keyed (auth_store sha a) aenv w1"
    by (rule runner_tx [OF conf envs app Cons.prems(1-3) txs(2)])
  obtain resps w' where w': "deliver_all (in_memory_ops sha) env app requests w1 = (Ok resps, w')"
    "(map rd_code resps, ledger_of sha aenv benv a w') = ledger_run txs' (ledger_of sha aenv benv a w1)"
    "heap_ok sha w'" "clean (stores_of app) w'" "accounts_keyed (auth_store sha a) aenv w'"
    using Cons.IH [OF w1(3-5) txs(3)] by blast
  have "ledger_run txs (ledger_of sha aenv benv a w) = (map rd_code (resp # resps), ledger_of sha aenv benv a w')"
    by (simp add: txs(1) flip: w1(2) w'(2))
  then show ?case using w1(1) w'(1,3-5) by auto
qed auto

lemma commit_keeps_ledger:
  fixes w :: "(in_memory, 'y) heap_scheme"
    and app :: "(in_memory, 'y, 'id, 'ie, 'ev, 'h, 'j) app"
  assumes conf: "confined_app sha app" and app: "app = runner_app sha aenv benv a rest" and w: "heap_ok sha w"
  obtains h w' where "commit (in_memory_ops sha) app w = (Ok h, w')" and "heap_ok sha w'"
    and "clean (stores_of app) w'"
    and "ledger_of sha aenv benv a w' = ledger_of sha aenv benv a w"
    and "accounts_keyed (auth_store sha a) aenv w' \<longleftrightarrow> accounts_keyed (auth_store sha a) aenv w"
    and "\<And>b. b \<noteq> a \<Longrightarrow> im_pending (cell w' b) = im_pending (cell w b)"
proof -
  obtain h w' where c: "commit (in_memory_ops sha) app w = (Ok h, w')" "heap_ok sha w'"
    and mods: "\<And>m. m \<in> set (app_modules app) \<Longrightarrow> cell w' (addr m) = committed (cell w (addr m))"
    and main: "\<exists>s. cell w' (app_store app) = committed s \<and> im_ok sha s \<and> h = tree_root (im_pending s) \<and>
       im_store s = im_store (cell w (app_store app)) \<and>
       (\<forall>m \<in> set (app_modules app). avl_get (path_from_identifier (mod_id m)) (im_pending s) =
          Some (tree_root (im_pending (cell w (addr m)))))"
    and beside: "\<And>b. b \<notin> stores_of app \<Longrightarrow> cell w' b = cell w b"
    by (rule confined_app.commit_ok [OF conf w]) (rule that)
  have clean: "clean (stores_of app) w'"
    using main mods by (auto simp: clean_def committed_def)
  have pending: "im_pending (cell w' b) = im_pending (cell w b)" if "b \<noteq> a" for b
  proof (cases "b \<in> addr ` set (app_modules app)")
    case True
    then show ?thesis using mods by (auto simp: committed_def)
  next
    case False
    then show ?thesis using beside [of b] that by (simp add: app runner_app_def)
  qed
  then have two: "im_pending (cell w' b) = im_pending (cell w b)" if "b \<in> {auth_address a, bank_address a}" for b
    using that by auto
  show ?thesis
    by (rule that [OF c clean]) (use ledger_of_cong [of a w' w] two pending in blast)+
qed

lemma runner_blocks:
  fixes benv :: "('id, 'raw, infallible, 'j) bank_env"
    and env :: "('id, 'pk, 'ie, 'rh, 'h, 'j) app_env"
    and w :: "(in_memory, 'y) heap_scheme"
    and app :: "(in_memory, 'y, 'id, 'ie, 'ev, 'h, 'j) app"
  assumes conf: "confined_app sha app" and envs: "auth_env_ok aenv" "bank_env_ok benv"
    and app: "app = runner_app sha aenv benv a rest"
    and "heap_ok sha w" and "clean (stores_of app) w" and "accounts_keyed (auth_store sha a) aenv w"
    and "those (map (\<lambda>block. those (map (read_tx env benv) block)) blocks) = Some txs"
  shows "\<exists>resps w'. run_blocks (in_memory_ops sha) env app blocks w = (Ok resps, w') \<and>
     (map rd_code resps, ledger_of sha aenv benv a w') = ledger_run (concat txs) (ledger_of sha aenv benv a w)"
  using assms(5-)
proof (induction blocks arbitrary: w txs)
  case (Cons block blocks)
  obtain tx txs' where txs: "txs = tx # txs'" "those (map (read_tx env benv) block) = Some tx"
    "those (map (\<lambda>block. those (map (read_tx env benv) block)) blocks) = Some txs'"
    using Cons.prems(4) by (auto split: option.splits)
  obtain resps w1 where w1: "deliver_all (in_memory_ops sha) env app block w = (Ok resps, w1)"
    "(map rd_code resps, ledger_of sha aenv benv a w1) = ledger_run tx (ledger_of sha aenv benv a w)"
    "heap_ok sha w1" "accounts_keyed (auth_store sha a) aenv w1"
    using runner_block [OF conf envs app Cons.prems(1-3) txs(2)] by blast
  obtain h w2 where w2: "commit (in_memory_ops sha) app w1 = (Ok h, w2)" "heap_ok sha w2" "clean (stores_of app) w2"
    "ledger_of sha aenv benv a w2 = ledger_of sha aenv benv a w1" "accounts_keyed (auth_store sha a) aenv w2"
    using commit_keeps_ledger [OF conf app w1(3)] w1(4) by metis
  obtain resps' w' where w': "run_blocks (in_memory_ops sha) env app blocks w2 = (Ok resps', w')"
    "(map rd_code resps', ledger_of sha aenv benv a w') = ledger_run (concat txs') (ledger_of sha aenv benv a w2)"
    using Cons.IH [OF w2(2,3,5) txs(3)] by blast
  have "ledger_run (concat txs) (ledger_of sha aenv benv a w) =
      (map rd_code (resps @ resps'), ledger_of sha aenv benv a w')"
    using w'(2) [symmetric] by (simp add: txs(1) ledger_run_append w2(4) flip: w1(2))
  then show ?case using w1(1) w2(1) w'(1) by auto
qed auto


section \<open>Properties\<close>

text \<open>
  C6. The bank is a ledger. From a well-formed state without changes that are not yet accepted
  (\<open>clean\<close>, as every commit leaves it) and with every account stored under its own address
  (\<open>accounts_keyed\<close>), over any number of blocks of any transactions of transfers, also
  several in one transaction, from accounts without an entry, without funds, to oneself or signed by
  strangers, the application answers every transaction with the code the ledger gives it, and
  its stores show the balances and sequence numbers the ledger computes.
\<close>

theorem bank_refines_ledger:
  fixes benv :: "('id, 'raw, infallible, 'j) bank_env"
    and env :: "('id, 'pk, 'ie, 'rh, 'h, 'j) app_env"
    and w :: "(in_memory, 'y) heap_scheme"
    and app :: "(in_memory, 'y, 'id, 'ie, 'ev, 'h, 'j) app"
  assumes "confined_app sha app" and "auth_env_ok aenv" and "bank_env_ok benv"
    and "app = runner_app sha aenv benv a rest"
    and "heap_ok sha w" and "clean (stores_of app) w" and "accounts_keyed (auth_store sha a) aenv w"
    and "those (map (\<lambda>block. those (map (read_tx env benv) block)) blocks) = Some txs"
  shows "\<exists>resps w'. run_blocks (in_memory_ops sha) env app blocks w = (Ok resps, w') \<and>
     (map rd_code resps, ledger_of sha aenv benv a w') = ledger_run (concat txs) (ledger_of sha aenv benv a w)"
  by (rule runner_blocks [OF assms])

text \<open>What a list of transactions creates of a denomination: the transfers to oneself of those that
  are executed.\<close>

definition self_sent :: "string \<Rightarrow> 'id transfer list \<Rightarrow> nat" where
  "self_sent d ts = sum_list (map (\<lambda>t. if tr_from t = tr_to t then requested d (tr_coins t) else 0) ts)"

definition created :: "string \<Rightarrow> ('id \<times> 'id transfer list) list \<Rightarrow> 32 word list \<Rightarrow> nat" where
  "created d txs codes = sum_list (map2 (\<lambda>tx code. if code = 0 then self_sent d (snd tx) else 0) txs codes)"

definition parties :: "'id transfer list \<Rightarrow> 'id set" where
  "parties ts = tr_from ` set ts \<union> tr_to ` set ts"

lemma message_supply:
  assumes run: "ledger_message signer t L = Some L'" and A: "finite A" "tr_from t \<in> A" "tr_to t \<in> A"
  shows "(\<Sum>i \<in> A. held L' d i) = (\<Sum>i \<in> A. held L d i) + self_sent d [t]"
proof -
  let ?r = "requested d (tr_coins t)" and ?B = "A - {tr_from t, tr_to t}"
  have L': "lg_balance L' = moved t L" and ok: "sendable t L"
    using run by (auto simp: ledger_message_def split: option.splits if_splits)
  have le: "?r \<le> held L d (tr_from t)"
    using ok requested_absent [of d "tr_coins t"] by (cases "d \<in> set (denoms (tr_coins t))")
      (auto simp: sendable_def list_all_iff)
  have to: "held L' d (tr_to t) = held L d (tr_to t) + ?r"
    using requested_absent [of d "tr_coins t"] by (auto simp: held_def L' moved_def)
  have rest: "held L' d i = held L d i" if "i \<in> ?B" for i
    using that by (simp add: held_def L' moved_def)
  have sums: "(\<Sum>i \<in> ?B. held L' d i) = (\<Sum>i \<in> ?B. held L d i)" by (rule sum.cong) (simp_all add: rest)
  show ?thesis
  proof (cases "tr_from t = tr_to t")
    case True
    have "sum f A = f (tr_to t) + sum f (A - {tr_to t})" for f :: "'a \<Rightarrow> nat"
      by (rule sum.remove [OF A(1,3)])
    then show ?thesis using to sums True by (simp add: self_sent_def)
  next
    case False
    then have A': "A = insert (tr_from t) (insert (tr_to t) ?B)" using A by blast
    have split: "sum f A = f (tr_from t) + (f (tr_to t) + sum f ?B)" for f :: "'a \<Rightarrow> nat"
      by (subst A') (use A(1) False in simp)
    have "held L' d (tr_from t) = held L d (tr_from t) - ?r"
      using False by (cases "lg_balance L (tr_from t) d") (simp_all add: held_def L' moved_def)
    then show ?thesis using to sums le False by (simp add: split self_sent_def)
  qed
qed

lemma messages_supply:
  assumes "ledger_messages signer ts L = Some L'" and "finite A" and "parties ts \<subseteq> A"
  shows "(\<Sum>i \<in> A. held L' d i) = (\<Sum>i \<in> A. held L d i) + self_sent d ts"
  using assms(1,3)
proof (induction ts arbitrary: L)
  case (Cons t ts)
  obtain L1 where L1: "ledger_message signer t L = Some L1" "ledger_messages signer ts L1 = Some L'"
    using Cons.prems(1) by (auto split: bind_splits)
  have "parties ts \<subseteq> A" "tr_from t \<in> A" "tr_to t \<in> A" using Cons.prems(2) by (auto simp: parties_def)
  then show ?case
    using Cons.IH [OF L1(2)] message_supply [OF L1(1) assms(2), of d] by (simp add: self_sent_def)
qed (simp add: self_sent_def)

lemma run_supply:
  assumes "ledger_run txs L = (codes, L')" and "finite A" and "\<Union> (parties ` snd ` set txs) \<subseteq> A"
  shows "(\<Sum>i \<in> A. held L' d i) = (\<Sum>i \<in> A. held L d i) + created d txs codes"
  using assms(1,3)
proof (induction txs arbitrary: L codes)
  case (Cons tx txs)
  obtain code L1 codes' where L1: "ledger_tx tx L = (code, L1)" "ledger_run txs L1 = (codes', L')"
    "codes = code # codes'"
    using Cons.prems(1) by (auto split: prod.splits)
  have "(\<Sum>i \<in> A. held L1 d i) = (\<Sum>i \<in> A. held L d i) + (if code = 0 then self_sent d (snd tx) else 0)"
    using L1(1) messages_supply [OF _ assms(2), of "fst tx" "snd tx" L L1 d] Cons.prems(2)
    by (auto simp: ledger_tx_def split: option.splits)
  then show ?case using Cons.IH [OF L1(2)] Cons.prems(2) by (simp add: L1(3) created_def)
qed (simp add: created_def)

text \<open>
  C7. Accounting for every coin: from a state as in the refinement above and over any blocks of
  transactions of transfers, the total
  supply of every denomination grows exactly by what the executed transactions send from an
  account to itself, and never shrinks. With no such transfer it stays the same.
\<close>

theorem supply_accounted_for:
  fixes benv :: "('id, 'raw, infallible, 'j) bank_env"
    and env :: "('id, 'pk, 'ie, 'rh, 'h, 'j) app_env"
    and w :: "(in_memory, 'y) heap_scheme"
    and app :: "(in_memory, 'y, 'id, 'ie, 'ev, 'h, 'j) app"
  assumes "confined_app sha app" and "auth_env_ok aenv" and "bank_env_ok benv"
    and "app = runner_app sha aenv benv a rest"
    and "heap_ok sha w" and "clean (stores_of app) w" and "accounts_keyed (auth_store sha a) aenv w"
    and "those (map (\<lambda>block. those (map (read_tx env benv) block)) blocks) = Some txs"
    and A: "finite A" "\<Union> (parties ` snd ` set (concat txs)) \<subseteq> A"
    and run: "run_blocks (in_memory_ops sha) env app blocks w = (Ok resps, w')"
  shows "(\<Sum>i \<in> A. account_balance (runner_bank_store sha a) benv d w' i) =
     (\<Sum>i \<in> A. account_balance (runner_bank_store sha a) benv d w i) + created d (concat txs) (map rd_code resps)"
proof -
  have "ledger_run (concat txs) (ledger_of sha aenv benv a w) = (map rd_code resps, ledger_of sha aenv benv a w')"
    using runner_blocks [OF assms(1-8)] run by auto
  from run_supply [OF this A, of d] show ?thesis by simp
qed



section \<open>Witnesses\<close>

text \<open>Alice has ten coins and sends four to Bob three times, the third time in a second block.\<close>

lemma demo_keyed: "accounts_keyed (auth_store id 0) auth_test_env demo_applied"
  by (auto simp: accounts_keyed_def demo_applied_entries auth_account_new_def split: if_splits)

lemma demo_read: "read_tx demo_env demo_benv [1] =
   Some (''alice'', [\<lparr>tr_from = ''alice'', tr_to = ''bob'', tr_coins = coins 4\<rparr>])"
  by (simp add: read_tx_def read_send_def demo_env_def demo_benv_def first_signer_def demo_transfer_def
      coin_from_msg_def coins_def)

lemma demo_ledger: "ledger_of id auth_test_env demo_benv 0 demo_applied = \<lparr>
   lg_sequence = (\<lambda>i. if i = ''alice'' then Some 0 else None),
   lg_balance = (\<lambda>i d. if i = ''alice'' \<and> d = ''basecoin'' then Some 10 else None)\<rparr>"
  by (auto simp: ledger_of_def account_holds_def account_balance_def demo_applied_entries auth_account_new_def
      coins_def holds_denom_def fun_eq_iff)

abbreviation demo_blocks :: "bytes list list" where
  "demo_blocks \<equiv> [[[1], [1]], [[1]]]"

abbreviation demo_txs :: "(string \<times> string transfer list) list list" where
  "demo_txs \<equiv> map (map (\<lambda>_. (''alice'', [\<lparr>tr_from = ''alice'', tr_to = ''bob'', tr_coins = coins 4\<rparr>]))) demo_blocks"

lemma demo_blocks_read:
  "those (map (\<lambda>block. those (map (read_tx demo_env demo_benv) block)) demo_blocks) = Some demo_txs"
  by (simp add: demo_read)

lemma demo_ledger_run:
  "fst (ledger_run (concat demo_txs) (ledger_of id auth_test_env demo_benv 0 demo_applied)) = [0, 0, 2]"
  "held (snd (ledger_run (concat demo_txs) (ledger_of id auth_test_env demo_benv 0 demo_applied)))
     ''basecoin'' ''bob'' = 8"
  "lg_sequence (snd (ledger_run (concat demo_txs) (ledger_of id auth_test_env demo_benv 0 demo_applied)))
     ''alice'' = Some 2"
proof -
  have d: "denoms (coins n) = [''basecoin'']" for n by (simp add: denoms_def coins_def)
  show "fst (ledger_run (concat demo_txs) (ledger_of id auth_test_env demo_benv 0 demo_applied)) = [0, 0, 2]"
    "held (snd (ledger_run (concat demo_txs) (ledger_of id auth_test_env demo_benv 0 demo_applied)))
       ''basecoin'' ''bob'' = 8"
    "lg_sequence (snd (ledger_run (concat demo_txs) (ledger_of id auth_test_env demo_benv 0 demo_applied)))
       ''alice'' = Some 2"
    unfolding demo_ledger by (simp_all add: ledger_tx_def ledger_message_def sendable_def held_def moved_def d)
qed

theorem bank_refines_ledger_witness:
  "\<exists>resps w'. run_blocks (in_memory_ops id) demo_env demo_app demo_blocks demo_applied = (Ok resps, w') \<and>
     map rd_code resps = [0, 0, 2] \<and>
     account_balance (runner_bank_store id 0) demo_benv ''basecoin'' w' ''bob'' = 8 \<and>
     lg_sequence (ledger_of id auth_test_env demo_benv 0 w') ''alice'' = Some 2"
proof -
  obtain resps w' where w': "run_blocks (in_memory_ops id) demo_env demo_app demo_blocks demo_applied = (Ok resps, w')"
    "(map rd_code resps, ledger_of id auth_test_env demo_benv 0 w') =
       ledger_run (concat demo_txs) (ledger_of id auth_test_env demo_benv 0 demo_applied)"
    using bank_refines_ledger [OF demo_app_confined auth_test_env_ok demo_benv_ok demo_app_def demo_applied_ok
        demo_keyed demo_blocks_read] by blast
  then show ?thesis
    using demo_ledger_run unfolding w'(2) [symmetric] by auto
qed

theorem supply_accounted_for_witness:
  "\<exists>resps w'. run_blocks (in_memory_ops id) demo_env demo_app demo_blocks demo_applied = (Ok resps, w') \<and>
     map rd_code resps = [0, 0, 2] \<and>
     (\<Sum>i \<in> {''alice'', ''bob''}. account_balance (runner_bank_store id 0) demo_benv ''basecoin'' w' i) = 10"
proof -
  obtain resps w' where run: "run_blocks (in_memory_ops id) demo_env demo_app demo_blocks demo_applied = (Ok resps, w')"
    "(map rd_code resps, ledger_of id auth_test_env demo_benv 0 w') =
       ledger_run (concat demo_txs) (ledger_of id auth_test_env demo_benv 0 demo_applied)"
    using runner_blocks [OF demo_app_confined auth_test_env_ok demo_benv_ok demo_app_def demo_applied_ok
        demo_keyed demo_blocks_read] by blast
  have codes: "map rd_code resps = [0, 0, 2]"
    using demo_ledger_run(1) unfolding run(2) [symmetric] by simp
  have "\<Union> (parties ` snd ` set (concat demo_txs)) \<subseteq> {''alice'', ''bob''}" by (auto simp: parties_def)
  from supply_accounted_for [OF demo_app_confined auth_test_env_ok demo_benv_ok demo_app_def demo_applied_ok
      demo_keyed demo_blocks_read _ this run(1), of "''basecoin''"]
  have "(\<Sum>i \<in> {''alice'', ''bob''}. account_balance (runner_bank_store id 0) demo_benv ''basecoin'' w' i) = 10"
    by (simp add: account_balance_def demo_applied_entries codes created_def self_sent_def)
  then show ?thesis using run(1) codes by (intro exI [of _ resps] exI [of _ w']) simp
qed

end
