(* ===== verification/Upgrade.thy ===== *)
theory Upgrade
  imports Ibc_Module
begin

text \<open>
  The upgrade module: \<open>basecoin/modules/src/upgrade\<close>. Its store holds the pending upgrade plan at
  one fixed key, and the upgraded client and consensus states at the ICS 24 paths of the plan's
  height. \<open>Plan\<close> and the event of an upgrade are types of \<open>ibc-rs\<close>, their functions fields of
  \<open>upgrade_env\<close>.
\<close>

section \<open>Data\<close>

record ('plan, 'tcons, 'tm, 'ev) upgrade_env =
  ue_plan_height :: "'plan \<Rightarrow> u64"
  ue_plan_into :: "'plan \<Rightarrow> any"
  ue_plan_try :: "any \<Rightarrow> 'plan option"
  ue_consensus :: "bytes \<Rightarrow> 'tm \<Rightarrow> bytes \<Rightarrow> 'tcons"
  ue_event :: "u64 \<Rightarrow> string \<Rightarrow> 'ev"
  ue_query_path :: string
  ue_encode_proof :: "commitment_proof \<Rightarrow> bytes option"

definition PLAN_BYTE :: bytes where
  "PLAN_BYTE = string_bytes ''0x0''"

definition DONE_BYTE :: bytes where
  "DONE_BYTE = string_bytes ''0x1''"

text \<open>An \<open>UpgradePlanPath\<close> is the string it wraps.\<close>

definition plan_path_from_bytes :: "bytes \<Rightarrow> (infallible, string) outcome" where
  "plan_path_from_bytes bs = (case from_utf8 bs of Ok s \<Rightarrow> Ok s | _ \<Rightarrow> Panic)"

definition sdk_pending_path :: string where
  "sdk_pending_path = bytes_string PLAN_BYTE"

definition sdk_done_path :: string where
  "sdk_done_path = bytes_string DONE_BYTE"

lemma sdk_paths:
  "plan_path_from_bytes PLAN_BYTE = Ok sdk_pending_path" "sdk_pending_path = ''0x0''"
  "plan_path_from_bytes DONE_BYTE = Ok sdk_done_path" "sdk_done_path = ''0x1''"
  by code_simp+

text \<open>The typed stores.\<close>

definition upgrade_plan_ty ::
  "('tcs, 'tcons, 'conn, 'chan, 'ts, 'e) ibc_env \<Rightarrow> ('plan, 'tcons, 'tm, 'ev) upgrade_env \<Rightarrow> (string, 'plan) typed" where
  "upgrade_plan_ty env uenv = \<lparr>key_string = (\<lambda>s. s),
     codec = protobuf_codec (ue_plan_into uenv) (ue_plan_try uenv)
       (encode_message (ie_any env)) (decode_message (ie_any env))\<rparr>"

definition upgraded_client_state_ty ::
  "('tcs, 'tcons, 'conn, 'chan, 'ts, 'e) ibc_env \<Rightarrow> (u64, 'tcs any_client_state) typed" where
  "upgraded_client_state_ty env = ibc_typed env UpgradeClientStatePath (codec (client_state_ty env))"

definition upgraded_consensus_state_ty ::
  "('tcs, 'tcons, 'conn, 'chan, 'ts, 'e) ibc_env \<Rightarrow> (u64, 'tcons any_consensus_state) typed" where
  "upgraded_consensus_state_ty env = ibc_typed env UpgradeConsensusStatePath (codec (consensus_state_ty env))"


section \<open>Validation context\<close>

definition upgrade_plan ::
  "('w, 'e, 'z) store_ops_scheme \<Rightarrow> ('tcs, 'tcons, 'conn, 'chan, 'ts, 'e) ibc_env \<Rightarrow>
   ('plan, 'tcons, 'tm, 'ev) upgrade_env \<Rightarrow> 'w \<Rightarrow> (host_error, 'plan) outcome" where
  "upgrade_plan ops env uenv w = (case ts_get ops (upgrade_plan_ty env uenv) Pending sdk_pending_path w of
     Some plan \<Rightarrow> Ok plan
   | None \<Rightarrow> Err (InvalidState ''No UpgradePlan''))"

definition upgraded_client_state ::
  "('w, 'e, 'z) store_ops_scheme \<Rightarrow> ('tcs, 'tcons, 'conn, 'chan, 'ts, 'e) ibc_env \<Rightarrow> u64 \<Rightarrow> 'w \<Rightarrow>
   (host_error, 'tcs any_client_state) outcome" where
  "upgraded_client_state ops env h w = host_get ops (upgraded_client_state_ty env) ''Upgraded ClientState'' h w"

definition upgraded_consensus_state ::
  "('w, 'e, 'z) store_ops_scheme \<Rightarrow> ('tcs, 'tcons, 'conn, 'chan, 'ts, 'e) ibc_env \<Rightarrow> u64 \<Rightarrow> 'w \<Rightarrow>
   (host_error, 'tcons any_consensus_state) outcome" where
  "upgraded_consensus_state ops env h w =
     host_get ops (upgraded_consensus_state_ty env) ''Upgraded ConsensusState'' h w"


section \<open>Execution context\<close>

definition clear_upgrade_plan ::
  "('w, 'e, 'z) store_ops_scheme \<Rightarrow> ('tcs, 'tcons, 'conn, 'chan, 'ts, 'e) ibc_env \<Rightarrow>
   ('plan, 'tcons, 'tm, 'ev) upgrade_env \<Rightarrow> u64 \<Rightarrow> 'w \<Rightarrow> (host_error, unit) outcome \<times> 'w" where
  "clear_upgrade_plan ops env uenv plan_height w =
     (if ts_get ops (upgrade_plan_ty env uenv) Pending sdk_pending_path w = None
      then (Err (InvalidState ''No upgrade plan set''), w)
      else and_then (host_delete ops (upgraded_client_state_ty env) plan_height w) (\<lambda>_ w.
           and_then (host_delete ops (upgraded_consensus_state_ty env) plan_height w) (\<lambda>_ w.
             host_delete ops (upgrade_plan_ty env uenv) sdk_pending_path w)))"

definition schedule_upgrade ::
  "('w, 'e, 'z) store_ops_scheme \<Rightarrow> ('tcs, 'tcons, 'conn, 'chan, 'ts, 'e) ibc_env \<Rightarrow>
   ('plan, 'tcons, 'tm, 'ev) upgrade_env \<Rightarrow> 'plan \<Rightarrow> 'w \<Rightarrow> (host_error, unit) outcome \<times> 'w" where
  "schedule_upgrade ops env uenv plan w =
     (if ue_plan_height uenv plan < st_current_height ops w
      then (Err (InvalidState ''Upgrade plan height is in the past''), w)
      else and_then
        (if is_ok (upgrade_plan ops env uenv w)
         then clear_upgrade_plan ops env uenv (ue_plan_height uenv plan) w else (Ok (), w))
        (\<lambda>_. host_set ops env (upgrade_plan_ty env uenv) ''UpgradePlan'' sdk_pending_path plan))"

definition store_upgraded_client_state ::
  "('w, 'e, 'z) store_ops_scheme \<Rightarrow> ('tcs, 'tcons, 'conn, 'chan, 'ts, 'e) ibc_env \<Rightarrow> u64 \<Rightarrow>
   'tcs any_client_state \<Rightarrow> 'w \<Rightarrow> (host_error, unit) outcome \<times> 'w" where
  "store_upgraded_client_state ops env h cs w =
     host_set ops env (upgraded_client_state_ty env) ''UpgradedClientState'' h cs w"

definition store_upgraded_consensus_state ::
  "('w, 'e, 'z) store_ops_scheme \<Rightarrow> ('tcs, 'tcons, 'conn, 'chan, 'ts, 'e) ibc_env \<Rightarrow> u64 \<Rightarrow>
   'tcons any_consensus_state \<Rightarrow> 'w \<Rightarrow> (host_error, unit) outcome \<times> 'w" where
  "store_upgraded_consensus_state ops env h cs w =
     host_set ops env (upgraded_consensus_state_ty env) ''UpgradeConsensusState'' h cs w"

text \<open>The calls a handler of \<open>ibc-rs\<close> can make.\<close>

datatype ('plan, 'tcs, 'tcons) upgrade_call =
    ScheduleUpgrade 'plan
  | ClearUpgradePlan u64
  | StoreUpgradedClientState u64 "'tcs any_client_state"
  | StoreUpgradedConsensusState u64 "'tcons any_consensus_state"

fun perform_upgrade ::
  "('w, 'e, 'z) store_ops_scheme \<Rightarrow> ('tcs, 'tcons, 'conn, 'chan, 'ts, 'e) ibc_env \<Rightarrow>
   ('plan, 'tcons, 'tm, 'ev) upgrade_env \<Rightarrow> ('plan, 'tcs, 'tcons) upgrade_call \<Rightarrow> 'w \<Rightarrow>
   (host_error, unit) outcome \<times> 'w" where
  "perform_upgrade ops env uenv (ScheduleUpgrade plan) = schedule_upgrade ops env uenv plan"
| "perform_upgrade ops env uenv (ClearUpgradePlan h) = clear_upgrade_plan ops env uenv h"
| "perform_upgrade ops env uenv (StoreUpgradedClientState h cs) = store_upgraded_client_state ops env h cs"
| "perform_upgrade ops env uenv (StoreUpgradedConsensusState h cs) = store_upgraded_consensus_state ops env h cs"


section \<open>The module\<close>

definition UPGRADE_PLAN_QUERY_PATH :: string where
  "UPGRADE_PLAN_QUERY_PATH = ''/cosmos.upgrade.v1beta1.Query/CurrentPlan''"

definition upgrade_query ::
  "('w, 'e, 'z) provable_ops_scheme \<Rightarrow> ('tcs, 'tcons, 'conn, 'chan, 'ts, 'e) ibc_env \<Rightarrow>
   ('plan, 'tcons, 'tm, 'ev) upgrade_env \<Rightarrow> bytes \<Rightarrow> path option \<Rightarrow> height \<Rightarrow> bool \<Rightarrow> 'w \<Rightarrow>
   (('id, 'ie) app_error, query_result) outcome" where
  "upgrade_query ops env uenv d path h prove w = (case path of
     None \<Rightarrow> Err NotHandled
   | Some p \<Rightarrow>
       if path_to_string p = ue_query_path uenv then
         (case from_utf8 d of
            Ok s \<Rightarrow> query_path ops (ue_encode_proof uenv) (path_from_string s) h prove w
          | _ \<Rightarrow> Err (Custom ''Invalid path''))
       else if path_to_string p = UPGRADE_PLAN_QUERY_PATH then
         (case ts_get ops (upgrade_plan_ty env uenv) Pending sdk_pending_path w of
            None \<Rightarrow> Err (Custom ''Data not found'')
          | Some plan \<Rightarrow> Ok \<lparr>qr_data = any_value (ue_plan_into uenv plan), qr_proof = None\<rparr>)
       else Err NotHandled)"

text \<open>The results of \<open>upgraded_client_state\<close>, \<open>checked_add\<close>, \<open>checked_sub\<close> and of storing are all
  unwrapped.\<close>

definition upgrade_begin_block ::
  "('w, 'e, 'z) store_ops_scheme \<Rightarrow> ('tcs, 'tcons, 'conn, 'chan, 'ts, 'e) ibc_env \<Rightarrow>
   ('plan, 'tcons, 'tm, 'ev) upgrade_env \<Rightarrow> 'tm header \<Rightarrow> 'w \<Rightarrow>
   (infallible, 'ev list) outcome \<times> 'w" where
  "upgrade_begin_block ops env uenv header w = (case upgrade_plan ops env uenv w of
     Ok plan \<Rightarrow> (let h = ue_plan_height uenv plan in
       if \<not> is_ok (upgraded_client_state ops env h w) then (Panic, w)
       else if st_current_height ops w = - 1 then (Panic, w)
       else if h = 0 then (Panic, w)
       else if st_current_height ops w + 1 = h - 1 then
         and_then (expect (store_upgraded_consensus_state ops env h
             (TendermintConsensus (ue_consensus uenv [] (hd_time header) (hd_next_validators_hash header))) w))
           (\<lambda>_ w. (Ok [ue_event uenv h ''upgrade''], w))
       else (Ok [], w))
   | _ \<Rightarrow> (Ok [], w))"

definition upgrade_module ::
  "('s, 'e, 'z) provable_ops_scheme \<Rightarrow> nat \<Rightarrow> ('tcs, 'tcons, 'conn, 'chan, 'ts, 'e) ibc_env \<Rightarrow>
   ('plan, 'tcons, 'tm, 'ev) upgrade_env \<Rightarrow>
   (('s, 'y) heap_scheme, 'id, 'ie, 'ev, 'tm header, 'j) module_ops" where
  "upgrade_module ops a env uenv = \<lparr>
     md_check = default_check,
     md_deliver = default_deliver,
     md_init = default_init,
     md_query = upgrade_query (shared_ops ops a) env uenv,
     md_begin_block = upgrade_begin_block (shared_ops ops a) env uenv,
     md_store = a\<rparr>"

text \<open>The proof of a path for the gRPC services.\<close>

definition upgrade_get_proof ::
  "('w, 'e, 'z) provable_ops_scheme \<Rightarrow> ('tcs, 'tcons, 'conn, 'chan, 'ts, 'e) ibc_env \<Rightarrow>
   (commitment_proof \<Rightarrow> bytes) \<Rightarrow> ibc_height \<Rightarrow> ibc_path \<Rightarrow> 'w \<Rightarrow> bytes option" where
  "upgrade_get_proof ops env encode_proof height p w = map_option encode_proof
     (st_get_proof ops (height_from (revision_height height)) (path_from_string (ie_show env p)) w)"

text \<open>The gRPC method \<open>upgraded_consensus_state\<close>. The requested height is an \<open>i64\<close>.\<close>

datatype status = InvalidArgument string | StatusNotFound string

definition service_upgraded_consensus_state ::
  "('w, 'e, 'z) store_ops_scheme \<Rightarrow> ('tcs, 'tcons, 'conn, 'chan, 'ts, 'e) ibc_env \<Rightarrow> 64 word \<Rightarrow> 'w \<Rightarrow>
   (status, bytes) outcome" where
  "service_upgraded_consensus_state ops env last_height w =
     (if sint last_height < 0 then Err (InvalidArgument ''invalid height'')
      else (case ts_get ops (ibc_typed env UpgradeConsensusStatePath
               (protobuf_codec (ie_consensus_into env) (\<lambda>a. some_ok (ie_consensus_try env a))
                 (encode_message (ie_any env)) (decode_message (ie_any env)))) Pending last_height w of
          None \<Rightarrow> Err (StatusNotFound ''upgraded consensus state not found'')
        | Some cs \<Rightarrow> Ok (encode_message (ie_any env) (ie_consensus_into env cs))))"


section \<open>Abstract specification\<close>

text \<open>The module as three variables: the pending plan and the upgraded states by height.\<close>

record ('plan, 'cs, 'cons) upgrade_spec =
  us_plan :: "'plan option"
  us_client :: "u64 \<Rightarrow> 'cs option"
  us_consensus :: "u64 \<Rightarrow> 'cons option"

definition upgrade_abs ::
  "('w, 'e, 'z) store_ops_scheme \<Rightarrow> ('tcs, 'tcons, 'conn, 'chan, 'ts, 'e) ibc_env \<Rightarrow>
   ('plan, 'tcons, 'tm, 'ev) upgrade_env \<Rightarrow> 'w \<Rightarrow>
   ('plan, 'tcs any_client_state, 'tcons any_consensus_state) upgrade_spec" where
  "upgrade_abs ops env uenv w = \<lparr>
     us_plan = ts_get ops (upgrade_plan_ty env uenv) Pending sdk_pending_path w,
     us_client = (\<lambda>h. ts_get ops (upgraded_client_state_ty env) Pending h w),
     us_consensus = (\<lambda>h. ts_get ops (upgraded_consensus_state_ty env) Pending h w)\<rparr>"

definition spec_clear :: "u64 \<Rightarrow> ('plan, 'cs, 'cons) upgrade_spec \<Rightarrow> ('plan, 'cs, 'cons) upgrade_spec" where
  "spec_clear h s = \<lparr>us_plan = None, us_client = (us_client s)(h := None), us_consensus = (us_consensus s)(h := None)\<rparr>"

definition spec_schedule ::
  "('plan \<Rightarrow> u64) \<Rightarrow> 'plan \<Rightarrow> ('plan, 'cs, 'cons) upgrade_spec \<Rightarrow> ('plan, 'cs, 'cons) upgrade_spec" where
  "spec_schedule plan_height plan s =
     (if us_plan s = None then s else spec_clear (plan_height plan) s)\<lparr>us_plan := Some plan\<rparr>"

text \<open>What the code relies on of the crates: plans and consensus states survive their encoding,
  and no ICS 24 path is the key of the plan.\<close>

definition upgrade_env_ok ::
  "('tcs, 'tcons, 'conn, 'chan, 'ts, 'e) ibc_env \<Rightarrow> ('plan, 'tcons, 'tm, 'ev) upgrade_env \<Rightarrow> bool" where
  "upgrade_env_ok env uenv \<longleftrightarrow> ibc_env_ok env \<and> (\<forall>p. ie_show env p \<noteq> sdk_pending_path) \<and>
     (\<forall>plan. codec_ok (codec (upgrade_plan_ty env uenv)) plan) \<and>
     (\<forall>cs. codec_ok (codec (upgraded_client_state_ty env)) cs) \<and>
     (\<forall>cs. codec_ok (codec (upgraded_consensus_state_ty env)) cs)"

text \<open>The keys of the store that the module uses: \<open>None\<close> is the key of the plan.\<close>

definition upgrade_key :: "('tcs, 'tcons, 'conn, 'chan, 'ts, 'e) ibc_env \<Rightarrow> ibc_path option \<Rightarrow> path" where
  "upgrade_key env x = path_from_string (case x of None \<Rightarrow> sdk_pending_path | Some p \<Rightarrow> ie_show env p)"

lemma upgrade_key_inj:
  assumes "upgrade_env_ok env uenv"
  shows "upgrade_key env x = upgrade_key env y \<longleftrightarrow> x = y"
proof -
  have "ie_show env p \<noteq> sdk_pending_path" "inj (ie_show env)" for p
    using assms by (simp_all add: upgrade_env_ok_def ibc_env_ok_def)
  moreover from this have "sdk_pending_path \<noteq> ie_show env p" for p by metis
  ultimately show ?thesis
    by (cases x; cases y) (auto simp: upgrade_key_def path_from_string_inj dest: injD)
qed

lemma upgrade_paths:
  "typed_path (upgrade_plan_ty env uenv) sdk_pending_path = upgrade_key env None"
  "typed_path (upgraded_client_state_ty env) h = upgrade_key env (Some (UpgradeClientStatePath h))"
  "typed_path (upgraded_consensus_state_ty env) h = upgrade_key env (Some (UpgradeConsensusStatePath h))"
  by (simp_all add: typed_path_def upgrade_plan_ty_def upgraded_client_state_ty_def
      upgraded_consensus_state_ty_def ibc_typed_def upgrade_key_def)

definition upgrade_view ::
  "('w, 'e, 'z) store_ops_scheme \<Rightarrow> ('tcs, 'tcons, 'conn, 'chan, 'ts, 'e) ibc_env \<Rightarrow> 'w \<Rightarrow>
   ibc_path option \<Rightarrow> bytes option" where
  "upgrade_view ops env w x = st_get ops Pending (upgrade_key env x) w"

lemma upgrade_abs_view:
  "upgrade_abs ops env uenv w = \<lparr>
     us_plan = Option.bind (upgrade_view ops env w None) (decode (codec (upgrade_plan_ty env uenv))),
     us_client = (\<lambda>h. Option.bind (upgrade_view ops env w (Some (UpgradeClientStatePath h)))
       (decode (codec (upgraded_client_state_ty env)))),
     us_consensus = (\<lambda>h. Option.bind (upgrade_view ops env w (Some (UpgradeConsensusStatePath h)))
       (decode (codec (upgraded_consensus_state_ty env))))\<rparr>"
  by (simp add: upgrade_abs_def ts_get_def upgrade_paths upgrade_view_def)

lemma upgrade_reads:
  "upgrade_plan ops env uenv w =
     (case us_plan (upgrade_abs ops env uenv w) of Some plan \<Rightarrow> Ok plan | None \<Rightarrow> Err (InvalidState ''No UpgradePlan''))"
  "is_ok (upgraded_client_state ops env h w) \<longleftrightarrow> us_client (upgrade_abs ops env uenv w) h \<noteq> None"
  by (auto simp: upgrade_plan_def upgrade_abs_def upgraded_client_state_def host_get_def split: option.splits)

context kv_store
begin

lemma upgrade_set:
  assumes env: "upgrade_env_ok env uenv" and st: "\<And>v. storable v" and w: "invar w"
    and key: "typed_path ty k = upgrade_key env x" and ok: "codec_ok (codec ty) v"
  obtains w' bs where "host_set ops env ty label k v w = (Ok (), w')" and "invar w'"
    and "upgrade_view ops env w' = (upgrade_view ops env w)(x := Some bs)" and "decode (codec ty) bs = Some v"
proof -
  from ok obtain bs where bs: "encode (codec ty) v = Some bs" "decode (codec ty) bs = Some v"
    by (auto simp: codec_ok_def split: option.splits)
  from set_law [OF w st] obtain r w' where w':
    "st_set ops (typed_path ty k) bs w = (Ok r, w')" "invar w'" "kv_updated ops (typed_path ty k) (Some bs) w w'" by blast
  have "upgrade_view ops env w' = (upgrade_view ops env w)(x := Some bs)"
    using w'(3) by (auto simp: kv_updated_def upgrade_view_def key upgrade_key_inj [OF env])
  with w' bs that show ?thesis by (simp add: host_set_def ts_set_def)
qed

lemma upgrade_delete:
  assumes env: "upgrade_env_ok env uenv" and w: "invar w" and key: "typed_path ty k = upgrade_key env x"
  obtains w' where "host_delete ops ty k w = (Ok (), w')" and "invar w'"
    and "upgrade_view ops env w' = (upgrade_view ops env w)(x := None)"
proof -
  from delete_law [OF w] obtain w' where w':
    "st_delete ops (typed_path ty k) w = (Ok (), w')" "invar w'" "kv_updated ops (typed_path ty k) None w w'" by blast
  have "upgrade_view ops env w' = (upgrade_view ops env w)(x := None)"
    using w'(3) by (auto simp: kv_updated_def upgrade_view_def key upgrade_key_inj [OF env])
  with w' that show ?thesis by (simp add: host_delete_def ts_delete_def expect_def)
qed

lemma clear_plan_refines:
  assumes env: "upgrade_env_ok env uenv" and w: "invar w" and plan: "us_plan (upgrade_abs ops env uenv w) \<noteq> None"
  obtains w' where "clear_upgrade_plan ops env uenv h w = (Ok (), w')" and "invar w'"
    and "upgrade_abs ops env uenv w' = spec_clear h (upgrade_abs ops env uenv w)"
proof -
  obtain w1 where w1: "host_delete ops (upgraded_client_state_ty env) h w = (Ok (), w1)" "invar w1"
    "upgrade_view ops env w1 = (upgrade_view ops env w)(Some (UpgradeClientStatePath h) := None)"
    by (rule upgrade_delete [OF env w upgrade_paths(2)])
  obtain w2 where w2: "host_delete ops (upgraded_consensus_state_ty env) h w1 = (Ok (), w2)" "invar w2"
    "upgrade_view ops env w2 = (upgrade_view ops env w1)(Some (UpgradeConsensusStatePath h) := None)"
    by (rule upgrade_delete [OF env w1(2) upgrade_paths(3)])
  obtain w3 where w3: "host_delete ops (upgrade_plan_ty env uenv) sdk_pending_path w2 = (Ok (), w3)" "invar w3"
    "upgrade_view ops env w3 = (upgrade_view ops env w2)(None := None)"
    by (rule upgrade_delete [OF env w2(2) upgrade_paths(1)])
  have "clear_upgrade_plan ops env uenv h w = (Ok (), w3)"
    using plan w1(1) w2(1) w3(1) by (simp add: clear_upgrade_plan_def upgrade_abs_def)
  moreover have "upgrade_abs ops env uenv w3 = spec_clear h (upgrade_abs ops env uenv w)"
    by (auto simp: upgrade_abs_view spec_clear_def w1(3) w2(3) w3(3))
  ultimately show ?thesis using that w3(2) by blast
qed

lemma schedule_refines:
  assumes env: "upgrade_env_ok env uenv" and st: "\<And>v. storable v" and w: "invar w"
    and "st_current_height ops w \<le> ue_plan_height uenv plan"
  obtains w' where "schedule_upgrade ops env uenv plan w = (Ok (), w')" and "invar w'"
    and "upgrade_abs ops env uenv w' = spec_schedule (ue_plan_height uenv) plan (upgrade_abs ops env uenv w)"
proof -
  let ?s = "upgrade_abs ops env uenv w" and ?h = "ue_plan_height uenv plan"
  have ok: "codec_ok (codec (upgrade_plan_ty env uenv)) plan" using env by (simp add: upgrade_env_ok_def)
  obtain w1 where w1: "(if is_ok (upgrade_plan ops env uenv w) then clear_upgrade_plan ops env uenv ?h w
      else (Ok (), w)) = (Ok (), w1)" "invar w1"
    "upgrade_abs ops env uenv w1 = (if us_plan ?s = None then ?s else spec_clear ?h ?s)"
  proof (cases "us_plan ?s")
    case None
    then show ?thesis using that [of w] w by (simp add: upgrade_reads)
  next
    case (Some old)
    then obtain w1 where "clear_upgrade_plan ops env uenv ?h w = (Ok (), w1)" "invar w1"
      "upgrade_abs ops env uenv w1 = spec_clear ?h ?s"
      using clear_plan_refines [OF env w] by auto
    then show ?thesis using that Some by (simp add: upgrade_reads)
  qed
  obtain w2 bs where w2: "host_set ops env (upgrade_plan_ty env uenv) ''UpgradePlan'' sdk_pending_path plan w1 = (Ok (), w2)"
    "invar w2" "upgrade_view ops env w2 = (upgrade_view ops env w1)(None := Some bs)"
    "decode (codec (upgrade_plan_ty env uenv)) bs = Some plan"
    by (rule upgrade_set [OF env st w1(2) upgrade_paths(1) ok])
  have "upgrade_abs ops env uenv w2 = (upgrade_abs ops env uenv w1)\<lparr>us_plan := Some plan\<rparr>"
    by (simp add: upgrade_abs_view w2(3,4))
  then have "upgrade_abs ops env uenv w2 = spec_schedule (ue_plan_height uenv) plan ?s"
    by (simp add: w1(3) spec_schedule_def)
  moreover have "schedule_upgrade ops env uenv plan w = (Ok (), w2)"
    using assms(4) w1(1) w2(1) by (simp add: schedule_upgrade_def)
  ultimately show ?thesis using that w2(2) by blast
qed

lemma store_consensus_refines:
  assumes env: "upgrade_env_ok env uenv" and st: "\<And>v. storable v" and w: "invar w"
  obtains w' where "store_upgraded_consensus_state ops env h cs w = (Ok (), w')" and "invar w'"
    and "upgrade_abs ops env uenv w' = (upgrade_abs ops env uenv w)
      \<lparr>us_consensus := (us_consensus (upgrade_abs ops env uenv w))(h \<mapsto> cs)\<rparr>"
proof -
  have ok: "codec_ok (codec (upgraded_consensus_state_ty env)) cs" using env by (simp add: upgrade_env_ok_def)
  obtain w' bs where "host_set ops env (upgraded_consensus_state_ty env) ''UpgradeConsensusState'' h cs w = (Ok (), w')"
    "invar w'" "upgrade_view ops env w' = (upgrade_view ops env w)(Some (UpgradeConsensusStatePath h) := Some bs)"
    "decode (codec (upgraded_consensus_state_ty env)) bs = Some cs"
    by (rule upgrade_set [OF env st w upgrade_paths(3) ok])
  with that show ?thesis
    by (auto simp: store_upgraded_consensus_state_def upgrade_abs_view fun_eq_iff)
qed

lemma store_client_refines:
  assumes env: "upgrade_env_ok env uenv" and st: "\<And>v. storable v" and w: "invar w"
  obtains w' where "store_upgraded_client_state ops env h cs w = (Ok (), w')" and "invar w'"
    and "upgrade_abs ops env uenv w' = (upgrade_abs ops env uenv w)
      \<lparr>us_client := (us_client (upgrade_abs ops env uenv w))(h \<mapsto> cs)\<rparr>"
proof -
  have ok: "codec_ok (codec (upgraded_client_state_ty env)) cs" using env by (simp add: upgrade_env_ok_def)
  obtain w' bs where "host_set ops env (upgraded_client_state_ty env) ''UpgradedClientState'' h cs w = (Ok (), w')"
    "invar w'" "upgrade_view ops env w' = (upgrade_view ops env w)(Some (UpgradeClientStatePath h) := Some bs)"
    "decode (codec (upgraded_client_state_ty env)) bs = Some cs"
    by (rule upgrade_set [OF env st w upgrade_paths(2) ok])
  with that show ?thesis
    by (auto simp: store_upgraded_client_state_def upgrade_abs_view fun_eq_iff)
qed

end


section \<open>Properties\<close>

text \<open>The store of the module: a shared in-memory store.\<close>

abbreviation upgrade_store ::
  "(bytes \<Rightarrow> bytes) \<Rightarrow> nat \<Rightarrow> ((in_memory, 'y) heap_scheme, infallible) provable_ops" where
  "upgrade_store sha a \<equiv> shared_ops (in_memory_ops sha) a"

text \<open>
  C20. Scheduling a plan implements its specification: a plan below the current height is refused
  and nothing changes; any other becomes the pending plan. A plan that was pending before is
  replaced, and the upgraded states that are deleted with it are those of the height of the
  new plan: the states stored for the old plan stay.
\<close>

theorem schedule_upgrade_refines:
  fixes env :: "('tcs, 'tcons, 'conn, 'chan, 'ts, infallible) ibc_env"
  assumes env: "upgrade_env_ok env uenv" and w: "im_ok sha (cell w a)"
  shows "if ue_plan_height uenv plan < st_current_height (upgrade_store sha a) w
     then schedule_upgrade (upgrade_store sha a) env uenv plan w =
       (Err (InvalidState ''Upgrade plan height is in the past''), w)
     else \<exists>w'. schedule_upgrade (upgrade_store sha a) env uenv plan w = (Ok (), w') \<and> im_ok sha (cell w' a) \<and>
       upgrade_abs (upgrade_store sha a) env uenv w' =
         spec_schedule (ue_plan_height uenv) plan (upgrade_abs (upgrade_store sha a) env uenv w)"
proof (cases "ue_plan_height uenv plan < st_current_height (upgrade_store sha a) w")
  case True
  then show ?thesis unfolding schedule_upgrade_def by simp
next
  case False
  then have "st_current_height (upgrade_store sha a) w \<le> ue_plan_height uenv plan" by (simp only: not_less)
  from shared.kv.schedule_refines [OF env TrueI w this]
  obtain w' where "schedule_upgrade (upgrade_store sha a) env uenv plan w = (Ok (), w')" "im_ok sha (cell w' a)"
    "upgrade_abs (upgrade_store sha a) env uenv w' =
      spec_schedule (ue_plan_height uenv) plan (upgrade_abs (upgrade_store sha a) env uenv w)"
    by metis
  then show ?thesis using False by auto
qed

text \<open>The unwrapped arithmetic on heights, as numbers.\<close>

lemma unat_checked_add: "(c :: u64) \<noteq> - 1 \<Longrightarrow> unat (c + 1) = unat c + 1"
  by (metis Suc_eq_plus1 add.commute add.right_inverse add_cancel_right_right unatSuc add_left_imp_eq)

lemma unat_checked_sub: "(h :: u64) \<noteq> 0 \<Longrightarrow> unat (h - 1) = unat h - 1"
  by (metis One_nat_def diff_add_cancel diff_Suc_1 Suc_eq_plus1 unatSuc add.commute)

lemma below_max:
  assumes "unat (h :: u64) = unat (c :: u64) + n" and "0 < n"
  shows "c \<noteq> - 1"
proof
  assume "c = - 1"
  then have "unat c = 2 ^ 64 - 1" by (simp add: unsigned_minus_1_eq_mask mask_eq_exp_minus_1)
  moreover have "unat h < 2 ^ 64" using unsigned_less [of h] by simp
  ultimately show False using assms by simp
qed

text \<open>The three outcomes of the beginning of a block.\<close>

lemma begin_block_cases:
  fixes w :: "(in_memory, 'y) heap_scheme"
    and m :: "(infallible, 'ev list) outcome \<times> (in_memory, 'y) heap_scheme"
    and env :: "('tcs, 'tcons, 'conn, 'chan, 'ts, infallible) ibc_env"
  assumes env: "upgrade_env_ok env uenv" and w: "im_ok sha (cell w a)"
    and plan: "us_plan (upgrade_abs (upgrade_store sha a) env uenv w) = Some plan"
    and m: "m = upgrade_begin_block (upgrade_store sha a) env uenv header w"
  obtains
    (panics) "us_client (upgrade_abs (upgrade_store sha a) env uenv w) (ue_plan_height uenv plan) = None \<or>
        ue_plan_height uenv plan = 0 \<or> st_current_height (upgrade_store sha a) w = - 1"
      and "m = (Panic, w)"
  | (fires) w' where "us_client (upgrade_abs (upgrade_store sha a) env uenv w) (ue_plan_height uenv plan) \<noteq> None"
      and "unat (ue_plan_height uenv plan) = unat (st_current_height (upgrade_store sha a) w) + 2"
      and "m = (Ok [ue_event uenv (ue_plan_height uenv plan) ''upgrade''], w')"
      and "im_ok sha (cell w' a)"
      and "upgrade_abs (upgrade_store sha a) env uenv w' = (upgrade_abs (upgrade_store sha a) env uenv w)
        \<lparr>us_consensus := (us_consensus (upgrade_abs (upgrade_store sha a) env uenv w))(ue_plan_height uenv plan \<mapsto>
           TendermintConsensus (ue_consensus uenv [] (hd_time header) (hd_next_validators_hash header)))\<rparr>"
  | (idle) "ue_plan_height uenv plan \<noteq> 0"
      and "us_client (upgrade_abs (upgrade_store sha a) env uenv w) (ue_plan_height uenv plan) \<noteq> None"
      and "unat (ue_plan_height uenv plan) \<noteq> unat (st_current_height (upgrade_store sha a) w) + 2"
      and "m = (Ok [], w)"
proof -
  let ?ops = "upgrade_store sha a :: ((in_memory, 'y) heap_scheme, infallible) provable_ops"
  let ?s = "upgrade_abs ?ops env uenv w" and ?h = "ue_plan_height uenv plan" and ?c = "st_current_height ?ops w"
  have up: "upgrade_plan ?ops env uenv w = Ok plan" using plan by (simp add: upgrade_reads)
  note client = upgrade_reads(2) [of ?ops env ?h w uenv]
  show ?thesis
  proof (cases "us_client ?s ?h = None \<or> ?h = 0 \<or> ?c = - 1")
    case True
    then have "m = (Panic, w)"
      using up client by (auto simp: m upgrade_begin_block_def Let_def)
    with True panics show ?thesis by blast
  next
    case False
    then have nz: "?h \<noteq> 0" "?c \<noteq> - 1" by blast+
    have "unat ?h \<noteq> 0" unfolding unat_eq_0 by (rule nz(1))
    then have due: "?c + 1 = ?h - 1 \<longleftrightarrow> unat ?h = unat ?c + 2"
      unfolding word_unat_eq_iff unat_checked_sub [OF nz(1)] unat_checked_add [OF nz(2)] by linarith
    show ?thesis
    proof (cases "unat ?h = unat ?c + 2")
      case True
      obtain w' where w': "store_upgraded_consensus_state ?ops env ?h
          (TendermintConsensus (ue_consensus uenv [] (hd_time header) (hd_next_validators_hash header))) w = (Ok (), w')"
        "im_ok sha (cell w' a)"
        "upgrade_abs ?ops env uenv w' = ?s\<lparr>us_consensus := (us_consensus ?s)(?h \<mapsto>
           TendermintConsensus (ue_consensus uenv [] (hd_time header) (hd_next_validators_hash header)))\<rparr>"
        by (rule shared.kv.store_consensus_refines [OF env TrueI w])
      have "m = (Ok [ue_event uenv ?h ''upgrade''], w')"
        using False True due w'(1) up client by (simp add: m upgrade_begin_block_def Let_def expect_def)
      with fires False True w'(2,3) show ?thesis by blast
    next
      case ne: False
      have "m = (Ok [], w)"
        using False ne due up client by (simp add: m upgrade_begin_block_def Let_def)
      moreover have "us_client ?s ?h \<noteq> None" using False by simp
      ultimately show ?thesis using idle [OF nz(1)] ne by simp
    qed
  qed
qed

text \<open>
  C21. The beginning of a block stops the node whenever a plan is pending for which no upgraded
  client state is stored, or whose height is zero. Otherwise the upgraded consensus state of
  the plan, made of the header, is stored exactly when the plan's height is the current height
  plus two, together with one event; in all other blocks nothing happens.
\<close>

theorem upgrade_begin_block_exact:
  fixes env :: "('tcs, 'tcons, 'conn, 'chan, 'ts, infallible) ibc_env"
    and m :: "(infallible, 'ev list) outcome \<times> (in_memory, 'y) heap_scheme"
  assumes env: "upgrade_env_ok env uenv" and w: "im_ok sha (cell w a)"
    and current: "st_current_height (upgrade_store sha a) w \<noteq> - 1"
    and m: "m = upgrade_begin_block (upgrade_store sha a) env uenv header w"
    and s: "s = upgrade_abs (upgrade_store sha a) env uenv w"
  shows "case us_plan s of
       None \<Rightarrow> m = (Ok [], w)
     | Some plan \<Rightarrow>
         if us_client s (ue_plan_height uenv plan) = None \<or> ue_plan_height uenv plan = 0
         then m = (Panic, w)
         else if unat (ue_plan_height uenv plan) = unat (st_current_height (upgrade_store sha a) w) + 2
         then \<exists>w'. m = (Ok [ue_event uenv (ue_plan_height uenv plan) ''upgrade''], w') \<and>
           upgrade_abs (upgrade_store sha a) env uenv w' = s\<lparr>us_consensus := (us_consensus s)
             (ue_plan_height uenv plan \<mapsto>
                TendermintConsensus (ue_consensus uenv [] (hd_time header) (hd_next_validators_hash header)))\<rparr>
         else m = (Ok [], w)"
proof (cases "us_plan s")
  case None
  then have "upgrade_plan (upgrade_store sha a) env uenv w = Err (InvalidState ''No UpgradePlan'')"
    using s by (simp add: upgrade_reads)
  then show ?thesis using None by (simp add: m upgrade_begin_block_def)
next
  case (Some plan)
  show ?thesis
  proof (cases rule: begin_block_cases [OF env w Some [unfolded s] m, case_names panics fires idle])
    case panics
    then show ?thesis using Some current by (auto simp: s)
  next
    case (fires w')
    then show ?thesis using Some by (auto simp: s)
  next
    case idle
    then show ?thesis using Some by (auto simp: s)
  qed
qed

text \<open>
  C33. A plan for one of the next two blocks is accepted and then never executed: once a plan has
  been scheduled at height \<open>H\<close> for a height below \<open>H + 3\<close>, no later block that still finds it
  pending stores the upgraded consensus state.
\<close>

theorem late_plan_never_fires:
  fixes env :: "('tcs, 'tcons, 'conn, 'chan, 'ts, infallible) ibc_env"
    and m :: "(infallible, 'ev list) outcome \<times> (in_memory, 'y) heap_scheme"
  assumes env: "upgrade_env_ok env uenv"
    and scheduled: "schedule_upgrade (upgrade_store sha a) env uenv plan w = (Ok (), w1)"
    and soon: "unat (ue_plan_height uenv plan) < unat (st_current_height (upgrade_store sha a) w) + 3"
    and w2: "im_ok sha (cell w2 a)"
    and later: "unat (st_current_height (upgrade_store sha a) w) < unat (st_current_height (upgrade_store sha a) w2)"
    and still: "us_plan (upgrade_abs (upgrade_store sha a) env uenv w2) = Some plan"
    and m: "m = upgrade_begin_block (upgrade_store sha a) env uenv header w2"
  shows "unat (st_current_height (upgrade_store sha a) w) \<le> unat (ue_plan_height uenv plan) \<and>
     (m = (Ok [], w2) \<or> m = (Panic, w2))"
proof
  have "\<not> ue_plan_height uenv plan < st_current_height (upgrade_store sha a) w"
  proof
    assume "ue_plan_height uenv plan < st_current_height (upgrade_store sha a) w"
    then show False using scheduled unfolding schedule_upgrade_def by (simp del: shared_ops_methods)
  qed
  then show "unat (st_current_height (upgrade_store sha a) w) \<le> unat (ue_plan_height uenv plan)"
    by (simp only: not_less word_le_nat_alt)
  show "m = (Ok [], w2) \<or> m = (Panic, w2)"
  proof (cases rule: begin_block_cases [OF env w2 still m, case_names panics fires idle])
    case (fires w')
    then show ?thesis using soon later by linarith
  qed simp_all
qed

text \<open>Blocks without transactions: the beginning of each block, then its commit. The events are
  those of all blocks.\<close>

fun upgrade_blocks ::
  "('w, 'e, 'z) store_ops_scheme \<Rightarrow> ('tcs, 'tcons, 'conn, 'chan, 'ts, 'e) ibc_env \<Rightarrow>
   ('plan, 'tcons, 'tm, 'ev) upgrade_env \<Rightarrow> 'tm header list \<Rightarrow> 'w \<Rightarrow>
   (infallible, 'ev list) outcome \<times> 'w" where
  "upgrade_blocks ops env uenv [] w = (Ok [], w)"
| "upgrade_blocks ops env uenv (header # headers) w =
     and_then (upgrade_begin_block ops env uenv header w) (\<lambda>evs w.
     and_then (expect (st_commit ops w)) (\<lambda>_ w.
     and_then (upgrade_blocks ops env uenv headers w) (\<lambda>evs' w. (Ok (evs @ evs'), w))))"

context chain_store
begin

lemma commit_keeps_pending:
  assumes s: "invar s"
  obtains h s' where "st_commit ops s = (Ok h, s')" and "invar s'"
    and "\<And>p. st_get ops Pending p s' = st_get ops Pending p s"
    and "st_current_height ops s' = st_current_height ops s + 1"
proof -
  from commit_law [OF s] obtain h s' where s': "st_commit ops s = (Ok h, s')" "invar s'"
    "abs s' = chain_commit (abs s)" by blast
  have "st_get ops Pending p s' = st_get ops Pending p s" for p
    using s s' by (simp add: get_law chain_view_def chain_commit_def chain_apply_def Let_def)
  moreover have "st_current_height ops s' = st_current_height ops s + 1"
    using s s' by (simp add: height_law chain_height_def chain_commit_def chain_apply_def Let_def)
  ultimately show ?thesis using that s' by blast
qed

end

lemma upgrade_abs_cong:
  "(\<And>p. st_get ops Pending p w' = st_get ops Pending p w) \<Longrightarrow> upgrade_abs ops env uenv w' = upgrade_abs ops env uenv w"
  by (simp add: upgrade_abs_def ts_get_def)

lemma upgrade_block_committed:
  fixes w :: "(in_memory, 'y) heap_scheme" and env :: "('tcs, 'tcons, 'conn, 'chan, 'ts, infallible) ibc_env"
  assumes w: "im_ok sha (cell w a)"
    and begun: "upgrade_begin_block (upgrade_store sha a) env uenv header w =
      (Ok evs :: (infallible, 'ev list) outcome, w)"
  obtains w1 where "im_ok sha (cell w1 a)"
    and "upgrade_abs (upgrade_store sha a) env uenv w1 = upgrade_abs (upgrade_store sha a) env uenv w"
    and "st_current_height (upgrade_store sha a) w1 = st_current_height (upgrade_store sha a) w + 1"
    and "\<And>headers. (upgrade_blocks (upgrade_store sha a) env uenv (header # headers) w
        :: (infallible, 'ev list) outcome \<times> _) =
      and_then (upgrade_blocks (upgrade_store sha a) env uenv headers w1) (\<lambda>evs' w. (Ok (evs @ evs'), w))"
proof -
  obtain h w1 where c: "st_commit (upgrade_store sha a) w = (Ok h, w1)" "im_ok sha (cell w1 a)"
    "\<And>p. st_get (upgrade_store sha a) Pending p w1 = st_get (upgrade_store sha a) Pending p w"
    "st_current_height (upgrade_store sha a) w1 = st_current_height (upgrade_store sha a) w + 1"
    using shared.commit_keeps_pending [OF w] by metis
  show ?thesis
    by (rule that [OF c(2) upgrade_abs_cong [OF c(3)] c(4)])
      (simp add: begun c(1) expect_def del: shared_ops_methods)
qed

lemma upgrade_blocks_append:
  "upgrade_blocks ops env uenv (xs @ ys) w =
     and_then (upgrade_blocks ops env uenv xs w) (\<lambda>evs w.
     and_then (upgrade_blocks ops env uenv ys w) (\<lambda>evs' w. (Ok (evs @ evs'), w)))"
  by (induction xs arbitrary: w) (simp_all add: and_then_def split: prod.splits outcome.splits)

text \<open>Blocks that are not the one the plan waits for leave it alone.\<close>

lemma upgrade_blocks_idle:
  fixes w :: "(in_memory, 'y) heap_scheme" and env :: "('tcs, 'tcons, 'conn, 'chan, 'ts, infallible) ibc_env"
    and uenv :: "('plan, 'tcons, 'tm, 'ev) upgrade_env"
  assumes env: "upgrade_env_ok env uenv" and nz: "ue_plan_height uenv plan \<noteq> 0" and "im_ok sha (cell w a)"
    and "us_plan (upgrade_abs (upgrade_store sha a) env uenv w) = Some plan"
    and "us_client (upgrade_abs (upgrade_store sha a) env uenv w) (ue_plan_height uenv plan) \<noteq> None"
    and "\<forall>i < length headers. unat (ue_plan_height uenv plan) \<noteq> unat (st_current_height (upgrade_store sha a) w) + i + 2"
    and "unat (st_current_height (upgrade_store sha a) w) + length headers < 2 ^ 64"
  shows "\<exists>w'. (upgrade_blocks (upgrade_store sha a) env uenv headers w
        :: (infallible, 'ev list) outcome \<times> (in_memory, 'y) heap_scheme) = (Ok [], w') \<and>
     im_ok sha (cell w' a) \<and>
     upgrade_abs (upgrade_store sha a) env uenv w' = upgrade_abs (upgrade_store sha a) env uenv w \<and>
     unat (st_current_height (upgrade_store sha a) w') =
       unat (st_current_height (upgrade_store sha a) w) + length headers"
  using assms(3-)
proof (induction headers arbitrary: w)
  case (Cons header headers)
  define m :: "(infallible, 'ev list) outcome \<times> (in_memory, 'y) heap_scheme"
    where m: "m = upgrade_begin_block (upgrade_store sha a) env uenv header w"
  have max: "st_current_height (upgrade_store sha a) w \<noteq> - 1"
  proof
    assume "st_current_height (upgrade_store sha a) w = - 1"
    then have "unat (st_current_height (upgrade_store sha a) w) = 2 ^ 64 - 1"
      by (simp only: unsigned_minus_1_eq_mask mask_eq_exp_minus_1) simp
    then show False using Cons.prems(5) by simp
  qed
  show ?case
  proof (cases rule: begin_block_cases [OF env Cons.prems(1,2) m, case_names panics fires idle])
    case panics
    then show ?thesis using Cons.prems(3) max nz by simp
  next
    case (fires w')
    then show ?thesis using Cons.prems(4) by fastforce
  next
    case idle
    from upgrade_block_committed [OF Cons.prems(1) idle(4) [unfolded m]]
    obtain w1 where w1: "im_ok sha (cell w1 a)"
      "upgrade_abs (upgrade_store sha a) env uenv w1 = upgrade_abs (upgrade_store sha a) env uenv w"
      "st_current_height (upgrade_store sha a) w1 = st_current_height (upgrade_store sha a) w + 1"
      "\<And>headers. (upgrade_blocks (upgrade_store sha a) env uenv (header # headers) w
          :: (infallible, 'ev list) outcome \<times> _) =
        and_then (upgrade_blocks (upgrade_store sha a) env uenv headers w1) (\<lambda>evs' w. (Ok ([] @ evs'), w))"
      by metis
    have height: "unat (st_current_height (upgrade_store sha a) w1) = unat (st_current_height (upgrade_store sha a) w) + 1"
      unfolding w1(3) by (rule unat_checked_add [OF max])
    have "\<forall>i < length headers.
        unat (ue_plan_height uenv plan) \<noteq> unat (st_current_height (upgrade_store sha a) w1) + i + 2"
      unfolding height using Cons.prems(4) by (metis Suc_less_eq length_Cons add.assoc plus_1_eq_Suc)
    moreover have "unat (st_current_height (upgrade_store sha a) w1) + length headers < 2 ^ 64"
      unfolding height using Cons.prems(5) by simp
    ultimately obtain w' where "(upgrade_blocks (upgrade_store sha a) env uenv headers w1
        :: (infallible, 'ev list) outcome \<times> (in_memory, 'y) heap_scheme) = (Ok [], w')" "im_ok sha (cell w' a)"
      "upgrade_abs (upgrade_store sha a) env uenv w' = upgrade_abs (upgrade_store sha a) env uenv w"
      "unat (st_current_height (upgrade_store sha a) w') =
        unat (st_current_height (upgrade_store sha a) w) + 1 + length headers"
      using Cons.IH [OF w1(1)] Cons.prems(2,3) unfolding w1(2) height by blast
    then show ?thesis unfolding w1(4) by (intro exI [of _ w']) simp
  qed
qed simp

end
