(* ===== verification/Gov.thy ===== *)
theory Gov
  imports Upgrade
begin

text \<open>
  The governance module: \<open>basecoin/modules/src/gov\<close>. It executes an upgrade proposal on the
  upgrade module and a client recovery on its own copy of the IBC module: copies share the
  stores and the host's consensus states, but each has its own events and log. Its other state
  is a counter beside its store.

  \<open>final_tally_result\<close> and the times of a proposal are values of \<open>ibc-proto\<close>, of the types
  \<open>'tally\<close> and \<open>'stamp\<close>; the handlers of \<open>ibc-rs\<close> and the decoding of messages are fields of
  \<open>gov_env\<close>.
\<close>

section \<open>Messages\<close>

record raw_msg_submit_proposal =
  rm_content :: "any option"
  rm_initial_deposit :: "raw_coin list"
  rm_proposer :: string

record msg_submit_proposal =
  ms_content :: any
  ms_initial_deposit :: coin
  ms_proposer :: string

text \<open>The first deposit is taken by index and the content unwrapped.\<close>

definition msg_try_from ::
  "(string \<Rightarrow> (string, u256) outcome) \<Rightarrow> raw_msg_submit_proposal \<Rightarrow>
   (('id, 'ie) app_error, msg_submit_proposal) outcome" where
  "msg_try_from from_radix_10 raw = (case rm_initial_deposit raw of
     [] \<Rightarrow> Panic
   | c # _ \<Rightarrow> (case coin_try_from from_radix_10 c of
       Ok coin \<Rightarrow> (case rm_content raw of
           None \<Rightarrow> Panic
         | Some content \<Rightarrow> Ok \<lparr>ms_content = content, ms_initial_deposit = coin, ms_proposer = rm_proposer raw\<rparr>)
     | Err e \<Rightarrow> Err e
     | Panic \<Rightarrow> Panic
     | Diverge \<Rightarrow> Diverge))"

definition msg_into_raw :: "msg_submit_proposal \<Rightarrow> raw_msg_submit_proposal" where
  "msg_into_raw m = \<lparr>rm_content = Some (ms_content m),
     rm_initial_deposit = [coin_into_raw (ms_initial_deposit m)], rm_proposer = ms_proposer m\<rparr>"


section \<open>Proposals\<close>

datatype gov_proposal_status = Unspecified | DepositPeriod | VotingPeriod | Passed | Rejected | Failed

record ('tally, 'stamp) proposal =
  pr_id :: u64
  pr_content :: any
  pr_status :: gov_proposal_status
  pr_final_tally :: "'tally option"
  pr_submit_time :: "'stamp option"
  pr_deposit_end :: "'stamp option"
  pr_total_deposit :: coin
  pr_voting_start :: "'stamp option"
  pr_voting_end :: "'stamp option"

record ('tally, 'stamp) raw_proposal =
  rpr_id :: u64
  rpr_content :: "any option"
  rpr_status :: "32 word"
  rpr_final_tally :: "'tally option"
  rpr_submit_time :: "'stamp option"
  rpr_deposit_end :: "'stamp option"
  rpr_total_deposit :: "raw_coin list"
  rpr_voting_start :: "'stamp option"
  rpr_voting_end :: "'stamp option"

definition msg_proposal :: "msg_submit_proposal \<Rightarrow> u64 \<Rightarrow> ('tally, 'stamp) proposal" where
  "msg_proposal m counter = \<lparr>pr_id = counter, pr_content = ms_content m, pr_status = VotingPeriod,
     pr_final_tally = None, pr_submit_time = None, pr_deposit_end = None,
     pr_total_deposit = ms_initial_deposit m, pr_voting_start = None, pr_voting_end = None\<rparr>"

definition status_of_i32 :: "32 word \<Rightarrow> gov_proposal_status option" where
  "status_of_i32 n =
     (if n = 0 then Some Unspecified else if n = 1 then Some DepositPeriod
      else if n = 2 then Some VotingPeriod else if n = 3 then Some Passed
      else if n = 4 then Some Rejected else if n = 5 then Some Failed else None)"

fun status_to_i32 :: "gov_proposal_status \<Rightarrow> 32 word" where
  "status_to_i32 Unspecified = 0"
| "status_to_i32 DepositPeriod = 1"
| "status_to_i32 VotingPeriod = 2"
| "status_to_i32 Passed = 3"
| "status_to_i32 Rejected = 4"
| "status_to_i32 Failed = 5"

text \<open>The deposit is unwrapped before the status is looked at; the times are dropped.\<close>

definition proposal_try_from ::
  "(string \<Rightarrow> (string, u256) outcome) \<Rightarrow> ('tally, 'stamp) raw_proposal \<Rightarrow>
   (gov_error, ('tally, 'stamp) proposal) outcome" where
  "proposal_try_from from_radix_10 raw = (case rpr_total_deposit raw of
     [] \<Rightarrow> Panic
   | c # _ \<Rightarrow> (case coin_try_from from_radix_10 c :: ((unit, unit) app_error, coin) outcome of
       Ok total_deposit \<Rightarrow> (case status_of_i32 (rpr_status raw) of
           None \<Rightarrow> Err (InvalidProposal ''invalid status'')
         | Some status \<Rightarrow> (case rpr_content raw of
             None \<Rightarrow> Panic
           | Some content \<Rightarrow> Ok \<lparr>pr_id = rpr_id raw, pr_content = content, pr_status = status,
               pr_final_tally = rpr_final_tally raw, pr_submit_time = None, pr_deposit_end = None,
               pr_total_deposit = total_deposit, pr_voting_start = None, pr_voting_end = None\<rparr>))
     | Diverge \<Rightarrow> Diverge
     | _ \<Rightarrow> Panic))"

definition proposal_into_raw :: "('tally, 'stamp) proposal \<Rightarrow> ('tally, 'stamp) raw_proposal" where
  "proposal_into_raw p = \<lparr>rpr_id = pr_id p, rpr_content = Some (pr_content p),
     rpr_status = status_to_i32 (pr_status p), rpr_final_tally = pr_final_tally p,
     rpr_submit_time = pr_submit_time p, rpr_deposit_end = pr_deposit_end p,
     rpr_total_deposit = [coin_into_raw (pr_total_deposit p)],
     rpr_voting_start = pr_voting_start p, rpr_voting_end = pr_voting_end p\<rparr>"


section \<open>Environment\<close>

record ('w, 'tcs, 'tcons, 'conn, 'chan, 'ts, 'iev, 'plan, 'ev, 'uprop, 'rmsg, 'tally, 'stamp) gov_env =
  ge_from_radix_10 :: "string \<Rightarrow> (string, u256) outcome"
  ge_decode_msg :: "bytes \<Rightarrow> (string, raw_msg_submit_proposal) outcome"
  ge_try_from_text :: "string \<Rightarrow> string"
  ge_encode_proposal :: "('tally, 'stamp) raw_proposal \<Rightarrow> bytes"
  ge_decode_proposal :: "bytes \<Rightarrow> (string, ('tally, 'stamp) raw_proposal) outcome"
  ge_upgrade_url :: string
  ge_decode_upgrade :: "bytes \<Rightarrow> 'uprop option"
  ge_execute_upgrade :: "'uprop \<Rightarrow> ('w, ('plan, 'tcs, 'tcons) upgrade_call, (string, 'ev) outcome) prog"
  ge_recover_url :: string
  ge_decode_recover :: "bytes \<Rightarrow> 'rmsg option"
  ge_recover_validate :: "'rmsg \<Rightarrow> 'w \<Rightarrow> (string, unit) outcome"
  ge_recover_execute :: "'rmsg \<Rightarrow> ('w, ('tcs, 'tcons, 'conn, 'chan, 'ts, 'iev) host_call, (string, unit) outcome) prog"

definition MSG_TYPE_URL :: string where
  "MSG_TYPE_URL = ''/cosmos.gov.v1beta1.MsgSubmitProposal''"

definition PROPOSAL_TYPE_URL :: string where
  "PROPOSAL_TYPE_URL = ''/cosmos.gov.v1beta1.Proposal''"

text \<open>\<open>ge_try_from_text\<close> is the text that \<open>Protobuf::decode_vec\<close> gives a failed conversion.\<close>

definition msg_try_from_any ::
  "('w, 'tcs, 'tcons, 'conn, 'chan, 'ts, 'iev, 'plan, 'ev, 'uprop, 'rmsg, 'tally, 'stamp) gov_env \<Rightarrow> any \<Rightarrow>
   (('id, 'ie) app_error, msg_submit_proposal) outcome" where
  "msg_try_from_any genv raw =
     (if type_url raw = MSG_TYPE_URL then
        (case ge_decode_msg genv (any_value raw) of
           Ok m \<Rightarrow> map_err (\<lambda>e. Custom (ge_try_from_text genv (app_error_display (\<lambda>_. []) (\<lambda>_. []) e)))
             (msg_try_from (ge_from_radix_10 genv) m :: ((unit, unit) app_error, msg_submit_proposal) outcome)
         | Err text \<Rightarrow> Err (Custom text)
         | Panic \<Rightarrow> Panic
         | Diverge \<Rightarrow> Diverge)
      else Err (Custom (type_url raw)))"

definition proposal_into_any ::
  "('w, 'tcs, 'tcons, 'conn, 'chan, 'ts, 'iev, 'plan, 'ev, 'uprop, 'rmsg, 'tally, 'stamp) gov_env \<Rightarrow>
   ('tally, 'stamp) proposal \<Rightarrow> any" where
  "proposal_into_any genv p =
     \<lparr>type_url = PROPOSAL_TYPE_URL, any_value = ge_encode_proposal genv (proposal_into_raw p)\<rparr>"

definition proposal_try_from_any ::
  "('w, 'tcs, 'tcons, 'conn, 'chan, 'ts, 'iev, 'plan, 'ev, 'uprop, 'rmsg, 'tally, 'stamp) gov_env \<Rightarrow> any \<Rightarrow>
   (gov_error, ('tally, 'stamp) proposal) outcome" where
  "proposal_try_from_any genv raw =
     (if type_url raw = PROPOSAL_TYPE_URL then
        (case ge_decode_proposal genv (any_value raw) of
           Ok m \<Rightarrow> map_err (\<lambda>e. InvalidProposal (ge_try_from_text genv (gov_error_display e)))
             (proposal_try_from (ge_from_radix_10 genv) m)
         | Err text \<Rightarrow> Err (InvalidProposal text)
         | Panic \<Rightarrow> Panic
         | Diverge \<Rightarrow> Diverge)
      else Err (InvalidProposal (type_url raw)))"

definition PROPOSAL_BYTE :: bytes where
  "PROPOSAL_BYTE = string_bytes ''0x0''"

text \<open>A \<open>ProposalPath\<close> is the string it wraps.\<close>

definition proposal_path_from_bytes :: "bytes \<Rightarrow> (infallible, string) outcome" where
  "proposal_path_from_bytes bs = (case from_utf8 bs of Ok s \<Rightarrow> Ok s | _ \<Rightarrow> Panic)"

definition sdk_proposal_path :: string where
  "sdk_proposal_path = bytes_string PROPOSAL_BYTE"

lemma sdk_proposal_path: "proposal_path_from_bytes PROPOSAL_BYTE = Ok sdk_proposal_path" "sdk_proposal_path = ''0x0''"
  by code_simp+

text \<open>The proposals of the store were put there by this module, so that decoding one, which only
  happens to the value that \<open>set\<close> replaces, does not panic.\<close>

definition proposal_ty ::
  "('tcs, 'tcons, 'conn, 'chan, 'ts, 'e) ibc_env \<Rightarrow>
   ('w, 'tcs, 'tcons, 'conn, 'chan, 'ts, 'iev, 'plan, 'ev, 'uprop, 'rmsg, 'tally, 'stamp) gov_env \<Rightarrow>
   (string, ('tally, 'stamp) proposal) typed" where
  "proposal_ty env genv = \<lparr>key_string = (\<lambda>s. s),
     codec = protobuf_codec (proposal_into_any genv) (\<lambda>a. some_ok (proposal_try_from_any genv a))
       (encode_message (ie_any env)) (decode_message (ie_any env))\<rparr>"


section \<open>The module\<close>

text \<open>What the module keeps beside its store.\<close>

record ('s, 'tcons, 'iev) gov_heap = "('s, 'tcons, 'iev) ibc_heap" +
  proposal_counter :: u64
  gov_ibc_events :: "'iev list"
  gov_ibc_logs :: "string list"

text \<open>\<open>Governance::new\<close>, with its own copy of the IBC module, whose events and log are those the
  module had when it was cloned.\<close>

definition gov_new :: "('s, 'tcons, 'iev, 'y) gov_heap_scheme \<Rightarrow> ('s, 'tcons, 'iev, 'y) gov_heap_scheme" where
  "gov_new w = w\<lparr>proposal_counter := 0, gov_ibc_events := ibc_events w, gov_ibc_logs := ibc_logs w\<rparr>"

definition gov_perform_host ::
  "(('s, 'tcons, 'iev, 'y) gov_heap_scheme, 'e, 'z) store_ops_scheme \<Rightarrow>
   ('tcs, 'tcons, 'conn, 'chan, 'ts, 'e) ibc_env \<Rightarrow> ('tcs, 'tcons, 'conn, 'chan, 'ts, 'iev) host_call \<Rightarrow>
   ('s, 'tcons, 'iev, 'y) gov_heap_scheme \<Rightarrow>
   (host_error, unit) outcome \<times> ('s, 'tcons, 'iev, 'y) gov_heap_scheme" where
  "gov_perform_host ops env c w = (case c of
     EmitIbcEvent ev \<Rightarrow> (Ok (), w\<lparr>gov_ibc_events := gov_ibc_events w @ [ev]\<rparr>)
   | LogMessage m \<Rightarrow> (Ok (), w\<lparr>gov_ibc_logs := gov_ibc_logs w @ [m]\<rparr>)
   | _ \<Rightarrow> perform_host ops env c w)"

text \<open>\<open>iops\<close>, \<open>uops\<close> and \<open>ops\<close> are the stores of the IBC, the upgrade and this module.\<close>

definition deliver_upgrade_proposal where
  "deliver_upgrade_proposal uops ops env uenv genv message w =
     (case ge_decode_upgrade genv (any_value (ms_content message)) of
        None \<Rightarrow> (Panic, w)
      | Some proposal \<Rightarrow> (case run (perform_upgrade uops env uenv) (ge_execute_upgrade genv proposal) w of
          (r, w) \<Rightarrow>
            and_then (map_err (\<lambda>e. Custom (''Error handling upgrade proposal: '' @ e)) r, w) (\<lambda>event w.
            and_then (expect (ts_set ops (proposal_ty env genv) sdk_proposal_path
                (msg_proposal message (proposal_counter w)) w)) (\<lambda>_ w.
              (Ok [event], w\<lparr>proposal_counter := proposal_counter w + 1\<rparr>)))))"

definition deliver_recover_client where
  "deliver_recover_client iops env genv message w =
     (case ge_decode_recover genv (any_value (ms_content message)) of
        None \<Rightarrow> (Panic, w)
      | Some m \<Rightarrow>
          and_then (map_err (\<lambda>e. GovErr (ValidationFailure (''Error validating client recovery message: '' @ e)))
            (ge_recover_validate genv m w), w) (\<lambda>_ w.
          (case run (gov_perform_host iops env) (ge_recover_execute genv m) w of
             (r, w) \<Rightarrow> and_then
               (map_err (\<lambda>e. GovErr (ValidationFailure (''Error executing client recovery message: '' @ e))) r, w)
               (\<lambda>_ w. (Ok [], w)))))"

definition gov_deliver ::
  "(('s, 'tcons, 'iev, 'y) gov_heap_scheme, 'e, 'z) store_ops_scheme \<Rightarrow>
   (('s, 'tcons, 'iev, 'y) gov_heap_scheme, 'e, 'z) store_ops_scheme \<Rightarrow>
   (('s, 'tcons, 'iev, 'y) gov_heap_scheme, 'e, 'z) store_ops_scheme \<Rightarrow>
   ('tcs, 'tcons, 'conn, 'chan, 'ts, 'e) ibc_env \<Rightarrow> ('plan, 'tcons, 'tm, 'ev) upgrade_env \<Rightarrow>
   (('s, 'tcons, 'iev, 'y) gov_heap_scheme, 'tcs, 'tcons, 'conn, 'chan, 'ts, 'iev, 'plan, 'ev, 'uprop, 'rmsg,
     'tally, 'stamp) gov_env \<Rightarrow>
   any \<Rightarrow> 'id \<Rightarrow> ('s, 'tcons, 'iev, 'y) gov_heap_scheme \<Rightarrow>
   (('id, 'ie) app_error, 'ev list) outcome \<times> ('s, 'tcons, 'iev, 'y) gov_heap_scheme" where
  "gov_deliver iops uops ops env uenv genv message signer w =
     (case msg_try_from_any genv message :: (('id, 'ie) app_error, msg_submit_proposal) outcome of
        Ok m \<Rightarrow>
          (if type_url (ms_content m) = ge_upgrade_url genv then deliver_upgrade_proposal uops ops env uenv genv m w
           else if type_url (ms_content m) = ge_recover_url genv then deliver_recover_client iops env genv m w
           else (Err NotHandled, w))
      | Err e \<Rightarrow> (Err NotHandled, w)
      | Panic \<Rightarrow> (Panic, w)
      | Diverge \<Rightarrow> (Diverge, w))"

definition gov_query ::
  "('w, 'e, 'z) store_ops_scheme \<Rightarrow> bytes \<Rightarrow> path option \<Rightarrow> height \<Rightarrow> bool \<Rightarrow> 'w \<Rightarrow>
   (('id, 'ie) app_error, query_result) outcome" where
  "gov_query ops d path h prove w = (case path of
     None \<Rightarrow> Err NotHandled
   | Some p \<Rightarrow>
       if path_to_string p \<noteq> ''/cosmos.gov.v1beta1.Query/Proposal'' then Err NotHandled
       else (case st_get ops Pending (path_from_string sdk_proposal_path) w of
          None \<Rightarrow> Err (Custom ''Data not found'')
        | Some x \<Rightarrow> Ok \<lparr>qr_data = x, qr_proof = None\<rparr>))"

definition gov_module ::
  "('s, 'e, 'z) provable_ops_scheme \<Rightarrow> nat \<Rightarrow> nat \<Rightarrow> nat \<Rightarrow> ('tcs, 'tcons, 'conn, 'chan, 'ts, 'e) ibc_env \<Rightarrow>
   ('plan, 'tcons, 'tm, 'ev) upgrade_env \<Rightarrow>
   (('s, 'tcons, 'iev, 'y) gov_heap_scheme, 'tcs, 'tcons, 'conn, 'chan, 'ts, 'iev, 'plan, 'ev, 'uprop, 'rmsg,
     'tally, 'stamp) gov_env \<Rightarrow>
   (('s, 'tcons, 'iev, 'y) gov_heap_scheme, 'id, 'ie, 'ev, 'tm header, 'j) module_ops" where
  "gov_module ops ibc_store_address upgrade_store_address a env uenv genv = \<lparr>
     md_check = default_check,
     md_deliver = gov_deliver (shared_ops ops ibc_store_address) (shared_ops ops upgrade_store_address)
       (shared_ops ops a) env uenv genv,
     md_init = default_init,
     md_query = gov_query (shared_ops ops a),
     md_begin_block = default_begin_block,
     md_store = a\<rparr>"

end
