(* ===== verification/Upgrade_Laws.thy ===== *)
theory Upgrade_Laws
  imports Upgrade Ibc_Laws
begin

text \<open>
  The upgrade module is confined to its store, and concrete instances of its properties.
\<close>

section \<open>Writes of the module\<close>

context writer
begin

lemma closed_if: "rel_closed R f \<Longrightarrow> rel_closed R g \<Longrightarrow> rel_closed R (\<lambda>w. if b w then f w else g w)"
  by (auto simp: rel_closed_def)

lemma closed_clear_plan:
  "a \<in> A \<Longrightarrow> rel_closed R (clear_upgrade_plan (shared_ops (in_memory_ops sha) a) env uenv h)"
  unfolding clear_upgrade_plan_def [abs_def] by (intro closed_if closed_return closed_and_then closed_host_delete)

lemma closed_schedule:
  "a \<in> A \<Longrightarrow> rel_closed R (schedule_upgrade (shared_ops (in_memory_ops sha) a) env uenv plan)"
  unfolding schedule_upgrade_def [abs_def]
  by (intro closed_if closed_return closed_and_then closed_host_set closed_clear_plan)

lemma closed_perform_upgrade:
  assumes "a \<in> A"
  shows "rel_closed R (perform_upgrade (shared_ops (in_memory_ops sha) a) env uenv c)"
  using assms
  by (cases c) (simp_all add: closed_clear_plan closed_schedule closed_host_set
      store_upgraded_client_state_def [abs_def] store_upgraded_consensus_state_def [abs_def])

lemma closed_upgrade_run:
  assumes "a \<in> A"
  shows "rel_closed R (run (perform_upgrade (shared_ops (in_memory_ops sha) a) env uenv) p)"
proof -
  have "caller (perform_upgrade (shared_ops (in_memory_ops sha) a) env uenv) R"
    by unfold_locales (rule R_refl, erule R_trans, assumption, erule rel_closedD [OF closed_perform_upgrade [OF assms]])
  then show ?thesis by (intro rel_closedI) (rule caller.R_run)
qed

lemma closed_outcome_case:
  "(\<And>x. rel_closed R (f x)) \<Longrightarrow> rel_closed R g \<Longrightarrow> rel_closed R (\<lambda>w. case m w of Ok x \<Rightarrow> f x w | _ \<Rightarrow> g w)"
  by (simp add: rel_closed_def split: outcome.splits)

lemma closed_upgrade_begin:
  "a \<in> A \<Longrightarrow> rel_closed R (upgrade_begin_block (shared_ops (in_memory_ops sha) a) env uenv header)"
  unfolding upgrade_begin_block_def [abs_def] Let_def store_upgraded_consensus_state_def
  by (intro closed_outcome_case closed_if closed_return closed_and_then closed_expect closed_host_set)

end

lemma upgrade_module_confined:
  assumes "a \<in> A"
  shows "module_confined sha A (upgrade_module (in_memory_ops sha) a env uenv)"
  unfolding module_confined_def upgrade_module_def module_ops.simps default_deliver_def [abs_def]
    default_init_def [abs_def]
  by (intro conjI allI confined_return) (simp add: confined_rel_closed cells.closed_upgrade_begin assms)


section \<open>A plan is executed once\<close>

text \<open>Writing to stores leaves their committed blocks alone.\<close>

interpretation blocks_kept: writer sha UNIV "\<lambda>w w'. \<forall>c. im_store (cell w' c) = im_store (cell w c)" for sha
  by unfold_locales (auto simp: write_access_def im_set_def im_delete_def split: prod.splits option.splits)

lemma begin_block_height:
  fixes w w' :: "(in_memory, 'y) heap_scheme"
  assumes "upgrade_begin_block (upgrade_store sha a) env uenv header w = (r, w')"
  shows "st_current_height (upgrade_store sha a) w' = st_current_height (upgrade_store sha a) w"
proof -
  have "im_store (cell w' a) = im_store (cell w a)"
    using rel_closedD [OF blocks_kept.closed_upgrade_begin [OF UNIV_I] assms] by blast
  then show ?thesis by (simp add: read_access_def im_current_height_def)
qed

text \<open>The block the plan waits for.\<close>

lemma upgrade_block_fires:
  fixes w :: "(in_memory, 'y) heap_scheme" and env :: "('tcs, 'tcons, 'conn, 'chan, 'ts, infallible) ibc_env"
    and uenv :: "('plan, 'tcons, 'tm, 'ev) upgrade_env"
  assumes env: "upgrade_env_ok env uenv" and w: "im_ok sha (cell w a)"
    and plan: "us_plan (upgrade_abs (upgrade_store sha a) env uenv w) = Some plan"
    and client: "us_client (upgrade_abs (upgrade_store sha a) env uenv w) (ue_plan_height uenv plan) \<noteq> None"
    and due: "unat (ue_plan_height uenv plan) = unat (st_current_height (upgrade_store sha a) w) + 2"
  obtains w' where "(upgrade_blocks (upgrade_store sha a) env uenv [header] w
        :: (infallible, 'ev list) outcome \<times> (in_memory, 'y) heap_scheme) =
      (Ok [ue_event uenv (ue_plan_height uenv plan) ''upgrade''], w')"
    and "im_ok sha (cell w' a)"
    and "upgrade_abs (upgrade_store sha a) env uenv w' = (upgrade_abs (upgrade_store sha a) env uenv w)
      \<lparr>us_consensus := (us_consensus (upgrade_abs (upgrade_store sha a) env uenv w))(ue_plan_height uenv plan \<mapsto>
         TendermintConsensus (ue_consensus uenv [] (hd_time header) (hd_next_validators_hash header)))\<rparr>"
    and "unat (st_current_height (upgrade_store sha a) w') = unat (st_current_height (upgrade_store sha a) w) + 1"
proof -
  define m :: "(infallible, 'ev list) outcome \<times> (in_memory, 'y) heap_scheme"
    where m: "m = upgrade_begin_block (upgrade_store sha a) env uenv header w"
  have max: "st_current_height (upgrade_store sha a) w \<noteq> - 1" using below_max [OF due] by simp
  have same: "st_current_height (upgrade_store sha a) w1 = st_current_height (upgrade_store sha a) w"
    if "(m :: (infallible, 'ev list) outcome \<times> (in_memory, 'y) heap_scheme) = (r, w1)" for r w1
    using that unfolding m by (rule begin_block_height)
  show ?thesis
  proof (cases rule: begin_block_cases [OF env w plan m, case_names panics fires idle])
    case panics
    then show ?thesis using client max due by auto
  next
    case (fires w1)
    obtain h w' where c: "st_commit (upgrade_store sha a) w1 = (Ok h, w')" "im_ok sha (cell w' a)"
      "\<And>p. st_get (upgrade_store sha a) Pending p w' = st_get (upgrade_store sha a) Pending p w1"
      "st_current_height (upgrade_store sha a) w' = st_current_height (upgrade_store sha a) w1 + 1"
      using shared.commit_keeps_pending [OF fires(4)] by metis
    show ?thesis
    proof (rule that)
      show "upgrade_blocks (upgrade_store sha a) env uenv [header] w =
          (Ok [ue_event uenv (ue_plan_height uenv plan) ''upgrade''], w')"
        using fires(3) c(1) by (simp add: m expect_def del: shared_ops_methods)
      show "im_ok sha (cell w' a)" by (rule c(2))
      show "upgrade_abs (upgrade_store sha a) env uenv w' = (upgrade_abs (upgrade_store sha a) env uenv w)
          \<lparr>us_consensus := (us_consensus (upgrade_abs (upgrade_store sha a) env uenv w))(ue_plan_height uenv plan \<mapsto>
             TendermintConsensus (ue_consensus uenv [] (hd_time header) (hd_next_validators_hash header)))\<rparr>"
        unfolding upgrade_abs_cong [OF c(3)] by (rule fires(5))
      show "unat (st_current_height (upgrade_store sha a) w') = unat (st_current_height (upgrade_store sha a) w) + 1"
        unfolding c(4) same [OF fires(3)] by (rule unat_checked_add [OF max])
    qed
  next
    case idle
    then show ?thesis using due by simp
  qed
qed

text \<open>
  C22. A plan that is scheduled early enough is executed at the right block and exactly once: when its
  upgraded client state is stored (without it the node would panic) and its height is the current
  height plus \<open>k + 2\<close>, a run of empty blocks through that height and any number of blocks beyond
  reports one event in all, at the beginning of the block after the first \<open>k\<close>; the upgraded
  consensus state is made of that block's header and no later block replaces it. The plan itself
  stays pending to the end: the code never clears it. The run stops short of height \<open>2 ^ 64\<close>.
\<close>

theorem upgrade_fires_eventually:
  fixes env :: "('tcs, 'tcons, 'conn, 'chan, 'ts, infallible) ibc_env"
    and w :: "(in_memory, 'y) heap_scheme"
    and uenv :: "('plan, 'tcons, 'tm, 'ev) upgrade_env"
  assumes env: "upgrade_env_ok env uenv" and w: "im_ok sha (cell w a)"
    and plan: "us_plan (upgrade_abs (upgrade_store sha a) env uenv w) = Some plan"
    and client: "us_client (upgrade_abs (upgrade_store sha a) env uenv w) (ue_plan_height uenv plan) = Some cs"
    and height: "unat (ue_plan_height uenv plan) =
      unat (st_current_height (upgrade_store sha a) w) + length before + 2"
    and bound: "unat (st_current_height (upgrade_store sha a) w) + length before + 1 + length after < 2 ^ 64"
  shows "\<exists>w'. (upgrade_blocks (upgrade_store sha a) env uenv (before @ header # after) w
        :: (infallible, 'ev list) outcome \<times> (in_memory, 'y) heap_scheme) =
       (Ok [ue_event uenv (ue_plan_height uenv plan) ''upgrade''], w') \<and>
     us_consensus (upgrade_abs (upgrade_store sha a) env uenv w') (ue_plan_height uenv plan) =
       Some (TendermintConsensus (ue_consensus uenv [] (hd_time header) (hd_next_validators_hash header))) \<and>
     us_plan (upgrade_abs (upgrade_store sha a) env uenv w') = Some plan"
proof -
  let ?ops = "upgrade_store sha a :: ((in_memory, 'y) heap_scheme, infallible) provable_ops"
  have nz: "ue_plan_height uenv plan \<noteq> 0" using height by auto
  have client': "us_client (upgrade_abs ?ops env uenv w) (ue_plan_height uenv plan) \<noteq> None" using client by simp
  obtain w1 where w1: "(upgrade_blocks ?ops env uenv before w
      :: (infallible, 'ev list) outcome \<times> (in_memory, 'y) heap_scheme) = (Ok [], w1)" "im_ok sha (cell w1 a)"
    "upgrade_abs ?ops env uenv w1 = upgrade_abs ?ops env uenv w"
    "unat (st_current_height ?ops w1) = unat (st_current_height ?ops w) + length before"
    using upgrade_blocks_idle [OF env nz w plan client', where headers = before] height bound by auto
  have due: "unat (ue_plan_height uenv plan) = unat (st_current_height ?ops w1) + 2" using height w1(4) by simp
  obtain w2 where w2: "(upgrade_blocks ?ops env uenv [header] w1
      :: (infallible, 'ev list) outcome \<times> (in_memory, 'y) heap_scheme) =
      (Ok [ue_event uenv (ue_plan_height uenv plan) ''upgrade''], w2)" "im_ok sha (cell w2 a)"
    "upgrade_abs ?ops env uenv w2 = (upgrade_abs ?ops env uenv w)
      \<lparr>us_consensus := (us_consensus (upgrade_abs ?ops env uenv w))(ue_plan_height uenv plan \<mapsto>
         TendermintConsensus (ue_consensus uenv [] (hd_time header) (hd_next_validators_hash header)))\<rparr>"
    "unat (st_current_height ?ops w2) = unat (st_current_height ?ops w1) + 1"
    using upgrade_block_fires [OF env w1(2) _ _ due, of header] plan client' unfolding w1(3) by metis
  obtain w3 where w3: "(upgrade_blocks ?ops env uenv after w2
      :: (infallible, 'ev list) outcome \<times> (in_memory, 'y) heap_scheme) = (Ok [], w3)"
    "upgrade_abs ?ops env uenv w3 = upgrade_abs ?ops env uenv w2"
    using upgrade_blocks_idle [OF env nz w2(2), where headers = after] plan client' due bound w2(3,4) w1(4) by auto
  have "(upgrade_blocks ?ops env uenv (before @ [header] @ after) w
      :: (infallible, 'ev list) outcome \<times> (in_memory, 'y) heap_scheme) =
      (Ok [ue_event uenv (ue_plan_height uenv plan) ''upgrade''], w3)"
    unfolding upgrade_blocks_append by (simp add: w1(1) w2(1) w3(1) del: shared_ops_methods upgrade_blocks.simps)
  then show ?thesis using plan by (intro exI [of _ w3]) (simp add: w3(2) w2(3))
qed


section \<open>Witnesses\<close>

text \<open>Plans are their heights.\<close>

definition demo_uenv :: "(u64, unit, u64, u64) upgrade_env" where
  "demo_uenv = \<lparr>ue_plan_height = id,
     ue_plan_into = (\<lambda>h. \<lparr>type_url = [], any_value = string_bytes (unary [unat h])\<rparr>),
     ue_plan_try = (\<lambda>m. case of_unary 0 (bytes_string (any_value m)) of [n] \<Rightarrow> Some (word_of_nat n) | _ \<Rightarrow> None),
     ue_consensus = (\<lambda>_ _ _. ()), ue_event = (\<lambda>h _. h), ue_query_path = [], ue_encode_proof = (\<lambda>_. None)\<rparr>"

lemma demo_uenv_simps:
  "ue_plan_height demo_uenv h = h" "ue_event demo_uenv h t = h" "ue_consensus demo_uenv r tm v = ()"
  by (simp_all add: demo_uenv_def)

lemma unary_no_x: "CHR ''x'' \<notin> set (unary ns)"
  by (auto simp: unary_def)

lemma demo_show_not_plan: "demo_show p \<noteq> sdk_pending_path"
proof
  assume "demo_show p = sdk_pending_path"
  then have "unary (parts_nats (path_parts p)) = ''0x0''" by (simp add: demo_show_def sdk_paths)
  moreover note unary_no_x [of "parts_nats (path_parts p)"]
  ultimately show False by simp
qed

lemma bytes_string_unary: "bytes_string (string_bytes (unary ns)) = unary ns"
  using rust_string_unary [of ns] by (auto simp: rust_string_def from_utf8_def split: option.splits)

lemma demo_uenv_ok: "upgrade_env_ok demo_ienv demo_uenv"
proof -
  have "codec_ok (codec (upgrade_plan_ty demo_ienv demo_uenv)) plan" for plan
    by (simp add: codec_ok_def upgrade_plan_ty_def protobuf_codec_def demo_uenv_def demo_ienv_def
        bytes_string_unary of_unary_unary)
  moreover have "codec_ok (codec (upgraded_client_state_ty demo_ienv)) cs" for cs
    by (cases cs) (simp add: codec_ok_def upgraded_client_state_ty_def ibc_typed_def client_state_ty_def
        protobuf_codec_def demo_ienv_def client_state_try_from_def some_ok_def)
  moreover have "codec_ok (codec (upgraded_consensus_state_ty demo_ienv)) cs" for cs
    by (cases cs) (simp add: codec_ok_def upgraded_consensus_state_ty_def ibc_typed_def consensus_state_ty_def
        protobuf_codec_def demo_ienv_def consensus_state_try_from_def some_ok_def)
  moreover have "ie_show demo_ienv p \<noteq> sdk_pending_path" for p
    by (simp add: demo_ienv_def demo_show_not_plan)
  ultimately show ?thesis by (simp add: upgrade_env_ok_def demo_ienv_ok)
qed

definition demo_header :: "u64 header" where
  "demo_header = \<lparr>hd_app_hash = [], hd_time = 0, hd_height = 1, hd_next_validators_hash = []\<rparr>"

abbreviation demo_ustore :: "(in_memory heap, infallible) provable_ops" where
  "demo_ustore \<equiv> upgrade_store id 0"

abbreviation demo_uabs :: "in_memory heap \<Rightarrow> (u64, unit any_client_state, unit any_consensus_state) upgrade_spec" where
  "demo_uabs \<equiv> upgrade_abs demo_ustore demo_ienv demo_uenv"

lemma demo_empty:
  "im_ok id (cell empty_world 0)" "st_current_height demo_ustore empty_world = 0"
  "us_plan (demo_uabs empty_world) = None"
proof -
  show "im_ok id (cell empty_world 0)" by (simp add: empty_world_def)
qed (simp_all add: empty_world_def read_access_def im_current_height_def im_default_def pv_default_def
    original_length_def current_length_def pruned_length_def upgrade_abs_def ts_get_def im_get_def im_get_state_def
    avl.look_emp)

lemma demo_same_height:
  assumes "confined id {0} f" and "heap_ok id w" and "f w = (r, w')"
  shows "st_current_height demo_ustore w' = st_current_height demo_ustore w"
proof -
  obtain t where "cell w' 0 = (cell w 0)\<lparr>im_pending := t\<rparr>"
    using confinedD [OF assms] unfolding pending_only_def by blast
  then show ?thesis by (simp add: read_access_def im_current_height_def)
qed

text \<open>Scheduling, and storing the client state, from the empty world.\<close>

lemma demo_scheduled:
  obtains w where "schedule_upgrade demo_ustore demo_ienv demo_uenv h empty_world = (Ok (), w)"
    and "im_ok id (cell w 0)" and "heap_ok id w" and "us_plan (demo_uabs w) = Some h"
    and "st_current_height demo_ustore w = 0"
proof -
  have "st_current_height demo_ustore empty_world \<le> ue_plan_height demo_uenv h" unfolding demo_empty(2) by simp
  from shared.kv.schedule_refines [OF demo_uenv_ok TrueI demo_empty(1) this]
  obtain w where w: "schedule_upgrade demo_ustore demo_ienv demo_uenv h empty_world = (Ok (), w)" "im_ok id (cell w 0)"
    "demo_uabs w = spec_schedule (ue_plan_height demo_uenv) h (demo_uabs empty_world)"
    by metis
  have "confined id {0} (schedule_upgrade demo_ustore demo_ienv demo_uenv h)"
    unfolding confined_rel_closed by (rule cells.closed_schedule) simp
  note conf = this
  have empty: "heap_ok id (empty_world :: in_memory heap)" by (simp add: heap_ok_def empty_world_def)
  have ok: "heap_ok id w" using confinedD [OF conf empty w(1)] by (simp add: pending_only_def)
  from demo_same_height [OF conf empty w(1)]
  have "st_current_height demo_ustore w = st_current_height demo_ustore empty_world"
    by simp
  then show ?thesis using that [OF w(1,2) ok] demo_empty(2) by (simp add: w(3) spec_schedule_def)
qed

theorem schedule_upgrade_refines_witness:
  "\<exists>w'. schedule_upgrade demo_ustore demo_ienv demo_uenv 5 empty_world = (Ok (), w') \<and> us_plan (demo_uabs w') = Some 5"
  using schedule_upgrade_refines [OF demo_uenv_ok demo_empty(1), of 5]
  unfolding demo_empty(2) by (auto simp: spec_schedule_def)

theorem upgrade_begin_block_exact_witness:
  "\<exists>w. us_plan (demo_uabs w) = Some 0 \<and>
     upgrade_begin_block demo_ustore demo_ienv demo_uenv demo_header w = ((Panic, w) :: (infallible, u64 list) outcome \<times> _)"
proof -
  obtain w where w: "im_ok id (cell w 0)" "us_plan (demo_uabs w) = Some 0" "st_current_height demo_ustore w = 0"
    by (rule demo_scheduled [of 0])
  have "st_current_height demo_ustore w \<noteq> - 1" unfolding w(3) by simp
  from upgrade_begin_block_exact [OF demo_uenv_ok w(1) this refl refl, of demo_header] w(2)
  show ?thesis by (auto simp: demo_uenv_simps)
qed

theorem late_plan_never_fires_witness:
  "\<exists>w w2. schedule_upgrade demo_ustore demo_ienv demo_uenv 2 empty_world = (Ok (), w) \<and>
     us_plan (demo_uabs w2) = Some 2 \<and>
     upgrade_begin_block demo_ustore demo_ienv demo_uenv demo_header w2 \<in>
       {(Ok [], w2) :: (infallible, u64 list) outcome \<times> _, (Panic, w2)}"
proof -
  obtain w where w: "schedule_upgrade demo_ustore demo_ienv demo_uenv 2 empty_world = (Ok (), w)"
    "im_ok id (cell w 0)" "us_plan (demo_uabs w) = Some 2" "st_current_height demo_ustore w = 0"
    by (rule demo_scheduled)
  obtain h w2 where w2: "im_ok id (cell w2 0)"
    "\<And>p. st_get demo_ustore Pending p w2 = st_get demo_ustore Pending p w"
    "st_current_height demo_ustore w2 = st_current_height demo_ustore w + 1"
    using shared.commit_keeps_pending [OF w(2)] by metis
  have plan: "us_plan (demo_uabs w2) = Some 2" using w(3) by (simp only: upgrade_abs_cong [OF w2(2)])
  have height: "unat (st_current_height demo_ustore w2) = 1" unfolding w2(3) w(4) by simp
  have soon: "unat (ue_plan_height demo_uenv 2) < unat (st_current_height demo_ustore empty_world) + 3"
    unfolding demo_empty(2) by (simp add: demo_uenv_simps)
  have later: "unat (st_current_height demo_ustore empty_world) < unat (st_current_height demo_ustore w2)"
    unfolding demo_empty(2) height by simp
  show ?thesis
    using late_plan_never_fires [OF demo_uenv_ok w(1) soon w2(1) later plan refl, of demo_header] w(1) plan by blast
qed

theorem upgrade_fires_eventually_witness:
  "\<exists>w w'. us_plan (demo_uabs w) = Some 3 \<and> st_current_height demo_ustore w = 0 \<and>
     upgrade_blocks demo_ustore demo_ienv demo_uenv [demo_header, demo_header, demo_header] w =
       (Ok [3] :: (infallible, u64 list) outcome, w') \<and>
     us_consensus (demo_uabs w') 3 = Some (TendermintConsensus ())"
proof -
  obtain w where w: "im_ok id (cell w 0)" "heap_ok id w" "us_plan (demo_uabs w) = Some 3"
    "st_current_height demo_ustore w = 0"
    by (rule demo_scheduled)
  obtain w1 where w1: "store_upgraded_client_state demo_ustore demo_ienv 3 (Tendermint ()) w = (Ok (), w1)"
    "im_ok id (cell w1 0)"
    "demo_uabs w1 = (demo_uabs w)\<lparr>us_client := (us_client (demo_uabs w))(3 \<mapsto> Tendermint ())\<rparr>"
    by (rule shared.kv.store_client_refines [OF demo_uenv_ok TrueI w(1)])
  have "confined id {0} (store_upgraded_client_state demo_ustore demo_ienv 3 (Tendermint ()))"
    unfolding confined_rel_closed store_upgraded_client_state_def [abs_def] by (rule cells.closed_host_set) simp
  note height = demo_same_height [OF this w(2) w1(1), unfolded w(4)]
  have plan: "us_plan (demo_uabs w1) = Some 3" by (simp add: w1(3) w(3))
  have client: "us_client (demo_uabs w1) (ue_plan_height demo_uenv 3) = Some (Tendermint ())"
    by (simp add: w1(3) demo_uenv_simps)
  have "unat (ue_plan_height demo_uenv 3) = unat (st_current_height demo_ustore w1) + length [demo_header] + 2"
    unfolding height by (simp add: demo_uenv_simps)
  moreover have "unat (st_current_height demo_ustore w1) + length [demo_header] + 1 + length [demo_header] < 2 ^ 64"
    unfolding height by simp
  ultimately obtain w' where "upgrade_blocks demo_ustore demo_ienv demo_uenv ([demo_header] @ demo_header # [demo_header]) w1 =
       (Ok [3] :: (infallible, u64 list) outcome, w')"
    "us_consensus (demo_uabs w') 3 = Some (TendermintConsensus ())"
    using upgrade_fires_eventually [OF demo_uenv_ok w1(2) plan client, of "[demo_header]" "[demo_header]" demo_header]
    unfolding demo_uenv_simps by blast
  then show ?thesis using plan height
    by (intro exI [of _ w1] exI [of _ w'] conjI) (simp_all only: append_Cons append_Nil)
qed

end
