(* ===== verification/Gov_Laws.thy ===== *)
theory Gov_Laws
  imports Gov Upgrade_Laws
begin

text \<open>
  The governance module is confined to its store and the stores of the IBC and upgrade modules,
  keeps the guarantees of the IBC host, and stores proposals that decode to themselves.
\<close>

section \<open>Confinement\<close>

lemma confined_outcome:
  assumes "\<And>x. confined sha A (f x)" and "\<And>e. confined sha A (g e)" and "confined sha A h" and "confined sha A k"
  shows "confined sha A (\<lambda>w. case r of Ok x \<Rightarrow> f x w | Err e \<Rightarrow> g e w | Panic \<Rightarrow> h w | Diverge \<Rightarrow> k w)"
  using assms by (cases r) simp_all

lemma confined_gov_host:
  assumes "i \<in> A"
  shows "confined sha A (gov_perform_host (ibc_store sha i) env c)"
proof -
  have host: "confined sha A (perform_host (ibc_store sha i) env c)"
    unfolding confined_rel_closed by (rule pending.closed_perform_host [OF assms])
  show ?thesis
    by (cases c) (use host in \<open>auto simp: gov_perform_host_def [abs_def] intro: confined_same_cells\<close>)
qed

lemma confined_gov_run:
  assumes "i \<in> A"
  shows "confined sha A (run (gov_perform_host (ibc_store sha i) env) p)"
proof -
  have "caller (gov_perform_host (ibc_store sha i) env) (\<lambda>w w'. heap_ok sha w \<longrightarrow> pending_only sha A w w')"
    by unfold_locales
      (use cells.R_refl cells.R_trans confinedD [OF confined_gov_host [OF assms]] in blast)+
  then show ?thesis unfolding confined_rel_closed by (intro rel_closedI) (rule caller.R_run)
qed

lemma confined_upgrade_run:
  "u \<in> A \<Longrightarrow> confined sha A (run (perform_upgrade (shared_ops (in_memory_ops sha) u) env uenv) p)"
  unfolding confined_rel_closed by (rule cells.closed_upgrade_run)

lemma confined_upgrade_proposal:
  assumes "u \<in> A" and "g \<in> A"
  shows "confined sha A (deliver_upgrade_proposal (shared_ops (in_memory_ops sha) u)
    (shared_ops (in_memory_ops sha) g) env uenv genv m)"
proof -
  have "confined sha A (\<lambda>w. and_then (expect (ts_set (shared_ops (in_memory_ops sha) g) (proposal_ty env genv)
      sdk_proposal_path (msg_proposal m (proposal_counter w)) w))
      (\<lambda>_ w. (Ok [event], w\<lparr>proposal_counter := proposal_counter w + 1\<rparr>)))" for event
    unfolding confined_rel_closed
    by (rule rel_closed_reader, unfold confined_rel_closed [symmetric], intro confined_intros assms) simp
  then show ?thesis
    unfolding deliver_upgrade_proposal_def [abs_def]
    by (intro confined_option confined_return confined_case_prod confined_upgrade_run assms(1)
        confined_and_then [OF confined_return])
qed

lemma gov_module_confined:
  assumes "i \<in> A" and "u \<in> A" and "g \<in> A"
  shows "module_confined sha A (gov_module (in_memory_ops sha) i u g env uenv genv)"
  unfolding module_confined_def gov_module_def module_ops.simps gov_deliver_def [abs_def]
    deliver_recover_client_def [abs_def] default_init_def [abs_def] default_begin_block_def [abs_def]
  by (intro conjI allI confined_outcome confined_if confined_intros confined_upgrade_proposal
      confined_gov_run assms)


section \<open>Guarantees of the IBC host\<close>

lemma gov_host_view:
  assumes env: "ibc_env_ok env" and w: "im_ok sha (cell w i)"
    and c: "gov_perform_host (ibc_store sha i) env c w = (r, w')"
  shows "im_ok sha (cell w' i) \<and> view_steps env (ibc_view (ibc_store sha i) env w) (ibc_view (ibc_store sha i) env w')"
proof (cases "\<exists>x. c = EmitIbcEvent x \<or> (\<exists>m. c = LogMessage m)")
  case True
  then have "cell w' = cell w" using c by (auto simp: gov_perform_host_def)
  then show ?thesis using w by (simp add: ibc_view_def [abs_def] read_access_def)
next
  case False
  then have "perform_host (ibc_store sha i) env c w = (r, w')"
    using c by (cases c) (auto simp: gov_perform_host_def)
  then show ?thesis by (rule perform_host_view [OF env w])
qed

lemma gov_run_view:
  fixes w :: "(in_memory, 'tcons, 'iev, 'y) gov_heap_scheme"
  assumes env: "ibc_env_ok env" and w: "im_ok sha (cell w i)"
    and run: "run (gov_perform_host (ibc_store sha i) env) p w = (r, w')"
  shows "im_ok sha (cell w' i) \<and> view_steps env (ibc_view (ibc_store sha i) env w) (ibc_view (ibc_store sha i) env w')"
proof -
  let ?R = "\<lambda>(w :: (in_memory, 'tcons, 'iev, 'y) gov_heap_scheme) w'. im_ok sha (cell w i) \<longrightarrow> im_ok sha (cell w' i) \<and>
    view_steps env (ibc_view (ibc_store sha i) env w) (ibc_view (ibc_store sha i) env w')"
  have "caller (gov_perform_host (ibc_store sha i) env) ?R"
  proof (unfold_locales, goal_cases)
    case (1 w)
    show ?case by simp
  next
    case (2 w w1 w2)
    then show ?case using rtranclp_trans by fastforce
  next
    case (3 c w r w')
    then show ?case using gov_host_view [OF env _ 3] by simp
  qed
  from caller.R_run [OF this run] show ?thesis using w by simp
qed


section \<open>State beside the stores\<close>

text \<open>Writing to stores leaves everything beside them alone.\<close>

definition beside_same :: "('s, 'y) heap_scheme \<Rightarrow> ('s, 'y) heap_scheme \<Rightarrow> bool" where
  "beside_same w w' \<longleftrightarrow> heap.more w' = heap.more w \<and> next_addr w' = next_addr w"

interpretation beside: writer sha UNIV beside_same for sha
  by unfold_locales (auto simp: beside_same_def write_access_def split: prod.splits)

lemma beside_counter:
  fixes w w' :: "('s, 'tcons, 'iev, 'y) gov_heap_scheme"
  assumes "beside_same w w'"
  shows "proposal_counter w' = proposal_counter w" and "ibc_events w' = ibc_events w"
  using assms unfolding beside_same_def by (cases w; cases w'; simp)+

lemma upgrade_proposal_cases:
  fixes w :: "(in_memory, 'tcons, 'iev, 'y) gov_heap_scheme"
    and genv :: "((in_memory, 'tcons, 'iev, 'y) gov_heap_scheme, 'tcs, 'tcons, 'conn, 'chan, 'ts, 'iev, 'plan, 'ev,
      'uprop, 'rmsg, 'tally, 'stamp) gov_env"
  assumes codec: "codec_ok (codec (proposal_ty env genv)) (msg_proposal m (proposal_counter w))"
    and w: "heap_ok sha w"
    and run: "deliver_upgrade_proposal (shared_ops (in_memory_ops sha) u) (shared_ops (in_memory_ops sha) g)
      env uenv genv m w = (Ok evs, w')"
  obtains event w1 where "evs = [event]" and "heap_ok sha w'" and "proposal_counter w' = proposal_counter w + 1"
    and "ts_get (shared_ops (in_memory_ops sha) g) (proposal_ty env genv) Pending sdk_proposal_path w' =
      Some (msg_proposal m (proposal_counter w))"
proof -
  let ?gops = "shared_ops (in_memory_ops sha) g
    :: ((in_memory, 'tcons, 'iev, 'y) gov_heap_scheme, infallible) provable_ops"
  obtain p where p: "ge_decode_upgrade genv (any_value (ms_content m)) = Some p"
    using run by (auto simp: deliver_upgrade_proposal_def split: option.splits)
  obtain r w1 where r: "run (perform_upgrade (shared_ops (in_memory_ops sha) u) env uenv) (ge_execute_upgrade genv p) w = (r, w1)"
    by fastforce
  have w1: "heap_ok sha w1"
    using confinedD [OF confined_upgrade_run [of u UNIV] w r] by (simp add: pending_only_def)
  have counter: "proposal_counter w1 = proposal_counter w"
    by (rule beside_counter(1)) (rule rel_closedD [OF beside.closed_upgrade_run r], simp)
  obtain bs where bs: "encode (codec (proposal_ty env genv)) (msg_proposal m (proposal_counter w)) = Some bs"
    "decode (codec (proposal_ty env genv)) bs = Some (msg_proposal m (proposal_counter w))"
    using codec by (auto simp: codec_ok_def split: option.splits)
  have inj: "inj (key_string (proposal_ty env genv))" by (simp add: proposal_ty_def)
  have ok: "im_ok sha (cell w1 g)" using w1 by (simp add: heap_ok_def)
  obtain old w2 where set: "ts_set ?gops (proposal_ty env genv) sdk_proposal_path (msg_proposal m (proposal_counter w)) w1 = (Ok old, w2)"
    and get: "\<And>j. ts_get ?gops (proposal_ty env genv) Pending j w2 =
      (if j = sdk_proposal_path then Some (msg_proposal m (proposal_counter w))
       else ts_get ?gops (proposal_ty env genv) Pending j w1)"
    using shared.kv.ts_set_get [OF ok bs TrueI inj, of sdk_proposal_path] by metis
  have w2: "heap_ok sha w2" "proposal_counter w2 = proposal_counter w"
    using confinedD [OF confined_ts_set [of g UNIV] w1 set]
      beside_counter(1) [OF rel_closedD [OF beside.closed_ts_set set]] counter
    by (simp_all add: pending_only_def)
  obtain event where event: "r = Ok event"
    using run p r by (cases r) (auto simp: deliver_upgrade_proposal_def)
  have evs: "evs = [event]" and w': "w' = w2\<lparr>proposal_counter := proposal_counter w2 + 1\<rparr>"
    using run p r event set counter by (auto simp: deliver_upgrade_proposal_def expect_def)
  show ?thesis
  proof (rule that [OF evs])
    show "heap_ok sha w'" using w2(1) by (simp add: w' heap_ok_def)
    show "proposal_counter w' = proposal_counter w + 1" by (simp add: w' w2(2))
    show "ts_get ?gops (proposal_ty env genv) Pending sdk_proposal_path w' = Some (msg_proposal m (proposal_counter w))"
      using get [of sdk_proposal_path] by (simp add: w' ts_get_def read_access_def)
  qed
qed


section \<open>Properties\<close>

text \<open>
  Proposals survive their encoding, up to the four times, which decoding drops: for every
  proposal whose deposit is printed in a way the crates parse back, decoding the \<open>Any\<close> message
  gives the proposal without times.
\<close>

theorem proposal_roundtrip:
  assumes "ge_decode_proposal genv (ge_encode_proposal genv (proposal_into_raw p)) = Ok (proposal_into_raw p)"
    and "ge_from_radix_10 genv (dec_string (unat (coin_amount (pr_total_deposit p)))) =
      Ok (coin_amount (pr_total_deposit p))"
  shows "proposal_try_from_any genv (proposal_into_any genv p) =
     Ok (p\<lparr>pr_submit_time := None, pr_deposit_end := None, pr_voting_start := None, pr_voting_end := None\<rparr>)"
proof -
  have "status_of_i32 (status_to_i32 s) = Some s" for s by (cases s) (simp_all add: status_of_i32_def)
  moreover have "(coin_try_from (ge_from_radix_10 genv) (coin_into_raw (pr_total_deposit p)) ::
      ((unit, unit) app_error, coin) outcome) = Ok (pr_total_deposit p)"
    using assms(2) by (simp add: coin_try_from_def coin_into_raw_def)
  ultimately show ?thesis
    using assms(1) by (simp add: proposal_try_from_any_def proposal_into_any_def proposal_try_from_def)
      (simp add: proposal_into_raw_def)
qed

text \<open>
  Proposals are numbered, and only the last one is kept: after two upgrade proposals have been
  delivered, the counter has grown by two, and the one proposal in the store is the second,
  with the number after the first.
\<close>

theorem second_proposal_replaces_first:
  fixes w :: "(in_memory, 'tcons, 'iev, 'y) gov_heap_scheme"
    and genv :: "((in_memory, 'tcons, 'iev, 'y) gov_heap_scheme, 'tcs, 'tcons, 'conn, 'chan, 'ts, 'iev, 'plan, 'ev,
      'uprop, 'rmsg, 'tally, 'stamp) gov_env"
  assumes codec: "codec_ok (codec (proposal_ty env genv)) (msg_proposal m (proposal_counter w))"
      "codec_ok (codec (proposal_ty env genv)) (msg_proposal m' (proposal_counter w + 1))"
    and w: "heap_ok sha w"
    and first: "deliver_upgrade_proposal (shared_ops (in_memory_ops sha) u) (shared_ops (in_memory_ops sha) g)
      env uenv genv m w = (Ok evs, w1)"
    and second: "deliver_upgrade_proposal (shared_ops (in_memory_ops sha) u) (shared_ops (in_memory_ops sha) g)
      env uenv genv m' w1 = (Ok evs', w2)"
  shows "proposal_counter w2 = proposal_counter w + 2 \<and> length evs = 1 \<and> length evs' = 1 \<and>
     ts_get (shared_ops (in_memory_ops sha) g) (proposal_ty env genv) Pending sdk_proposal_path w2 =
       Some (msg_proposal m' (proposal_counter w + 1))"
proof -
  obtain ev where w1: "evs = [ev]" "heap_ok sha w1" "proposal_counter w1 = proposal_counter w + 1"
    by (rule upgrade_proposal_cases [OF codec(1) w first])
  obtain ev' where "evs' = [ev']" "proposal_counter w2 = proposal_counter w1 + 1"
    "ts_get (shared_ops (in_memory_ops sha) g) (proposal_ty env genv) Pending sdk_proposal_path w2 =
      Some (msg_proposal m' (proposal_counter w1))"
    by (rule upgrade_proposal_cases [OF codec(2) [folded w1(3)] w1(2) second])
  with w1 show ?thesis by simp
qed


section \<open>Witnesses\<close>

text \<open>One message, which every byte sequence decodes to; proposals are encoded by their number.\<close>

definition demo_msg :: msg_submit_proposal where
  "demo_msg = \<lparr>ms_content = \<lparr>type_url = ''upgrade'', any_value = []\<rparr>,
     ms_initial_deposit = \<lparr>coin_denom = ''basecoin'', coin_amount = 5\<rparr>, ms_proposer = ''alice''\<rparr>"

definition demo_genv ::
  "((in_memory, unit, unit) gov_heap, unit, unit, unit, unit, u64, unit, u64, u64, unit, unit, unit, unit) gov_env" where
  "demo_genv = \<lparr>ge_from_radix_10 = (\<lambda>_. Ok 5),
     ge_decode_msg = (\<lambda>bs. Ok (if bs = [] then \<lparr>rm_content = None, rm_initial_deposit = [], rm_proposer = []\<rparr>
       else msg_into_raw demo_msg)),
     ge_try_from_text = id,
     ge_encode_proposal = (\<lambda>p. string_bytes (unary [unat (rpr_id p)])),
     ge_decode_proposal = (\<lambda>bs. case of_unary 0 (bytes_string bs) of
       [n] \<Rightarrow> Ok (proposal_into_raw (msg_proposal demo_msg (word_of_nat n))) | _ \<Rightarrow> Err ''bad''),
     ge_upgrade_url = ''upgrade'', ge_decode_upgrade = (\<lambda>_. Some ()),
     ge_execute_upgrade = (\<lambda>_. Done (Ok 7)), ge_recover_url = ''recover'',
     ge_decode_recover = (\<lambda>_. None), ge_recover_validate = (\<lambda>_ _. Ok ()),
     ge_recover_execute = (\<lambda>_. Done (Ok ()))\<rparr>"

definition demo_gienv :: "(unit, unit, unit, unit, u64, infallible) ibc_env" where
  "demo_gienv = demo_ienv\<lparr>ie_any := \<lparr>encode_message = any_value,
     decode_message = (\<lambda>bs. Some \<lparr>type_url = PROPOSAL_TYPE_URL, any_value = bs\<rparr>)\<rparr>\<rparr>"

definition demo_gworld :: "(in_memory, unit, unit) gov_heap" where
  "demo_gworld = \<lparr>next_addr = 7, cell = (\<lambda>_. im_default), host_consensus_states = (\<lambda>_. None),
     ibc_events = [], ibc_logs = [], proposal_counter = 0, gov_ibc_events = [], gov_ibc_logs = []\<rparr>"

lemma demo_gworld_ok: "heap_ok id demo_gworld"
  by (simp add: heap_ok_def demo_gworld_def)

lemma demo_proposal_roundtrip:
  "proposal_try_from_any demo_genv (proposal_into_any demo_genv (msg_proposal demo_msg n)) = Ok (msg_proposal demo_msg n)"
  by (simp add: demo_genv_def bytes_string_unary of_unary_unary msg_proposal_def demo_msg_def proposal_into_raw_def
      proposal_try_from_any_def proposal_into_any_def proposal_try_from_def coin_try_from_def coin_into_raw_def
      status_of_i32_def)

lemma demo_proposal_codec: "codec_ok (codec (proposal_ty demo_gienv demo_genv)) (msg_proposal demo_msg n)"
proof -
  have "proposal_into_any demo_genv (msg_proposal demo_msg n) =
      \<lparr>type_url = PROPOSAL_TYPE_URL, any_value = any_value (proposal_into_any demo_genv (msg_proposal demo_msg n))\<rparr>"
    by (simp add: proposal_into_any_def)
  then show ?thesis
    using demo_proposal_roundtrip [of n]
    by (simp add: codec_ok_def proposal_ty_def protobuf_codec_def demo_gienv_def some_ok_def)
qed

definition demo_propose ::
  "(in_memory, unit, unit) gov_heap \<Rightarrow>
   ((string, unit) app_error, u64 list) outcome \<times> (in_memory, unit, unit) gov_heap" where
  "demo_propose w = deliver_upgrade_proposal (shared_ops (in_memory_ops id) 5) (shared_ops (in_memory_ops id) 6)
     demo_gienv demo_uenv demo_genv demo_msg w"

lemma demo_deliver_proposal:
  fixes w :: "(in_memory, unit, unit) gov_heap"
  assumes w: "heap_ok id w"
  obtains w' where "demo_propose w = (Ok [7], w')"
proof -
  have ok: "im_ok id (cell w 6)" using w by (simp add: heap_ok_def)
  obtain bs where bs: "encode (codec (proposal_ty demo_gienv demo_genv)) (msg_proposal demo_msg (proposal_counter w)) = Some bs"
    "decode (codec (proposal_ty demo_gienv demo_genv)) bs = Some (msg_proposal demo_msg (proposal_counter w))"
    using demo_proposal_codec [of "proposal_counter w"] by (auto simp: codec_ok_def split: option.splits)
  have inj: "inj (key_string (proposal_ty demo_gienv demo_genv))" by (simp add: proposal_ty_def)
  obtain old w2 where "ts_set (shared_ops (in_memory_ops id) 6) (proposal_ty demo_gienv demo_genv) sdk_proposal_path
      (msg_proposal demo_msg (proposal_counter w)) w = (Ok old, w2)"
    using shared.kv.ts_set_get [OF ok bs TrueI inj, of sdk_proposal_path] by metis
  moreover have "ge_execute_upgrade demo_genv () = Done (Ok 7)" "ge_decode_upgrade demo_genv x = Some ()" for x
    by (simp_all add: demo_genv_def)
  ultimately show ?thesis using that by (simp add: demo_propose_def deliver_upgrade_proposal_def expect_def)
qed

theorem proposal_roundtrip_witness:
  "proposal_try_from_any demo_genv (proposal_into_any demo_genv (msg_proposal demo_msg 3)) = Ok (msg_proposal demo_msg 3)"
  using proposal_roundtrip [of demo_genv "msg_proposal demo_msg 3"]
  by (simp add: demo_genv_def bytes_string_unary of_unary_unary msg_proposal_def demo_msg_def proposal_into_raw_def)

theorem second_proposal_replaces_first_witness:
  "\<exists>w1 w2. demo_propose demo_gworld = (Ok [7], w1) \<and>
     demo_propose w1 = (Ok [7], w2) \<and>
     proposal_counter w2 = 2 \<and>
     ts_get (shared_ops (in_memory_ops id) 6) (proposal_ty demo_gienv demo_genv) Pending sdk_proposal_path w2 =
       Some (msg_proposal demo_msg 1)"
proof -
  obtain w1 where w1: "demo_propose demo_gworld = (Ok [7], w1)"
    by (rule demo_deliver_proposal [OF demo_gworld_ok])
  have "heap_ok id w1"
    using confinedD [OF confined_upgrade_proposal [of 5 UNIV 6] demo_gworld_ok w1 [unfolded demo_propose_def]] by (simp add: pending_only_def)
  then obtain w2 where w2: "demo_propose w1 = (Ok [7], w2)"
    by (rule demo_deliver_proposal)
  have "proposal_counter demo_gworld = 0" by (simp add: demo_gworld_def)
  then have "proposal_counter w2 = 2 \<and>
      ts_get (shared_ops (in_memory_ops id) 6) (proposal_ty demo_gienv demo_genv) Pending sdk_proposal_path w2 =
        Some (msg_proposal demo_msg 1)"
    using second_proposal_replaces_first [OF demo_proposal_codec demo_proposal_codec demo_gworld_ok w1 [unfolded demo_propose_def]
        w2 [unfolded demo_propose_def]] by simp
  with w1 w2 show ?thesis by blast
qed

end
