(* ===== verification/Full_App.thy ===== *)
theory Full_App
  imports Runner Gov_Laws
begin

text \<open>
  The whole application of \<open>basecoin/src/runner.rs\<close>: the stores and modules in the order in which
  the source creates them, all five modules registered, and the properties that need all of
  them. The staking module gets a store but is not registered.
\<close>

section \<open>Putting the application together\<close>

definition ibc_address :: "nat \<Rightarrow> nat" where
  "ibc_address a = a + 4"

definition upgrade_address :: "nat \<Rightarrow> nat" where
  "upgrade_address a = a + 5"

definition gov_address :: "nat \<Rightarrow> nat" where
  "gov_address a = a + 6"

lemma full_addresses_distinct [simp]:
  "ibc_address a \<noteq> a" "a \<noteq> ibc_address a" "upgrade_address a \<noteq> a" "a \<noteq> upgrade_address a"
  "gov_address a \<noteq> a" "a \<noteq> gov_address a"
  "ibc_address a \<noteq> auth_address a" "auth_address a \<noteq> ibc_address a"
  "ibc_address a \<noteq> bank_address a" "bank_address a \<noteq> ibc_address a"
  "upgrade_address a \<noteq> auth_address a" "auth_address a \<noteq> upgrade_address a"
  "upgrade_address a \<noteq> bank_address a" "bank_address a \<noteq> upgrade_address a"
  "gov_address a \<noteq> auth_address a" "auth_address a \<noteq> gov_address a"
  "gov_address a \<noteq> bank_address a" "bank_address a \<noteq> gov_address a"
  "ibc_address a \<noteq> upgrade_address a" "upgrade_address a \<noteq> ibc_address a"
  "ibc_address a \<noteq> gov_address a" "gov_address a \<noteq> ibc_address a"
  "upgrade_address a \<noteq> gov_address a" "gov_address a \<noteq> upgrade_address a"
  by (simp_all add: ibc_address_def upgrade_address_def gov_address_def auth_address_def bank_address_def)

lemma full_prefixes_distinct [simp]:
  "distinct [auth_prefix, bank_prefix, ibc_prefix, gov_prefix, upgrade_prefix]"
  by (simp add: auth_prefix_def bank_prefix_def ibc_prefix_def gov_prefix_def upgrade_prefix_def
      identifier_from_string_def)

definition full_rest where
  "full_rest sha benv ienv tenv menv uenv genv a =
     [\<lparr>mod_id = ibc_prefix, mod_ops = ibc_module sha (ibc_address a) (bank_address a) ienv benv tenv menv\<rparr>,
      \<lparr>mod_id = gov_prefix, mod_ops = gov_module (in_memory_ops sha) (ibc_address a) (upgrade_address a)
         (gov_address a) ienv uenv genv\<rparr>,
      \<lparr>mod_id = upgrade_prefix, mod_ops = upgrade_module (in_memory_ops sha) (upgrade_address a) ienv uenv\<rparr>]"

definition full_app where
  "full_app sha aenv benv ienv tenv menv uenv genv a =
     runner_app sha aenv benv a (full_rest sha benv ienv tenv menv uenv genv a)"

text \<open>\<open>default_app_runner\<close> up to \<open>build\<close>. The context of the IBC module writes its counters when it is
  created; \<open>None\<close> is a failed assertion of \<open>add_module\<close>.\<close>

definition default_app where
  "default_app sha aenv benv ienv tenv menv uenv genv w =
     (let ops = in_memory_ops sha;
          (b, w) = builder_new im_default w;
          (auth_store, w) = module_store im_default auth_prefix b w;
          (bank_store, w) = module_store im_default bank_prefix b w;
          (staking_store, w) = module_store im_default staking_prefix b w;
          (ibc_store, w) = module_store im_default ibc_prefix b w
      in and_then (ibc_new (shared_ops ops ibc_store) ienv w) (\<lambda>_ w.
        (let (upgrade_store, w) = module_store im_default upgrade_prefix b w;
             (gov_store, w) = module_store im_default gov_prefix b w;
             w = gov_new w;
             auth = auth_module ops auth_store aenv;
             bank = bank_module (\<lambda>w who. get_account (shared_ops ops auth_store) aenv who w) ops bank_store benv;
             ibc = ibc_module sha ibc_store bank_store ienv benv tenv menv;
             gov = gov_module ops ibc_store upgrade_store gov_store ienv uenv genv;
             upgrade = upgrade_module ops upgrade_store ienv uenv
         in (Ok (Option.bind (add_module auth_prefix auth b) (\<lambda>b.
                 Option.bind (add_module bank_prefix bank b) (\<lambda>b.
                 Option.bind (add_module ibc_prefix ibc b) (\<lambda>b.
                 Option.bind (add_module gov_prefix gov b) (\<lambda>b.
                   add_module upgrade_prefix upgrade b))))), w))))"

lemma rest_addresses [simp]:
  "md_store (ibc_module sha (ibc_address a) b ienv benv tenv menv) = ibc_address a"
  "md_store (gov_module ops i u (gov_address a) ienv uenv genv) = gov_address a"
  "md_store (upgrade_module ops (upgrade_address a) ienv uenv) = upgrade_address a"
  by (simp_all add: ibc_module_def gov_module_def upgrade_module_def)

interpretation full: confined_app sha "full_app sha aenv benv ienv tenv menv uenv genv a"
  for sha aenv benv ienv tenv menv uenv genv a
proof (unfold_locales, goal_cases)
  case (1 m)
  then show ?case
    by (auto simp: full_app_def runner_app_def full_rest_def
        intro!: runner_modules_confined ibc_module_confined gov_module_confined upgrade_module_confined)
next
  case 4
  show ?case using full_prefixes_distinct by (simp add: full_app_def runner_app_def full_rest_def)
qed (simp_all add: full_app_def runner_app_def full_rest_def)

text \<open>What the IBC host shows depends on the cell of its store only.\<close>

lemma ibc_view_cong:
  "im_pending (cell w' i) = im_pending (cell w i) \<Longrightarrow>
     ibc_view (shared_ops (in_memory_ops sha) i) env w' = ibc_view (shared_ops (in_memory_ops sha) i) env w"
  by (rule ext) (simp add: ibc_view_def read_access_def im_get_def im_get_state_def)

text \<open>
  The application that the runner builds is the one of this theory: no assertion fails, the
  main store gets the first free address and the modules the following ones, the stores of the auth,
  bank and upgrade modules are empty, the three counters of the IBC host are zero, pending, and no event
  is waiting.
\<close>

theorem default_app_builds:
  fixes ienv :: "('tcs, 'tcons, 'conn, 'chan, 'ts, infallible) ibc_env"
    and w :: "(in_memory, 'tcons, 'iev, 'y) gov_heap_scheme"
  assumes env: "ibc_env_ok ienv" and w: "heap_ok sha w"
  shows "\<exists>w'. default_app sha aenv benv ienv tenv menv uenv genv w =
       (Ok (Some (full_app sha aenv benv ienv tenv menv uenv genv (next_addr w))), w') \<and>
     heap_ok sha w' \<and>
     client_counter (ibc_store sha (ibc_address (next_addr w))) ienv w' = Ok 0 \<and>
     connection_counter (ibc_store sha (ibc_address (next_addr w))) ienv w' = Ok 0 \<and>
     channel_counter (ibc_store sha (ibc_address (next_addr w))) ienv w' = Ok 0 \<and>
     proposal_counter w' = 0 \<and> ibc_events w' = [] \<and>
     (\<forall>b \<in> {auth_address (next_addr w), bank_address (next_addr w), upgrade_address (next_addr w)}. cell w' b = im_default)"
proof -
  let ?n = "next_addr w"
  define w1 where "w1 = snd (sh_new im_default (snd (sh_new im_default (snd (sh_new im_default
    (snd (sh_new im_default (snd (sh_new im_default w)))))))))"
  define w2 where "w2 = w1\<lparr>host_consensus_states := (\<lambda>_. None), ibc_events := [], ibc_logs := []\<rparr>"
  have w2: "heap_ok sha w2" and next2: "next_addr w2 = ?n + 5"
    using w by (auto simp: w2_def w1_def sh_new_def heap_ok_def)
  have "im_ok sha (cell w2 (ibc_address ?n))" using w2 by (simp add: heap_ok_def)
  from host.context_new_ok [OF env this]
  obtain w3 where new: "ibc_context_new (ibc_store sha (ibc_address ?n)) ienv w2 = (Ok (), w3)"
    and counters: "client_counter (ibc_store sha (ibc_address ?n)) ienv w3 = Ok 0"
      "connection_counter (ibc_store sha (ibc_address ?n)) ienv w3 = Ok 0"
      "channel_counter (ibc_store sha (ibc_address ?n)) ienv w3 = Ok 0"
    by metis
  have "confined sha {ibc_address ?n} (ibc_context_new (ibc_store sha (ibc_address ?n)) ienv)"
    unfolding confined_rel_closed by (rule cells.closed_context_new) simp
  note p = confinedD [OF this w2 new]
  then have w3: "heap_ok sha w3" by (simp add: pending_only_def)
  have fresh: "\<forall>b \<in> {auth_address ?n, bank_address ?n}. cell w3 b = im_default"
    using p by (auto simp: pending_only_def w2_def w1_def sh_new_def auth_address_def bank_address_def ibc_address_def)
  have same: "beside_same w2 w3" by (rule rel_closedD [OF beside.closed_context_new new]) simp
  then have next3: "next_addr w3 = ?n + 5" and events3: "ibc_events w3 = []"
    using next2 beside_counter(2) [OF same] by (simp_all add: beside_same_def w2_def)
  define w4 where "w4 = gov_new (snd (sh_new im_default (snd (sh_new im_default w3))))"
  have cells: "cell w4 b = (if b = ?n + 5 \<or> b = ?n + 6 then im_default else cell w3 b)" for b
    by (simp add: w4_def gov_new_def sh_new_def next3)
  have "im_pending (cell w4 (ibc_address ?n)) = im_pending (cell w3 (ibc_address ?n))"
    by (simp add: cells ibc_address_def)
  note view = ibc_view_cong [OF this, of sha ienv]
  have "default_app sha aenv benv ienv tenv menv uenv genv w =
      (Ok (Some (full_app sha aenv benv ienv tenv menv uenv genv ?n)), w4)"
  proof -
    define v1 where "v1 = snd (sh_new im_default w)"
    define v2 where "v2 = snd (sh_new im_default v1)"
    define v3 where "v3 = snd (sh_new im_default v2)"
    define v4 where "v4 = snd (sh_new im_default v3)"
    define v6 where "v6 = snd (sh_new im_default w3)"
    define v7 where "v7 = snd (sh_new im_default v6)"
    have news: "sh_new im_default w = (?n, v1)" "sh_new im_default v1 = (auth_address ?n, v2)"
      "sh_new im_default v2 = (bank_address ?n, v3)" "sh_new im_default v3 = (?n + 3, v4)"
      "sh_new im_default v4 = (ibc_address ?n, w1)"
      "sh_new im_default w3 = (upgrade_address ?n, v6)" "sh_new im_default v6 = (gov_address ?n, v7)"
      by (simp_all add: v1_def v2_def v3_def v4_def w1_def v6_def v7_def sh_new_def next3
          auth_address_def bank_address_def ibc_address_def upgrade_address_def gov_address_def)
    have w4: "gov_new v7 = w4" by (simp add: w4_def v7_def v6_def)
    have empty: "module_store im_default p \<lparr>app_store = ?n, app_modules = []\<rparr> v = sh_new im_default v" for p v
      by (simp add: module_store_def)
    note ids = full_prefixes_distinct [unfolded distinct.simps, simplified]
    have adds: "Option.bind (add_module auth_prefix m1 \<lparr>app_store = ?n, app_modules = []\<rparr>) (\<lambda>b.
        Option.bind (add_module bank_prefix m2 b) (\<lambda>b.
        Option.bind (add_module ibc_prefix m3 b) (\<lambda>b.
        Option.bind (add_module gov_prefix m4 b) (\<lambda>b. add_module upgrade_prefix m5 b)))) =
      Some \<lparr>app_store = ?n, app_modules = [\<lparr>mod_id = auth_prefix, mod_ops = m1\<rparr>, \<lparr>mod_id = bank_prefix, mod_ops = m2\<rparr>,
        \<lparr>mod_id = ibc_prefix, mod_ops = m3\<rparr>, \<lparr>mod_id = gov_prefix, mod_ops = m4\<rparr>,
        \<lparr>mod_id = upgrade_prefix, mod_ops = m5\<rparr>]\<rparr>" for m1 m2 m3 m4 m5
      by (simp add: add_module_def is_unique_id_def ids)
    have ok: "and_then (Ok (), v) f = f () v" for v f by (simp add: and_then_def)
    show ?thesis
      by (simp only: default_app_def Let_def builder_new_def news prod.case empty ibc_new_def
          new [unfolded w2_def] ok w4 adds full_app_def runner_app_def full_rest_def
          runner_auth_def runner_bank_def)
  qed
  moreover have "heap_ok sha w4" using w3 by (auto simp: heap_ok_def cells)
  moreover have "proposal_counter w4 = 0" "ibc_events w4 = []"
    by (simp_all add: w4_def gov_new_def sh_new_def events3)
  moreover have "client_counter (ibc_store sha (ibc_address ?n)) ienv w4 = Ok 0"
    "connection_counter (ibc_store sha (ibc_address ?n)) ienv w4 = Ok 0"
    "channel_counter (ibc_store sha (ibc_address ?n)) ienv w4 = Ok 0"
    using counters by (simp_all only: counter_view view)
  moreover have "\<forall>b \<in> {auth_address ?n, bank_address ?n, upgrade_address ?n}. cell w4 b = im_default"
    using fresh by (simp add: cells upgrade_address_def)
  ultimately show ?thesis by (intro exI [of _ w4] conjI)
qed


section \<open>An instance\<close>

text \<open>An instance of the crates' functions: an envelope is handled by storing a packet receipt and
  emitting an event, a transfer message by emitting an event. A transaction is signed by Alice
  and has one message for each of its bytes: an envelope, a transfer, a proposal, a proposal
  without a deposit, or a message that no module handles.\<close>

definition demo_menv ::
  "((in_memory, unit, unit) gov_heap, (unit, unit, unit, unit, u64, unit) ibc_call, unit, unit, unit, unit, unit,
    unit, unit, unit, u64, unit, u64) ibc_module_env" where
  "demo_menv = \<lparr>me_envelope = (\<lambda>m. if type_url m = ''envelope'' then Some () else None),
     me_transfer = (\<lambda>m. if type_url m = ''transfer'' then Some () else None),
     me_dispatch = (\<lambda>_ _ _. Call (Inl (StorePacketReceipt ''transfer'' ''channel-0'' 7))
       (\<lambda>_. Call (Inl (EmitIbcEvent ())) (\<lambda>_. Done (Ok ())))),
     me_send_transfer = (\<lambda>_ _. Call (Inl (EmitIbcEvent ())) (\<lambda>_. Done (Ok ()))),
     me_app = \<lparr>ta_version = [], ta_no_extras = (), ta_open_init_validate = (\<lambda>_ _. Ok ()),
       ta_open_init_execute = (\<lambda>_. Done (Ok ((), []))), ta_open_try_validate = (\<lambda>_ _. Ok ()),
       ta_open_try_execute = (\<lambda>_. Done (Ok ((), []))), ta_open_ack_validate = (\<lambda>_ _ _ _. Ok ()),
       ta_open_confirm_validate = (\<lambda>_ _ _. Ok ()), ta_recv_packet_execute = (\<lambda>_. Done (Ok ((), ()))),
       ta_ack_validate = (\<lambda>_ _ _ _. Ok ()), ta_timeout_validate = (\<lambda>_ _ _. Ok ()),
       ta_timeout_execute = (\<lambda>_ _. Done (Ok ((), Ok ())))\<rparr>,
     me_transfer_port = ''transfer'', me_module_id = ''transfer'', me_query_path = ''store/ibc/key'',
     me_event = (\<lambda>_. Some 3), me_encode_proof = (\<lambda>_. Some [1]), me_consensus = (\<lambda>_ _ _. ())\<rparr>"

definition demo_message :: "8 word \<Rightarrow> any" where
  "demo_message b =
     (if b = 1 then \<lparr>type_url = ''envelope'', any_value = []\<rparr>
      else if b = 2 then \<lparr>type_url = ''transfer'', any_value = []\<rparr>
      else if b = 3 then \<lparr>type_url = MSG_TYPE_URL, any_value = [1]\<rparr>
      else if b = 4 then \<lparr>type_url = MSG_TYPE_URL, any_value = []\<rparr>
      else \<lparr>type_url = [], any_value = []\<rparr>)"

definition demo_tx :: "bytes \<Rightarrow> string tx" where
  "demo_tx request = bare_tx ''alice'' (map demo_message request)"

definition demo_tx_env :: "(string, string, unit, u64 header, u64 header, string list) app_env" where
  "demo_tx_env = \<lparr>
     ap_decode_tx = (\<lambda>request. Ok (demo_tx request)),
     ap_account_id = (\<lambda>key _. Some key), ap_from_json = (\<lambda>_. Some [''alice'']),
     ap_encode_proof = (\<lambda>_. []), ap_header = Some, ap_show_id = id, ap_show_ie = (\<lambda>_. []),
     ap_debug_error = (\<lambda>_. [])\<rparr>"

lemma demo_tx_simps:
  "ap_decode_tx demo_tx_env request = Ok (demo_tx request)"
  "first_signer demo_tx_env (demo_tx request) = Inr ''alice''"
  "tx_messages (demo_tx request) = map demo_message request"
  "tx_messages (demo_tx [b]) = [demo_message b]"
  by (simp_all add: demo_tx_env_def demo_tx_def first_signer_def)

abbreviation demo_full_app ::
  "(in_memory, (unit, unit, \<lparr>proposal_counter :: u64, gov_ibc_events :: unit list, gov_ibc_logs :: string list\<rparr>)
     ibc_heap_ext, string, unit, u64, u64 header, string list) app" where
  "demo_full_app \<equiv> full_app id auth_test_env demo_benv demo_gienv demo_tenv demo_menv demo_uenv demo_genv 0"

lemma demo_gienv_ok: "ibc_env_ok demo_gienv"
  using demo_ienv_ok by (simp add: ibc_env_ok_def demo_gienv_def)

theorem default_app_builds_witness:
  "\<exists>w'. default_app id auth_test_env demo_benv demo_gienv demo_tenv demo_menv demo_uenv demo_genv demo_gworld =
       (Ok (Some (full_app id auth_test_env demo_benv demo_gienv demo_tenv demo_menv demo_uenv demo_genv 7)), w') \<and>
     client_counter (ibc_store id (ibc_address 7)) demo_gienv w' = Ok 0"
proof -
  have "next_addr demo_gworld = 7" by (simp add: demo_gworld_def)
  with default_app_builds [OF demo_gienv_ok demo_gworld_ok, of auth_test_env demo_benv demo_tenv demo_menv
      demo_uenv demo_genv] show ?thesis by auto
qed

end
