(* ===== verification/Chain.thy ===== *)
theory Chain
  imports Full_App
begin

text \<open>
  The guarantees of the IBC host along the life of the chain.
\<close>

section \<open>The guarantees of the IBC host along the chain\<close>

definition host_kept ::
  "(bytes \<Rightarrow> bytes) \<Rightarrow> ('tcs, 'tcons, 'conn, 'chan, 'ts, infallible) ibc_env \<Rightarrow> nat \<Rightarrow>
   (in_memory, 'y) heap_scheme \<Rightarrow> (in_memory, 'y) heap_scheme \<Rightarrow> bool" where
  "host_kept sha env i w w' \<longleftrightarrow> (heap_ok sha w \<longrightarrow> heap_ok sha w' \<and>
     view_steps env (ibc_view (shared_ops (in_memory_ops sha) i) env w)
       (ibc_view (shared_ops (in_memory_ops sha) i) env w'))"

lemma kept_confined:
  assumes "confined sha A f" and "i \<notin> A"
  shows "rel_closed (host_kept sha env i) f"
proof (rule rel_closedI)
  fix w r w'
  assume f: "f w = (r, w')"
  show "host_kept sha env i w w'"
    unfolding host_kept_def
  proof
    assume "heap_ok sha w"
    from confinedD [OF assms(1) this f] have "heap_ok sha w'" "cell w' i = cell w i"
      using assms(2) by (simp_all add: pending_only_def)
    then show "heap_ok sha w' \<and> view_steps env (ibc_view (shared_ops (in_memory_ops sha) i) env w)
        (ibc_view (shared_ops (in_memory_ops sha) i) env w')"
      using ibc_view_cong [of w' i w sha env] by simp
  qed
qed

interpretation kept: writer sha "- {i}" "host_kept sha env i" for sha env i
proof (unfold_locales, goal_cases)
  case (1 w)
  show ?case by (simp add: host_kept_def)
next
  case (2 w w1 w2)
  show ?case unfolding host_kept_def
  proof
    assume "heap_ok sha w"
    with 2 have "heap_ok sha w2"
      "view_steps env (ibc_view (shared_ops (in_memory_ops sha) i) env w) (ibc_view (shared_ops (in_memory_ops sha) i) env w1)"
      "view_steps env (ibc_view (shared_ops (in_memory_ops sha) i) env w1) (ibc_view (shared_ops (in_memory_ops sha) i) env w2)"
      unfolding host_kept_def by blast+
    then show "heap_ok sha w2 \<and> view_steps env (ibc_view (shared_ops (in_memory_ops sha) i) env w)
        (ibc_view (shared_ops (in_memory_ops sha) i) env w2)"
      by (blast intro: rtranclp_trans)
  qed
next
  case (3 a p v w r w')
  have "rel_closed (host_kept sha env i) (st_set (shared_ops (in_memory_ops sha) a) p v)"
    by (rule kept_confined [OF confined_st_set [of a "{a}"]]) (use 3(1) in auto)
  then show ?case by (rule rel_closedD) (rule 3(2))
next
  case (4 a p w q w')
  have "rel_closed (host_kept sha env i) (st_delete (shared_ops (in_memory_ops sha) a) p)"
    by (rule kept_confined [OF confined_st_delete [of a "{a}"]]) (use 4(1) in auto)
  then show ?case by (rule rel_closedD) (rule 4(2))
qed

lemma rel_closed_outcome:
  assumes "\<And>x. rel_closed R (f x)" and "\<And>e. rel_closed R (g e)" and "rel_closed R h" and "rel_closed R k"
  shows "rel_closed R (\<lambda>w. case r of Ok x \<Rightarrow> f x w | Err e \<Rightarrow> g e w | Panic \<Rightarrow> h w | Diverge \<Rightarrow> k w)"
  using assms by (cases r) simp_all

lemma rel_closed_if: "rel_closed R f \<Longrightarrow> rel_closed R g \<Longrightarrow> rel_closed R (\<lambda>w. if b then f w else g w)"
  by (cases b) simp_all

lemma kept_same_cells: "(\<And>w. cell (g w) = cell w) \<Longrightarrow> rel_closed (host_kept sha env i) (\<lambda>w. (r w, g w))"
  by (intro kept_confined [of sha "{}"] confined_same_cells) simp_all

lemma kept_ibc_run:
  assumes env: "ibc_env_ok env" and "i \<noteq> b"
  shows "rel_closed (host_kept sha env i) (run (perform sha i b env benv tenv) p)"
proof (rule rel_closedI)
  fix w r w'
  assume run: "run (perform sha i b env benv tenv) p w = (r, w')"
  show "host_kept sha env i w w'"
    unfolding host_kept_def
  proof
    assume w: "heap_ok sha w"
    then have "im_ok sha (cell w i)" by (simp add: heap_ok_def)
    from run_view [OF env assms(2) this run]
    show "heap_ok sha w' \<and> view_steps env (ibc_view (shared_ops (in_memory_ops sha) i) env w)
        (ibc_view (shared_ops (in_memory_ops sha) i) env w')"
      using confinedD [OF confined_run [of i UNIV b] w run] by (simp add: pending_only_def)
  qed
qed

lemma kept_gov_run:
  assumes env: "ibc_env_ok env"
  shows "rel_closed (host_kept sha env i) (run (gov_perform_host (ibc_store sha i) env) p)"
proof (rule rel_closedI)
  fix w r w'
  assume run: "run (gov_perform_host (ibc_store sha i) env) p w = (r, w')"
  show "host_kept sha env i w w'"
    unfolding host_kept_def
  proof
    assume w: "heap_ok sha w"
    then have "im_ok sha (cell w i)" by (simp add: heap_ok_def)
    from gov_run_view [OF env this run]
    show "heap_ok sha w' \<and> view_steps env (ibc_view (shared_ops (in_memory_ops sha) i) env w)
        (ibc_view (shared_ops (in_memory_ops sha) i) env w')"
      using confinedD [OF confined_gov_run [of i UNIV] w run] by (simp add: pending_only_def)
  qed
qed

lemma kept_ibc_deliver:
  assumes "ibc_env_ok env" and "i \<noteq> b"
  shows "rel_closed (host_kept sha env i) (ibc_deliver (perform sha i b env benv tenv) menv message signer)"
  unfolding ibc_deliver_def [abs_def] process_message_def [abs_def] Let_def
  by (intro kept.closed_and_then kept.closed_option kept.closed_case_prod kept_ibc_run kept.closed_return
      kept_same_cells assms) simp

lemma kept_gov_deliver:
  assumes "ibc_env_ok env" and "u \<noteq> i" and "g \<noteq> i"
  shows "rel_closed (host_kept sha env i) (gov_deliver (ibc_store sha i) (shared_ops (in_memory_ops sha) u)
    (shared_ops (in_memory_ops sha) g) env uenv genv message signer)"
proof -
  show ?thesis
    unfolding gov_deliver_def [abs_def] deliver_recover_client_def [abs_def]
    by (intro rel_closed_outcome rel_closed_if kept_confined [OF confined_upgrade_proposal [of u "{u, g}" g]]
        kept.closed_and_then kept.closed_option kept.closed_case_prod kept_gov_run kept.closed_return assms)
      (use assms in auto)
qed


section \<open>The ABCI calls\<close>

text \<open>The calls by which the node drives the application, as long as none of them panics. The other
  methods change nothing.\<close>

inductive abci_step ::
  "(bytes \<Rightarrow> bytes) \<Rightarrow> ('id, 'pk, 'ie, 'rh, 'h, 'j) app_env \<Rightarrow> (in_memory, 'y, 'id, 'ie, 'ev, 'h, 'j) app \<Rightarrow>
   (in_memory, 'y) heap_scheme \<Rightarrow> (in_memory, 'y) heap_scheme \<Rightarrow> bool"
  for sha aenv app where
  abci_init: "init_chain (in_memory_ops sha) aenv app genesis w = (Ok h, w') \<Longrightarrow> abci_step sha aenv app w w'"
| abci_begin: "begin_block aenv app header w = (Ok events, w') \<Longrightarrow> abci_step sha aenv app w w'"
| abci_deliver: "deliver_tx (in_memory_ops sha) aenv app request w = (Ok resp, w') \<Longrightarrow> abci_step sha aenv app w w'"
| abci_commit: "commit (in_memory_ops sha) app w = (Ok h, w') \<Longrightarrow> abci_step sha aenv app w w'"

text \<open>What the host needs of an application: \<open>i\<close> is the store of the IBC module, which the modules
  write by the methods of the host only, and only when a message is delivered.\<close>

definition module_kept ::
  "(bytes \<Rightarrow> bytes) \<Rightarrow> ('tcs, 'tcons, 'conn, 'chan, 'ts, infallible) ibc_env \<Rightarrow> nat \<Rightarrow>
   ((in_memory, 'y) heap_scheme, 'id, 'ie, 'ev, 'h, 'j) module_ops \<Rightarrow> bool" where
  "module_kept sha env i m \<longleftrightarrow> (\<forall>message signer. rel_closed (host_kept sha env i) (md_deliver m message signer))"

definition module_beside ::
  "(bytes \<Rightarrow> bytes) \<Rightarrow> nat \<Rightarrow> ((in_memory, 'y) heap_scheme, 'id, 'ie, 'ev, 'h, 'j) module_ops \<Rightarrow> bool" where
  "module_beside sha i m \<longleftrightarrow> (\<forall>j. confined sha (- {i}) (md_init m j)) \<and>
     (\<forall>h. confined sha (- {i}) (md_begin_block m h))"

locale kept_app = confined_app sha app
  for sha :: "bytes \<Rightarrow> bytes" and app :: "(in_memory, 'y, 'id, 'ie, 'ev, 'h, 'j) app" +
  fixes env :: "('tcs, 'tcons, 'conn, 'chan, 'ts, infallible) ibc_env" and i :: nat
  assumes host_module: "i \<in> addr ` set (app_modules app)"
    and modules_kept: "m \<in> set (app_modules app) \<Longrightarrow> ibc_env_ok env \<Longrightarrow> module_kept sha env i (mod_ops m)"
    and modules_beside: "m \<in> set (app_modules app) \<Longrightarrow> module_beside sha i (mod_ops m)"
begin

lemma deliver_loop_kept:
  "ibc_env_ok env \<Longrightarrow> set ms \<subseteq> set (app_modules app) \<Longrightarrow>
     rel_closed (host_kept sha env i) (deliver_loop ms message signer)"
proof (induction ms)
  case Nil
  show ?case unfolding deliver_loop.simps(1) [abs_def] by (rule kept.closed_return)
next
  case (Cons m ms)
  have m: "rel_closed (host_kept sha env i) (md_deliver (mod_ops m) message signer)"
    and ms: "rel_closed (host_kept sha env i) (deliver_loop ms message signer)"
    using Cons modules_kept by (auto simp: module_kept_def)
  show ?case
  proof (rule rel_closedI)
    fix w r w'
    assume run: "deliver_loop (m # ms) message signer w = (r, w')"
    obtain r1 w1 where d: "md_deliver (mod_ops m) message signer w = (r1, w1)" by fastforce
    note first = rel_closedD [OF m d]
    from run d have "w' = w1 \<or> deliver_loop ms message signer w1 = (r, w')"
      by (auto split: outcome.splits if_splits)
    then show "host_kept sha env i w w'"
      using first kept.R_trans [OF first rel_closedD [OF ms]] by blast
  qed
qed

lemma deliver_messages_kept:
  assumes "ibc_env_ok env"
  shows "rel_closed (host_kept sha env i) (deliver_messages app messages signer events)"
proof (induction messages arbitrary: events)
  case Nil
  show ?case unfolding deliver_messages.simps(1) [abs_def] by (rule kept.closed_return)
next
  case (Cons message messages)
  show ?case unfolding deliver_messages.simps(2) [abs_def] deliver_msg_def
    by (intro kept.closed_and_then deliver_loop_kept Cons.IH subset_refl assms)
qed

lemma init_modules_beside:
  "set ms \<subseteq> set (app_modules app) \<Longrightarrow> confined sha (- {i}) (init_modules ms j)"
proof (induction ms)
  case Nil
  show ?case unfolding init_modules.simps(1) [abs_def] by (rule confined_return)
next
  case (Cons m ms)
  moreover have "module_beside sha i (mod_ops m)" using modules_beside Cons.prems by simp
  ultimately show ?case unfolding init_modules.simps(2) [abs_def]
    by (intro confined_and_then) (simp_all add: module_beside_def)
qed

lemma begin_modules_beside:
  "set ms \<subseteq> set (app_modules app) \<Longrightarrow> confined sha (- {i}) (begin_modules ms header events)"
proof (induction ms arbitrary: events)
  case Nil
  show ?case unfolding begin_modules.simps(1) [abs_def] by (rule confined_return)
next
  case (Cons m ms)
  moreover have "module_beside sha i (mod_ops m)" using modules_beside Cons.prems by simp
  ultimately show ?case unfolding begin_modules.simps(2) [abs_def]
    by (intro confined_and_then) (simp_all add: module_beside_def)
qed

text \<open>Every call keeps the guarantees and leaves the store of the host without pending changes that
  a failing transaction would undo.\<close>

abbreviation host_clean :: "(in_memory, 'y) heap_scheme \<Rightarrow> bool" where
  "host_clean w \<equiv> heap_ok sha w \<and> clean {i} w"

abbreviation host_steps :: "(in_memory, 'y) heap_scheme \<Rightarrow> (in_memory, 'y) heap_scheme \<Rightarrow> bool" where
  "host_steps w w' \<equiv> view_steps env (ibc_view (shared_ops (in_memory_ops sha) i) env w)
     (ibc_view (shared_ops (in_memory_ops sha) i) env w')"

lemma beside_step:
  assumes "confined sha (- {i}) f" and "host_clean w" and "f w = (r, w')"
  shows "host_clean w' \<and> host_steps w w'"
proof -
  from confinedD [OF assms(1) _ assms(3)] assms(2)
  have "heap_ok sha w'" "cell w' i = cell w i" by (simp_all add: pending_only_def)
  then show ?thesis using assms(2) ibc_view_cong [of w' i w sha env] by (simp add: clean_def)
qed

lemma deliver_step:
  assumes env: "ibc_env_ok env" and w: "host_clean w" and run: "deliver_tx (in_memory_ops sha) aenv app request w = (Ok resp, w')"
  shows "host_clean w' \<and> host_steps w w'"
proof -
  have i: "i \<in> all_stores" using host_module by simp
  consider (rejected) "w' = w"
    | (tx) tx signer where "ap_decode_tx aenv request = Ok tx" "first_signer aenv tx = Inr signer"
        "tx_messages tx \<noteq> []"
    using run by (auto simp: deliver_tx_def deliver_tx_error_def split: outcome.splits sum.splits if_splits)
  then show ?thesis
  proof cases
    case rejected
    then show ?thesis using w by simp
  next
    case tx
    obtain r w1 where d: "deliver_messages app (tx_messages tx) signer [] w = (r, w1)" by fastforce
    from rel_closedD [OF deliver_messages_kept [OF env] d] w
    have w1: "heap_ok sha w1" "host_steps w w1" by (auto simp: host_kept_def)
    show ?thesis
    proof (cases r)
      case (Ok events)
      from deliver_succeeded [OF _ tx d [unfolded Ok]] w run
      have w': "cell w' = applied all_stores w1" by (metis prod.inject)
      then have "heap_ok sha w'" using heap_ok_applied [OF w1(1), of all_stores] by (simp add: heap_ok_def)
      moreover have "im_pending (cell w' i) = im_pending (cell w1 i)" "clean {i} w'"
        using i by (simp_all add: w' applied_def clean_def)
      ultimately show ?thesis using w1(2) ibc_view_cong [of w' i w1 sha env] by simp
    next
      case (Err e)
      from deliver_failed [OF _ tx d [unfolded Err]] w run
      have w': "cell w' = rolled_back all_stores w" by (metis prod.inject)
      then have "heap_ok sha w'" using heap_ok_rolled_back [of sha w all_stores] w by (simp add: heap_ok_def)
      moreover have "cell w' i = cell w i" using w i by (simp add: w' rolled_back_def clean_def)
      ultimately show ?thesis using w ibc_view_cong [of w' i w sha env] by (simp add: clean_def)
    qed (use run tx d in \<open>simp_all add: deliver_tx_def\<close>)
  qed
qed

lemma commit_step:
  assumes w: "host_clean w" and run: "commit (in_memory_ops sha) app w = (Ok h, w')"
  shows "host_clean w' \<and> host_steps w w'"
proof -
  obtain m where m: "m \<in> set (app_modules app)" "addr m = i" using host_module by auto
  from commit_ok [of w] w run have "heap_ok sha w'" "cell w' (addr m) = committed (cell w (addr m))"
    using m(1) by (metis prod.inject)+
  then show ?thesis using m(2) ibc_view_cong [of w' i w sha env] by (simp add: clean_def committed_def)
qed

lemma abci_step_kept:
  assumes env: "ibc_env_ok env" and "abci_step sha aenv app w w'" and "host_clean w"
  shows "host_clean w' \<and> host_steps w w'"
  using assms(2)
proof cases
  case (abci_init genesis h)
  then obtain j where "init_modules (app_modules app) j w = (Ok (), w')" by (rule init_chain_Ok)
  then show ?thesis by (rule beside_step [OF init_modules_beside [OF subset_refl] assms(3)])
next
  case (abci_begin header events)
  then obtain h where "begin_modules (app_modules app) h [] w = (Ok events, w')" by (rule begin_block_Ok)
  then show ?thesis by (rule beside_step [OF begin_modules_beside [OF subset_refl] assms(3)])
next
  case (abci_deliver request resp)
  then show ?thesis by (rule deliver_step [OF env assms(3)])
next
  case (abci_commit h)
  then show ?thesis by (rule commit_step [OF assms(3)])
qed

lemma abci_steps_kept:
  assumes env: "ibc_env_ok env" and "(abci_step sha aenv app)\<^sup>*\<^sup>* w w'" and "host_clean w"
  shows "host_clean w' \<and> host_steps w w'"
  using assms(2,3)
proof (induction rule: rtranclp_induct)
  case (step w1 w2)
  then show ?case using abci_step_kept [OF env step.hyps(2)] by (meson rtranclp_trans)
qed simp

end


section \<open>The whole application\<close>

lemma module_confined_kept:
  assumes "module_confined sha A m" and "i \<notin> A"
  shows "module_kept sha env i m" and "module_beside sha i m"
proof -
  show "module_kept sha env i m"
    using assms by (auto simp: module_kept_def module_confined_def intro: kept_confined [of sha A])
  have "A \<subseteq> - {i}" using assms(2) by auto
  then show "module_beside sha i m"
    using assms(1) by (auto simp: module_beside_def module_confined_def intro: confined_mono)
qed

lemmas beside_modules = module_confined_kept [OF runner_modules_confined(1) [of a "{auth_address a, bank_address a}" for a]]
  module_confined_kept [OF runner_modules_confined(2) [of a "{auth_address a, bank_address a}" for a]]
  module_confined_kept [OF upgrade_module_confined [of a "{a}" for a]]

lemma ibc_module_kept:
  "ibc_env_ok env \<Longrightarrow> i \<noteq> b \<Longrightarrow> module_kept sha env i (ibc_module sha i b env benv tenv menv)"
  by (simp add: module_kept_def ibc_module_def kept_ibc_deliver)

lemma gov_module_kept:
  "ibc_env_ok env \<Longrightarrow> u \<noteq> i \<Longrightarrow> g \<noteq> i \<Longrightarrow> module_kept sha env i (gov_module (in_memory_ops sha) i u g env uenv genv)"
  by (simp add: module_kept_def gov_module_def kept_gov_deliver)

lemma ibc_gov_beside:
  "module_beside sha i (ibc_module sha i b env benv tenv menv)"
  "module_beside sha i (gov_module (in_memory_ops sha) i u g env uenv genv)"
  unfolding module_beside_def ibc_module_def gov_module_def module_ops.simps ibc_begin_block_def [abs_def]
    default_init_def [abs_def] default_begin_block_def [abs_def]
  by (intro conjI allI confined_return confined_same_cells; simp)+

interpretation full_kept: kept_app sha "full_app sha aenv benv ienv tenv menv uenv genv a" ienv "ibc_address a"
  for sha aenv benv ienv tenv menv uenv genv a
proof (unfold_locales, goal_cases)
  case 1
  show ?case by (simp add: full_app_def runner_app_def full_rest_def)
next
  case (2 m)
  then show ?case
    by (auto simp: full_app_def runner_app_def full_rest_def
        intro!: beside_modules ibc_module_kept gov_module_kept)
next
  case (3 m)
  then show ?case
    by (auto simp: full_app_def runner_app_def full_rest_def intro!: beside_modules ibc_gov_beside)
qed


text \<open>
  C4. The records of the IBC host are permanent along the life of the chain: however the node drives
  the application, with whatever transactions, and whether they succeed or are rolled back, no
  client state, connection, channel, sequence number, counter or packet receipt that is stored is
  ever removed, a counter that can be read stays readable, and a receipt only ever holds the value
  that \<open>store_packet_receipt\<close> writes; so no packet of an unordered channel is received twice. The
  store of the IBC module must start without changes that a failing transaction would undo, as it
  does after every commit; then it has none at the end either.
\<close>

theorem ibc_guarantees_on_chain:
  assumes env: "ibc_env_ok ienv" and w: "heap_ok sha w" "clean {ibc_address a} w"
    and steps: "(abci_step sha xenv (full_app sha aenv benv ienv tenv menv uenv genv a))\<^sup>*\<^sup>* w w'"
  shows "(\<forall>port chan seq. get_packet_receipt (ibc_store sha (ibc_address a)) ienv port chan seq w = Ok () \<longrightarrow>
       get_packet_receipt (ibc_store sha (ibc_address a)) ienv port chan seq w' = Ok ()) \<and>
     (\<forall>p. permanent p \<longrightarrow> ibc_view (ibc_store sha (ibc_address a)) ienv w p \<noteq> None \<longrightarrow>
       ibc_view (ibc_store sha (ibc_address a)) ienv w' p \<noteq> None) \<and>
     (\<forall>port chan seq. ibc_view (ibc_store sha (ibc_address a)) ienv w' (ReceiptPath port chan seq) \<in>
       {ibc_view (ibc_store sha (ibc_address a)) ienv w (ReceiptPath port chan seq), Some [0]}) \<and>
     (is_ok (client_counter (ibc_store sha (ibc_address a)) ienv w) \<longrightarrow>
       is_ok (client_counter (ibc_store sha (ibc_address a)) ienv w')) \<and>
     (is_ok (connection_counter (ibc_store sha (ibc_address a)) ienv w) \<longrightarrow>
       is_ok (connection_counter (ibc_store sha (ibc_address a)) ienv w')) \<and>
     (is_ok (channel_counter (ibc_store sha (ibc_address a)) ienv w) \<longrightarrow>
       is_ok (channel_counter (ibc_store sha (ibc_address a)) ienv w')) \<and>
     heap_ok sha w' \<and> clean {ibc_address a} w'"
proof -
  from full_kept.abci_steps_kept [OF env steps] w
  have steps: "view_steps ienv (ibc_view (ibc_store sha (ibc_address a)) ienv w)
      (ibc_view (ibc_store sha (ibc_address a)) ienv w')" and w': "heap_ok sha w'" "clean {ibc_address a} w'" by blast+
  note kept = view_steps_permanent [OF steps] and readable = view_steps_readable [OF steps]
  show ?thesis
    unfolding get_packet_receipt_view counter_readable
    using w' view_steps_receipt [OF steps]
    by (intro conjI allI impI) (blast | (erule kept [rotated] readable; simp))+
qed


text \<open>A receipt is stored and committed; a transaction of an unknown signer is then rolled back.\<close>

lemma unknown_signer_fails:
  assumes "im_pending (cell w (auth_address 0)) = im_pending im_default"
  shows "deliver_messages demo_full_app [message] ''alice'' [] w = (Err (Custom ''unknown signer''), w)"
proof -
  have "get_account (shared_ops (in_memory_ops id) (auth_address 0)) auth_test_env ''alice'' w = Err ()"
    using assms by (simp add: get_account_def ts_get_def read_access_def im_get_def im_get_state_def
        im_default_def avl.look_emp)
  then show ?thesis
    by (simp add: deliver_msg_def full_app_def runner_app_def runner_auth_def auth_module_def auth_deliver_def)
qed

lemma full_members:
  "\<lparr>mod_id = auth_prefix, mod_ops = runner_auth sha aenv a\<rparr> \<in>
     set (app_modules (full_app sha aenv benv ienv tenv menv uenv genv a))"
  "\<lparr>mod_id = ibc_prefix, mod_ops = ibc_module sha (ibc_address a) (bank_address a) ienv benv tenv menv\<rparr> \<in>
     set (app_modules (full_app sha aenv benv ienv tenv menv uenv genv a))"
  by (simp_all add: full_app_def runner_app_def full_rest_def)

lemma demo_full_confined: "confined_app id demo_full_app"
  by (rule full.confined_app_axioms)

lemma demo_stored:
  obtains w1 where "store_packet_receipt (ibc_store id (ibc_address 0)) demo_gienv ''transfer'' ''channel-0'' 7
      demo_gworld = (Ok (), w1)"
    and "heap_ok id w1" and "\<And>b. im_store (cell w1 b) = pv_default"
    and "im_get Pending (path_from_string (demo_show (ReceiptPath ''transfer'' ''channel-0'' 7)))
      (cell w1 (ibc_address 0)) = Some [0]"
    and "cell w1 (auth_address 0) = im_default"
    and "get_packet_receipt (ibc_store id (ibc_address 0)) demo_gienv ''transfer'' ''channel-0'' 7 w1 = Ok ()"
proof -
  let ?i = "ibc_address 0"
  let ?ops = "ibc_store id ?i :: ((in_memory, unit, unit,
      \<lparr>proposal_counter :: u64, gov_ibc_events :: unit list, gov_ibc_logs :: string list\<rparr>) ibc_heap_scheme, infallible) provable_ops"
  have "im_ok id (cell demo_gworld ?i)" using demo_gworld_ok by (simp add: heap_ok_def)
  then obtain w1 where w1: "store_packet_receipt ?ops demo_gienv ''transfer'' ''channel-0'' 7 demo_gworld = (Ok (), w1)"
    "ibc_view ?ops demo_gienv w1 =
       (ibc_view ?ops demo_gienv demo_gworld)(ReceiptPath ''transfer'' ''channel-0'' 7 := Some [0])"
    by (rule host.store_receipt_view [OF demo_gienv_ok])
  have "confined id {?i} (store_packet_receipt ?ops demo_gienv ''transfer'' ''channel-0'' 7)"
    unfolding confined_rel_closed by (rule pending.closed_compound) simp
  note p = confinedD [OF this demo_gworld_ok w1(1)]
  have "im_store (cell w1 b) = pv_default" for b
  proof -
    obtain t where "cell w1 b = (cell demo_gworld b)\<lparr>im_pending := t\<rparr>" using p by (auto simp: pending_only_def)
    then show ?thesis by (simp add: demo_gworld_def im_default_def)
  qed
  moreover have "ibc_view ?ops demo_gienv w1 (ReceiptPath ''transfer'' ''channel-0'' 7) = Some [0]"
    by (simp add: w1(2))
  then have "im_get Pending (path_from_string (demo_show (ReceiptPath ''transfer'' ''channel-0'' 7))) (cell w1 ?i) = Some [0]"
    by (simp add: ibc_view_def read_access_def demo_gienv_def demo_ienv_def)
  moreover have "heap_ok id w1" "cell w1 (auth_address 0) = im_default"
    using p by (simp_all add: pending_only_def demo_gworld_def)
  moreover have "get_packet_receipt ?ops demo_gienv ''transfer'' ''channel-0'' 7 w1 = Ok ()"
    by (simp add: get_packet_receipt_view w1(2))
  ultimately show ?thesis using that w1(1) by blast
qed

theorem ibc_guarantees_on_chain_witness:
  "\<exists>w1 w2 w3 h resp. store_packet_receipt (ibc_store id (ibc_address 0)) demo_gienv ''transfer'' ''channel-0'' 7
       demo_gworld = (Ok (), w1) \<and>
     commit (in_memory_ops id) demo_full_app w1 = (Ok h, w2) \<and>
     deliver_tx (in_memory_ops id) demo_tx_env demo_full_app [0] w2 = (Ok resp, w3) \<and> rd_code resp = 2 \<and>
     get_packet_receipt (ibc_store id (ibc_address 0)) demo_gienv ''transfer'' ''channel-0'' 7 w3 = Ok ()"
proof -
  let ?i = "ibc_address 0"
  let ?ops = "ibc_store id ?i :: ((in_memory, unit, unit,
      \<lparr>proposal_counter :: u64, gov_ibc_events :: unit list, gov_ibc_logs :: string list\<rparr>) ibc_heap_scheme, infallible) provable_ops"
  obtain w1 where w1: "store_packet_receipt ?ops demo_gienv ''transfer'' ''channel-0'' 7 demo_gworld = (Ok (), w1)"
    and ok1: "heap_ok id w1" and auth1: "cell w1 (auth_address 0) = im_default"
    and receipt: "get_packet_receipt ?ops demo_gienv ''transfer'' ''channel-0'' 7 w1 = Ok ()"
    by (rule demo_stored) blast
  obtain h w2 where w2: "commit (in_memory_ops id) demo_full_app w1 = (Ok h, w2)" "heap_ok id w2"
    "\<And>m. m \<in> set (app_modules demo_full_app) \<Longrightarrow> cell w2 (addr m) = committed (cell w1 (addr m))"
    by (rule confined_app.commit_ok [OF demo_full_confined ok1]) blast
  have "cell w2 (auth_address 0) = committed im_default" "cell w2 ?i = committed (cell w1 ?i)"
    using w2(3) [OF full_members(1)] w2(3) [OF full_members(2)] auth1 by simp_all
  then have auth2: "im_pending (cell w2 (auth_address 0)) = im_pending im_default"
    and clean2: "clean {?i} w2" and view2: "ibc_view ?ops demo_gienv w2 = ibc_view ?ops demo_gienv w1"
    by (auto simp: committed_def clean_def intro!: ibc_view_cong)
  obtain w3 resp where w3: "deliver_tx (in_memory_ops id) demo_tx_env demo_full_app [0] w2 = (Ok resp, w3)" "rd_code resp = 2"
    by (rule confined_app.deliver_failed [OF demo_full_confined w2(2) demo_tx_simps(1,2) [of "[0]"]])
      (simp_all only: demo_tx_simps(4) unknown_signer_fails [OF auth2] list.distinct not_False_eq_True)
  have "(abci_step id demo_tx_env demo_full_app)\<^sup>*\<^sup>* w2 w3"
    by (intro r_into_rtranclp abci_deliver [OF w3(1)])
  from ibc_guarantees_on_chain [OF demo_gienv_ok w2(2) clean2 this]
  have "get_packet_receipt ?ops demo_gienv ''transfer'' ''channel-0'' 7 w3 = Ok ()"
    using receipt by (simp add: get_packet_receipt_view view2)
  then show ?thesis using w1 w2(1) w3 by blast
qed

end
