(* ===== verification/Chain_Queries.thy ===== *)
theory Chain_Queries
  imports Chain
begin

text \<open>
  What a client that holds an application hash can verify. All stores commit in step, so the
  block of a height of the main store is about the blocks of the same height of the module
  stores; a query at this height is answered with a value and two proofs that together lead
  to the application hash of that height.
\<close>

section \<open>All stores commit in step\<close>

abbreviation blocks :: "(in_memory, 'y) heap_scheme \<Rightarrow> nat \<Rightarrow> nat" where
  "blocks w b \<equiv> original_length (im_store (cell w b))"

definition in_step :: "('s, 'y, 'id, 'ie, 'ev, 'h, 'j) app \<Rightarrow> (in_memory, 'z) heap_scheme \<Rightarrow> bool" where
  "in_step app w \<longleftrightarrow> (\<forall>m \<in> set (app_modules app). blocks w (addr m) = blocks w (app_store app))"

lemma committed_length: "original_length (im_store (committed s)) = Suc (original_length (im_store s))"
  by (simp add: committed_def pv_push_def original_length_def current_length_def pruned_length_def)

lemma committed_state:
  assumes "original_length (im_store s) + 1 < 2 ^ 64"
  shows "im_get_state (Stable (of_nat (original_length (im_store s) + 1))) (committed s) = Some (im_pending s)"
  using commit_new_block [OF im_commit_eq assms]
  by (simp add: im_current_height_def committed_length)

lemma committed_keeps:
  "im_get_state (Stable n) s = Some t \<Longrightarrow> im_get_state (Stable n) (committed s) = Some t"
  by (auto simp: im_get_state_def committed_def pv_get_push split: if_splits)

lemma same_blocks_state:
  "im_store s' = im_store s \<Longrightarrow> im_get_state (Stable n) s' = im_get_state (Stable n) s"
  by (simp add: im_get_state_def)

context confined_app
begin

lemma pending_only_blocks: "pending_only sha A w w' \<Longrightarrow> im_store (cell w' b) = im_store (cell w b)"
proof -
  assume "pending_only sha A w w'"
  then obtain t where "cell w' b = (cell w b)\<lparr>im_pending := t\<rparr>" by (auto simp: pending_only_def)
  then show ?thesis by simp
qed

lemma begin_modules_confined:
  "set ms \<subseteq> set (app_modules app) \<Longrightarrow>
     confined sha (addr ` set (app_modules app)) (begin_modules ms header events)"
proof (induction ms arbitrary: events)
  case Nil
  show ?case unfolding begin_modules.simps(1) [abs_def] by (rule confined_return)
next
  case (Cons m ms)
  moreover have "module_confined sha (addr ` set (app_modules app)) (mod_ops m)"
    using modules Cons.prems by simp
  ultimately show ?case unfolding begin_modules.simps(2) [abs_def]
    by (intro confined_and_then) (simp_all add: module_confined_def)
qed

text \<open>Every call but \<open>commit\<close> leaves all blocks alone.\<close>

lemma confined_blocks:
  assumes "confined sha A f" and "heap_ok sha w" and "f w = (r, w')"
  shows "heap_ok sha w' \<and> (\<forall>b. im_store (cell w' b) = im_store (cell w b))"
  using confinedD [OF assms] pending_only_blocks by (auto simp: pending_only_def)

lemma init_chain_blocks:
  assumes w: "heap_ok sha w" and run: "init_chain (in_memory_ops sha) xenv app genesis w = (Ok h, w')"
  shows "heap_ok sha w' \<and> (\<forall>b. im_store (cell w' b) = im_store (cell w b))"
proof -
  from run obtain j where "init_modules (app_modules app) j w = (Ok (), w')" by (rule init_chain_Ok)
  moreover have "confined sha (addr ` set (app_modules app)) (init_modules (app_modules app) j)"
    by (rule init_modules_confined) (use modules in blast)
  ultimately show ?thesis using confined_blocks w by blast
qed

lemma begin_block_blocks:
  assumes w: "heap_ok sha w" and run: "begin_block xenv app header w = (Ok events, w')"
  shows "heap_ok sha w' \<and> (\<forall>b. im_store (cell w' b) = im_store (cell w b))"
proof -
  from run obtain h where "begin_modules (app_modules app) h [] w = (Ok events, w')" by (rule begin_block_Ok)
  then show ?thesis using confined_blocks [OF begin_modules_confined [OF subset_refl] w] by blast
qed

lemma deliver_tx_blocks:
  assumes w: "heap_ok sha w" and run: "deliver_tx (in_memory_ops sha) xenv app request w = (Ok resp, w')"
  shows "heap_ok sha w' \<and> (\<forall>b. im_store (cell w' b) = im_store (cell w b))"
proof -
  consider (rejected) "w' = w"
    | (tx) tx signer where "ap_decode_tx xenv request = Ok tx" "first_signer xenv tx = Inr signer"
        "tx_messages tx \<noteq> []"
    using run
    by (auto simp: deliver_tx_def deliver_tx_error_def split: outcome.splits sum.splits if_splits)
  then show ?thesis
  proof cases
    case rejected
    then show ?thesis using w by simp
  next
    case tx
    obtain r w1 where d: "deliver_messages app (tx_messages tx) signer [] w = (r, w1)" by fastforce
    note p = confinedD [OF deliver_messages_confined w d]
    then have w1: "heap_ok sha w1" by (simp add: pending_only_def)
    show ?thesis
    proof (cases r)
      case (Ok events)
      from deliver_succeeded [OF w tx d [unfolded Ok]] run
      have w': "cell w' = applied all_stores w1" by (metis prod.inject)
      then have "heap_ok sha w'" using heap_ok_applied [OF w1, of all_stores] by (simp add: heap_ok_def)
      moreover have "im_store (cell w' b) = im_store (cell w b)" for b
        using pending_only_blocks [OF p, of b] by (simp add: w' applied_def)
      ultimately show ?thesis by blast
    next
      case (Err e)
      from deliver_failed [OF w tx d [unfolded Err]] run
      have w': "cell w' = rolled_back all_stores w" by (metis prod.inject)
      then have "heap_ok sha w'" using heap_ok_rolled_back [OF w, of all_stores] by (simp add: heap_ok_def)
      then show ?thesis by (simp add: w' rolled_back_def)
    qed (use run tx d in \<open>simp_all add: deliver_tx_def\<close>)
  qed
qed

lemma abci_step_blocks:
  assumes "abci_step sha xenv app w w'" and w: "heap_ok sha w"
  shows "heap_ok sha w' \<and> ((\<forall>b. im_store (cell w' b) = im_store (cell w b)) \<or>
    (\<exists>h. commit (in_memory_ops sha) app w = (Ok h, w')))"
  using assms(1)
proof cases
  case (abci_init genesis h)
  then show ?thesis using init_chain_blocks [OF w] by blast
next
  case (abci_begin header events)
  then show ?thesis using begin_block_blocks [OF w] by blast
next
  case (abci_deliver request resp)
  then show ?thesis using deliver_tx_blocks [OF w] by blast
next
  case (abci_commit h)
  moreover have "heap_ok sha w'" using commit_ok [OF w] abci_commit by (metis prod.inject)
  ultimately show ?thesis by blast
qed

lemma commit_blocks:
  assumes w: "heap_ok sha w" and c: "commit (in_memory_ops sha) app w = (Ok h, w')"
  shows "b \<in> all_stores \<Longrightarrow> blocks w' b = Suc (blocks w b)"
    and "b \<in> all_stores \<Longrightarrow> im_get_state (Stable n) (cell w b) = Some t \<Longrightarrow>
      im_get_state (Stable n) (cell w' b) = Some t"
proof -
  from commit_ok [OF w] c obtain s where mods: "\<And>m. m \<in> set (app_modules app) \<Longrightarrow> cell w' (addr m) = committed (cell w (addr m))"
    and s: "cell w' (app_store app) = committed s" "im_store s = im_store (cell w (app_store app))"
    by (metis prod.inject)
  show "b \<in> all_stores \<Longrightarrow> blocks w' b = Suc (blocks w b)"
    using mods s by (auto simp: committed_length)
  show "b \<in> all_stores \<Longrightarrow> im_get_state (Stable n) (cell w b) = Some t \<Longrightarrow>
      im_get_state (Stable n) (cell w' b) = Some t"
    using mods s(1) committed_keeps same_blocks_state [OF s(2), of n] by auto
qed

lemma abci_steps_blocks:
  assumes "(abci_step sha xenv app)\<^sup>*\<^sup>* w w'" and "heap_ok sha w"
  shows "heap_ok sha w' \<and> (in_step app w \<longrightarrow> in_step app w') \<and>
    (\<forall>b \<in> all_stores. \<forall>n t. im_get_state (Stable n) (cell w b) = Some t \<longrightarrow>
       im_get_state (Stable n) (cell w' b) = Some t)"
  using assms
proof (induction rule: rtranclp_induct)
  case (step w1 w2)
  then have IH: "heap_ok sha w1" "in_step app w \<longrightarrow> in_step app w1"
    "\<forall>b \<in> all_stores. \<forall>n t. im_get_state (Stable n) (cell w b) = Some t \<longrightarrow>
       im_get_state (Stable n) (cell w1 b) = Some t" by blast+
  from abci_step_blocks [OF step.hyps(2) IH(1)] consider
      (same) "heap_ok sha w2" "\<forall>b. im_store (cell w2 b) = im_store (cell w1 b)"
    | (commit) h where "heap_ok sha w2" "commit (in_memory_ops sha) app w1 = (Ok h, w2)" by blast
  then show ?case
  proof cases
    case same
    then have "im_get_state (Stable n) (cell w2 b) = im_get_state (Stable n) (cell w1 b)" for n b
      using same_blocks_state by blast
    moreover have "in_step app w2 \<longleftrightarrow> in_step app w1" using same(2) by (simp add: in_step_def)
    ultimately show ?thesis using IH same(1) by simp
  next
    case commit
    note c = commit_blocks [OF IH(1) commit(2)]
    have "in_step app w2" if "in_step app w1"
      using that c(1) by (simp add: in_step_def)
    then show ?thesis using IH c(2) commit(1) by blast
  qed
qed simp

end


section \<open>Proofs against the application hash\<close>

lemma tree_proof:
  assumes "avl_ok sha path_as_bytes t" and "avl_get p t = Some v"
  shows "\<exists>pr. avl_get_proof path_as_bytes p t = \<lparr>cp_proof = Some (Exist pr)\<rparr> \<and>
    proves_entry sha path_as_bytes (tree_root t) pr (p, v)"
  using avl_existence [OF assms] by (metis tree_root_def unwrap_or_simps(2))

context confined_app
begin

text \<open>What a commit leaves at its height, as seen at any later time.\<close>

lemma commit_seen_later:
  assumes w: "heap_ok sha w" and step: "in_step app w"
    and small: "blocks w (app_store app) + 1 < 2 ^ 64"
    and c: "commit (in_memory_ops sha) app w = (Ok app_hash, w1)"
    and later: "(abci_step sha xenv app)\<^sup>*\<^sup>* w1 w2" and m: "m \<in> set (app_modules app)"
    and n: "n = read_access (app_store app) im_current_height w1"
  obtains block where "im_get_state (Stable n) (cell w2 (app_store app)) = Some block"
    and "im_get_state (Stable n) (cell w2 (addr m)) = Some (im_pending (cell w (addr m)))"
    and "avl_get (path_from_identifier (mod_id m)) block = Some (tree_root (im_pending (cell w (addr m))))"
    and "avl_ok sha path_as_bytes block" and "app_hash = tree_root block" and "n \<noteq> 0"
proof -
  obtain h w' s where c': "commit (in_memory_ops sha) app w = (Ok h, w')" "heap_ok sha w'"
    "cell w' (addr m) = committed (cell w (addr m))"
    "cell w' (app_store app) = committed s" "im_ok sha s" "h = tree_root (im_pending s)"
    "im_store s = im_store (cell w (app_store app))"
    "avl_get (path_from_identifier (mod_id m)) (im_pending s) = Some (tree_root (im_pending (cell w (addr m))))"
    by (rule commit_ok [OF w]) (use m in blast)
  then have "h = app_hash" "w' = w1" using c by simp_all
  with c' have w1: "heap_ok sha w1" and mods: "cell w1 (addr m) = committed (cell w (addr m))"
    and s: "cell w1 (app_store app) = committed s" "im_ok sha s" "app_hash = tree_root (im_pending s)"
      "im_store s = im_store (cell w (app_store app))"
      "avl_get (path_from_identifier (mod_id m)) (im_pending s) = Some (tree_root (im_pending (cell w (addr m))))"
    by simp_all
  have n': "n = of_nat (original_length (im_store s) + 1)"
    by (simp add: n read_access_def s(1) im_current_height_def committed_length)
  have len: "original_length (im_store s) + 1 < 2 ^ 64" using small s(4) by simp
  have "im_get_state (Stable n) (cell w1 (app_store app)) = Some (im_pending s)"
    using committed_state [OF len] s(1) n' by simp
  moreover have "blocks w (addr m) = original_length (im_store s)"
    using step m s(4) by (simp add: in_step_def)
  with len n' have "im_get_state (Stable n) (cell w1 (addr m)) = Some (im_pending (cell w (addr m)))"
    using committed_state [of "cell w (addr m)"] mods by simp
  ultimately have "im_get_state (Stable n) (cell w2 (app_store app)) = Some (im_pending s)"
    "im_get_state (Stable n) (cell w2 (addr m)) = Some (im_pending (cell w (addr m)))"
    using abci_steps_blocks [OF later w1] m by blast+
  moreover have "n \<noteq> 0" using len n' unat_u64 [OF len] by (metis Suc_eq_plus1 nat.distinct(1) unat_0)
  moreover have "avl_ok sha path_as_bytes (im_pending s)" using s(2) by (simp add: im_ok_def)
  ultimately show ?thesis using that s(3,5) by blast
qed

end

lemma ibc_query_at:
  assumes "im_get_state h (cell w i) = Some t" and "path_to_string q = me_query_path menv"
    and "from_utf8 d = Ok s" and "to_ibc_path ienv (path_from_string s) \<noteq> None"
    and "me_encode_proof menv = (\<lambda>pr. Some (encode_proof pr))"
  shows "ibc_query (ibc_store sha i) ienv menv d (Some q) h True w =
    (case avl_get (path_from_string s) t of None \<Rightarrow> Err (Custom ''Data not found'')
     | Some v \<Rightarrow> Ok \<lparr>qr_data = v, qr_proof = Some [\<lparr>po_field_type = [],
         po_key = string_bytes (path_to_string (path_from_string s)),
         po_data = encode_proof (avl_get_proof path_as_bytes (path_from_string s) t)\<rparr>]\<rparr>)"
  using assms
  by (auto simp: ibc_query_def query_path_def Let_def ibc_module_proof_def
      read_access_def im_get_def im_get_proof_def split: option.splits)

lemma runner_queries:
  "md_query (runner_auth sha aenv a) d p h prove w = Err NotHandled"
  "from_utf8 d = Ok s \<Longrightarrow> take (length ACCOUNT_PREFIX) s \<noteq> ACCOUNT_PREFIX \<Longrightarrow>
     md_query (runner_bank sha aenv benv a) d p h prove w = Err NotHandled"
  by (simp_all add: runner_auth_def auth_module_def default_query_def runner_bank_def bank_module_def bank_query_def)

lemma ibc_query_field: "md_query (ibc_module sha i b ienv benv tenv menv) = ibc_query (ibc_store sha i) ienv menv"
  by (simp add: ibc_module_def)

lemma full_modules:
  "app_modules (full_app sha aenv benv ienv tenv menv uenv genv a) =
     \<lparr>mod_id = auth_prefix, mod_ops = runner_auth sha aenv a\<rparr> #
     \<lparr>mod_id = bank_prefix, mod_ops = runner_bank sha aenv benv a\<rparr> #
     full_rest sha benv ienv tenv menv uenv genv a"
  by (simp add: full_app_def runner_app_def)

lemma query_skip:
  "md_query (mod_ops m) (rq_data request) (Some (path_from_string (rq_path request)))
     (height_from (rq_height request)) (rq_prove request) w = Err NotHandled \<Longrightarrow>
   query_loop ops env app request (m # ms) w = query_loop ops env app request ms w"
  by simp

lemma query_failed:
  "md_query (mod_ops m) (rq_data request) (Some (path_from_string (rq_path request)))
     (height_from (rq_height request)) (rq_prove request) w = Err e \<Longrightarrow> e \<noteq> NotHandled \<Longrightarrow>
   query_loop ops env app request (m # ms) w = Ok (query_error 1 (''query error: '' @ ap_debug_error env e))"
  by simp

lemma query_answered:
  "md_query (mod_ops m) (rq_data request) (Some (path_from_string (rq_path request)))
     (height_from (rq_height request)) (rq_prove request) w = Ok result \<Longrightarrow>
   query_loop ops env app request (m # ms) w =
     query_response ops env app request (height_from (rq_height request)) (mod_id m) result w"
  by (simp add: Let_def)

text \<open>
  C2. A light client can verify the answers to queries. Take any block that the application
  commits, whatever transactions came before, and the application hash it returned. A query
  for an IBC path at the height of this block, at any later time, is answered with exactly
  the value that the path had when the block was committed, and with two proofs: of the
  value against a root, and of that root, under the identifier of the IBC module, against
  the application hash. A path that had no value is answered with an error; the proof of its
  absence is never returned. The height in the answer is the current one, not the height that
  was asked for.
\<close>

theorem committed_query_verifies:
  assumes app: "app = full_app sha aenv benv ienv tenv menv uenv genv a"
    and start: "heap_ok sha w0" "in_step app w0" and before: "(abci_step sha xenv app)\<^sup>*\<^sup>* w0 w"
    and c: "commit (in_memory_ops sha) app w = (Ok app_hash, w1)"
    and small: "blocks w (app_store app) + 1 < 2 ^ 64" and later: "(abci_step sha xenv app)\<^sup>*\<^sup>* w1 w2"
    and height: "rq_height request = ri_last_block_height (info (in_memory_ops sha) app w1)"
    and request: "rq_prove request" "path_to_string (path_from_string (rq_path request)) = me_query_path menv"
      "from_utf8 (rq_data request) = Ok s" "to_ibc_path ienv (path_from_string s) \<noteq> None"
      "take (length ACCOUNT_PREFIX) s \<noteq> ACCOUNT_PREFIX"
    and encoder: "me_encode_proof menv = (\<lambda>pr. Some (encode_proof pr))"
  shows "case im_get Pending (path_from_string s) (cell w (ibc_address a)) of
      Some v \<Rightarrow> \<exists>pr root pr'.
        query (in_memory_ops sha) xenv app request w2 = Ok \<lparr>rp_code = 0, rp_log = ''exists'',
          rp_key = rq_data request, rp_value = v,
          rp_proof_ops = Some [
            \<lparr>po_field_type = [], po_key = string_bytes (path_to_string (path_from_string s)),
              po_data = encode_proof \<lparr>cp_proof = Some (Exist pr)\<rparr>\<rparr>,
            \<lparr>po_field_type = [], po_key = string_bytes (identifier_to_string ibc_prefix),
              po_data = ap_encode_proof xenv \<lparr>cp_proof = Some (Exist pr')\<rparr>\<rparr>],
          rp_height = ri_last_block_height (info (in_memory_ops sha) app w2)\<rparr> \<and>
        proves_entry sha path_as_bytes root pr (path_from_string s, v) \<and>
        proves_entry sha path_as_bytes app_hash pr' (path_from_identifier ibc_prefix, root)
    | None \<Rightarrow> query (in_memory_ops sha) xenv app request w2 =
        Ok (query_error 1 (''query error: '' @ ap_debug_error xenv (Custom ''Data not found'')))"
proof -
  let ?p = "path_from_string s" and ?i = "ibc_address a" and ?n = "rq_height request"
  let ?m = "\<lparr>mod_id = ibc_prefix, mod_ops = ibc_module sha ?i (bank_address a) ienv benv tenv menv\<rparr>"
  let ?t = "im_pending (cell w ?i)"
  have confined: "confined_app sha app" unfolding app by (rule full.confined_app_axioms)
  from confined_app.abci_steps_blocks [OF confined before start(1)] start(2)
  have w: "heap_ok sha w" "in_step app w" by blast+
  have m: "?m \<in> set (app_modules app)" unfolding app by (rule full_members(2))
  have n: "?n = read_access (app_store app) im_current_height w1" by (simp add: height info_def)
  obtain block where block: "im_get_state (Stable ?n) (cell w2 (app_store app)) = Some block"
    "im_get_state (Stable ?n) (cell w2 ?i) = Some ?t"
    "avl_get (path_from_identifier ibc_prefix) block = Some (tree_root ?t)"
    "avl_ok sha path_as_bytes block" "app_hash = tree_root block" "?n \<noteq> 0"
    by (rule confined_app.commit_seen_later [OF confined w small c later m n]) simp
  have main: "app_store app = a" by (simp add: app full_app_def runner_app_def)
  have answer: "query (in_memory_ops sha) xenv app request w2 =
      query_loop (in_memory_ops sha) xenv app request
        (?m # tl (full_rest sha benv ienv tenv menv uenv genv a)) w2"
    unfolding query_def app full_modules full_rest_def list.sel
    by (simp only: query_skip identified_module.simps runner_queries(1) runner_queries(2) [OF request(3,5)])
  have "im_get_state (height_from ?n) (cell w2 ?i) = Some ?t"
    using block(2,6) by (simp add: height_from_def)
  note reads = ibc_query_at [OF this request(2-4) encoder]
  show ?thesis
  proof (cases "avl_get ?p ?t")
    case None
    then show ?thesis using request(1)
      by (simp add: answer query_failed ibc_query_field reads im_get_def im_get_state_def del: query_loop.simps)
  next
    case (Some v)
    have "avl_ok sha path_as_bytes ?t" using w(1) by (simp add: heap_ok_def im_ok_def)
    from tree_proof [OF this Some] obtain pr where pr: "avl_get_proof path_as_bytes ?p ?t = \<lparr>cp_proof = Some (Exist pr)\<rparr>"
      "proves_entry sha path_as_bytes (tree_root ?t) pr (?p, v)" by blast
    from tree_proof [OF block(4,3)] obtain pr' where pr': "avl_get_proof path_as_bytes (path_from_identifier ibc_prefix) block =
        \<lparr>cp_proof = Some (Exist pr')\<rparr>"
      "proves_entry sha path_as_bytes app_hash pr' (path_from_identifier ibc_prefix, tree_root ?t)"
      using block(5) by blast
    have "im_get_proof (height_from ?n) (path_from_identifier ibc_prefix) (cell w2 (app_store app)) =
        Some \<lparr>cp_proof = Some (Exist pr')\<rparr>"
      using block(1,6) pr'(1) by (simp add: im_get_proof_def height_from_def)
    then show ?thesis using Some request(1) pr pr'(2)
      by (auto simp: answer query_answered ibc_query_field reads im_get_def im_get_state_def query_response_def
          Let_def read_access_def info_def simp del: query_loop.simps)
  qed
qed


text \<open>The receipt of the theory \<open>Chain\<close>, committed, and asked for one block later.\<close>

definition demo_request :: request_query where
  "demo_request = \<lparr>rq_data = string_bytes (demo_show (ReceiptPath ''transfer'' ''channel-0'' 7)),
     rq_path = ''store/ibc/key'', rq_height = 1, rq_prove = True\<rparr>"

lemma demo_request_path:
  "from_utf8 (rq_data demo_request) = Ok (demo_show (ReceiptPath ''transfer'' ''channel-0'' 7))"
  "take (length ACCOUNT_PREFIX) (demo_show p) \<noteq> ACCOUNT_PREFIX"
proof -
  show "from_utf8 (rq_data demo_request) = Ok (demo_show (ReceiptPath ''transfer'' ''channel-0'' 7))"
    using rust_string_unary by (simp add: demo_request_def demo_show_def from_utf8_def rust_string_def)
  have "CHR ''c'' \<notin> set (unary ns)" for ns by (auto simp: unary_def)
  then have "CHR ''c'' \<notin> set (take (length ACCOUNT_PREFIX) (demo_show p))"
    unfolding demo_show_def by (meson in_set_takeD)
  moreover have "CHR ''c'' \<in> set ACCOUNT_PREFIX" by (simp add: ACCOUNT_PREFIX_def)
  ultimately show "take (length ACCOUNT_PREFIX) (demo_show p) \<noteq> ACCOUNT_PREFIX" by metis
qed

theorem committed_query_verifies_witness:
  "\<exists>w1 app_hash w2 h w3 resp root pr'.
     store_packet_receipt (ibc_store id (ibc_address 0)) demo_gienv ''transfer'' ''channel-0'' 7 demo_gworld = (Ok (), w1) \<and>
     commit (in_memory_ops id) demo_full_app w1 = (Ok app_hash, w2) \<and>
     commit (in_memory_ops id) demo_full_app w2 = (Ok h, w3) \<and>
     query (in_memory_ops id) demo_tx_env demo_full_app demo_request w3 = Ok resp \<and>
     rp_code resp = 0 \<and> rp_value resp = [0] \<and>
     proves_entry id path_as_bytes app_hash pr' (path_from_identifier ibc_prefix, root)"
proof -
  let ?s = "demo_show (ReceiptPath ''transfer'' ''channel-0'' 7)"
  obtain w1 where w1: "store_packet_receipt (ibc_store id (ibc_address 0)) demo_gienv ''transfer'' ''channel-0'' 7
      demo_gworld = (Ok (), w1)" "heap_ok id w1" "\<And>b. im_store (cell w1 b) = pv_default"
    and v: "im_get Pending (path_from_string ?s) (cell w1 (ibc_address 0)) = Some [0]"
    by (rule demo_stored) blast
  obtain app_hash w2 where c: "commit (in_memory_ops id) demo_full_app w1 = (Ok app_hash, w2)" "heap_ok id w2"
    by (rule confined_app.commit_ok [OF demo_full_confined w1(2)]) blast
  obtain h w3 where c2: "commit (in_memory_ops id) demo_full_app w2 = (Ok h, w3)"
    by (rule confined_app.commit_ok [OF demo_full_confined c(2)]) blast
  have zero: "blocks w1 b = 0" for b
    by (simp add: w1(3) pv_default_def original_length_def current_length_def pruned_length_def)
  have "blocks w2 (app_store demo_full_app) = 1"
    using confined_app.commit_blocks(1) [OF demo_full_confined w1(2) c(1)] zero by simp
  then have "rq_height demo_request = ri_last_block_height (info (in_memory_ops id) demo_full_app w2)"
    by (simp add: demo_request_def info_def read_access_def im_current_height_def)
  note height = this
  have before: "(abci_step id demo_tx_env demo_full_app)\<^sup>*\<^sup>* w1 w1"
    and later: "(abci_step id demo_tx_env demo_full_app)\<^sup>*\<^sup>* w2 w3"
    using abci_commit [OF c2] by blast+
  note query = committed_query_verifies [OF refl w1(2) _ before c(1) _ later height, of ?s "\<lambda>_. [1]"]
  have "in_step demo_full_app w1" by (simp add: in_step_def zero)
  moreover have "to_ibc_path demo_gienv (path_from_string ?s) \<noteq> None"
    by (simp add: to_ibc_path_def path_to_from_string demo_gienv_def demo_ienv_def demo_parse_show)
  moreover have "me_encode_proof demo_menv = (\<lambda>pr. Some [1])"
    "path_to_string (path_from_string (rq_path demo_request)) = me_query_path demo_menv" "rq_prove demo_request"
    by (simp_all add: demo_menv_def demo_request_def path_to_from_string)
  ultimately show ?thesis
    using query v zero demo_request_path w1(1) c(1) c2 by fastforce
qed

end
