(* ===== verification/Full_Safety.thy ===== *)
theory Full_Safety
  imports Chain_Queries
begin

text \<open>
  What a transaction can do to the whole application beside its stores: it can stop it by a
  panic, and it can leave traces in the fields that the modules keep outside the stores,
  which a failing transaction does not reset.
\<close>

section \<open>The way of a message through the modules\<close>

lemma closed_set_account: "rel_closed beside_same (set_account (auth_store sha a) aenv account)"
  unfolding set_account_def [abs_def]
  by (intro beside.closed_case_prod beside.closed_ts_set beside.closed_return) simp

text \<open>The auth module notes the message and hands it on.\<close>

lemma handed_on:
  fixes w :: "(in_memory, 'y) heap_scheme"
  assumes aenv: "auth_env_ok aenv" and w: "heap_ok sha w"
    and keyed: "accounts_keyed (auth_store sha a) aenv w"
    and known: "get_account (auth_store sha a) aenv signer w = Ok account"
  obtains w1 account' where "heap_ok sha w1" and "accounts_keyed (auth_store sha a) aenv w1"
    and "get_account (auth_store sha a) aenv signer w1 = Ok account'"
    and "pending_only sha {auth_address a} w w1" and "heap.more w1 = heap.more w"
    and "set_account (auth_store sha a) aenv (account\<lparr>acc_sequence := acc_sequence account + 1\<rparr>) w = (Ok (), w1)"
proof -
  let ?account = "account\<lparr>acc_sequence := acc_sequence account + 1\<rparr>"
  have "im_ok sha (cell w (auth_address a))" using w by (simp add: heap_ok_def)
  from shared.kv.sequence_incremented [OF aenv TrueI this keyed known]
  obtain w1 where w1: "set_account (auth_store sha a) aenv ?account w = (Ok (), w1)"
    "accounts_keyed (auth_store sha a) aenv w1"
    "\<And>i. get_account (auth_store sha a) aenv i w1 =
       (if i = signer then Ok ?account else get_account (auth_store sha a) aenv i w)"
    by metis
  have "confined sha {auth_address a} (set_account (auth_store sha a) aenv ?account)"
    by (intro confined_intros) simp
  from confinedD [OF this w w1(1)] have p: "pending_only sha {auth_address a} w w1" .
  moreover have "heap.more w1 = heap.more w"
    using rel_closedD [OF closed_set_account w1(1)] by (simp add: beside_same_def)
  moreover have "get_account (auth_store sha a) aenv signer w1 = Ok ?account" by (simp add: w1(3))
  moreover have "heap_ok sha w1" using p by (simp add: pending_only_def)
  ultimately show ?thesis using that w1(1,2) by blast
qed


text \<open>A message that neither the bank nor the IBC module takes reaches the governance module.\<close>

lemma deliver_skip:
  "md_deliver (mod_ops m) message signer w = (Err NotHandled, w') \<Longrightarrow>
     deliver_loop (m # ms) message signer w = deliver_loop ms message signer w'"
  by simp

lemma unhandled:
  "type_url message \<noteq> ''/cosmos.bank.v1beta1.MsgSend'' \<Longrightarrow>
     md_deliver (runner_bank sha aenv benv a) message signer w = (Err NotHandled, w)"
  "me_envelope menv message = None \<Longrightarrow> me_transfer menv message = None \<Longrightarrow>
     md_deliver (ibc_module sha i b env benv tenv menv) message signer w = (Err NotHandled, w)"
  "md_deliver (upgrade_module ops u env uenv) message signer w = (Err NotHandled, w)"
  by (simp_all add: runner_bank_def bank_module_def bank_deliver_def bank_decode_def
      ibc_module_def ibc_deliver_def process_message_def Let_def upgrade_module_def default_deliver_def)

lemma reaches_gov:
  assumes aenv: "auth_env_ok aenv" and w: "heap_ok sha w"
    and keyed: "accounts_keyed (auth_store sha a) aenv w"
    and known: "get_account (auth_store sha a) aenv signer w = Ok account"
    and other: "type_url message \<noteq> ''/cosmos.bank.v1beta1.MsgSend''"
      "me_envelope menv message = None" "me_transfer menv message = None"
  obtains w1 account' where "heap_ok sha w1" and "accounts_keyed (auth_store sha a) aenv w1"
    and "get_account (auth_store sha a) aenv signer w1 = Ok account'"
    and "pending_only sha {auth_address a} w w1" and "heap.more w1 = heap.more w"
    and "deliver_msg (full_app sha aenv benv ienv tenv menv uenv genv a) message signer w =
      deliver_loop (tl (full_rest sha benv ienv tenv menv uenv genv a)) message signer w1"
proof -
  obtain w1 account' where w1: "heap_ok sha w1" "accounts_keyed (auth_store sha a) aenv w1"
    "get_account (auth_store sha a) aenv signer w1 = Ok account'"
    "pending_only sha {auth_address a} w w1" "heap.more w1 = heap.more w"
    and set: "set_account (auth_store sha a) aenv (account\<lparr>acc_sequence := acc_sequence account + 1\<rparr>) w = (Ok (), w1)"
    by (rule handed_on [OF aenv w keyed known]) blast
  have "deliver_msg (full_app sha aenv benv ienv tenv menv uenv genv a) message signer w =
      deliver_loop (tl (full_rest sha benv ienv tenv menv uenv genv a)) message signer w1"
    unfolding deliver_msg_def full_modules full_rest_def list.sel
    by (simp only: deliver_skip identified_module.simps unhandled(1) [OF other(1)]
        unhandled(2) [OF other(2,3)] auth_deliver_step [OF known set] runner_auth_def
        auth_module_def module_ops.simps)
  with w1 that show ?thesis by blast
qed



section \<open>Panics\<close>

text \<open>
  C26. Any account can stop the application: a transaction with a governance message that has no
  deposit makes \<open>deliver_tx\<close> panic, after the sequence number of the signer was written. The
  conversion of the message takes the first deposit by index; the crates' decoding of the
  message only has to succeed.
\<close>

theorem missing_deposit_panics:
  fixes w :: "(in_memory, 'tcons, 'iev, 'y) gov_heap_scheme"
    and xenv :: "('id, 'pk, 'ie, 'rh, 'tm header, 'j) app_env"
  assumes aenv: "auth_env_ok aenv" and w: "heap_ok sha w"
    and keyed: "accounts_keyed (auth_store sha a) aenv w"
    and known: "get_account (auth_store sha a) aenv signer w = Ok account"
    and tx: "ap_decode_tx xenv request = Ok tx" "first_signer xenv tx = Inr signer" "tx_messages tx = message # messages"
    and gov: "type_url message = MSG_TYPE_URL" "ge_decode_msg genv (any_value message) = Ok raw"
      "rm_initial_deposit raw = []"
    and other: "me_envelope menv message = None" "me_transfer menv message = None"
  shows "fst (deliver_tx (in_memory_ops sha) xenv (full_app sha aenv benv ienv tenv menv uenv genv a) request w) = Panic"
proof -
  let ?app = "full_app sha aenv benv ienv tenv menv uenv genv a"
  have "type_url message \<noteq> ''/cosmos.bank.v1beta1.MsgSend''" using gov(1) by (simp add: MSG_TYPE_URL_def)
  then obtain w1 where reach: "deliver_msg ?app message signer w =
      deliver_loop (tl (full_rest sha benv ienv tenv menv uenv genv a)) message signer w1"
    by (rule reaches_gov [OF aenv w keyed known _ other])
  have "deliver_msg ?app message signer w = (Panic, w1)"
    using gov by (simp add: reach full_rest_def gov_module_def gov_deliver_def msg_try_from_any_def msg_try_from_def)
  then show ?thesis using tx by (simp add: deliver_tx_def)
qed


section \<open>What a failing transaction leaves\<close>

text \<open>
  C27. From a state without changes that are not yet accepted (\<open>clean\<close>), a failing transaction
  leaves every store as it was, but not the fields that the modules keep beside them: the proposal counter and the events that wait in the context of the IBC module
  stay as the messages before the failing one have left them.
\<close>

theorem failed_tx_keeps_private_state:
  fixes w :: "(in_memory, 'tcons, 'iev, 'y) gov_heap_scheme"
    and xenv :: "('id, 'pk, 'ie, 'rh, 'tm header, 'j) app_env"
  assumes app: "app = full_app sha aenv benv ienv tenv menv uenv genv a"
    and w: "heap_ok sha w" and clean: "clean (stores_of app) w"
    and tx: "ap_decode_tx xenv request = Ok tx" "first_signer xenv tx = Inr signer" "tx_messages tx \<noteq> []"
    and fails: "deliver_messages app (tx_messages tx) signer [] w = (Err e, w1)"
  shows "\<exists>resp w'. deliver_tx (in_memory_ops sha) xenv app request w = (Ok resp, w') \<and> rd_code resp = 2 \<and>
     cell w' = cell w \<and> proposal_counter w' = proposal_counter w1 \<and> ibc_events w' = ibc_events w1"
proof -
  have confined: "confined_app sha app" unfolding app by (rule full.confined_app_axioms)
  obtain w' resp where w': "deliver_tx (in_memory_ops sha) xenv app request w = (Ok resp, w')" "rd_code resp = 2"
    "cell w' = rolled_back (stores_of app) w"
    by (rule confined_app.deliver_failed [OF confined w tx fails])
  from confined_app.deliver_failed_beside [OF confined tx fails w'(1)]
  have "proposal_counter w' = proposal_counter w1" "ibc_events w' = ibc_events w1"
    by (cases w'; cases w1; simp)+
  then show ?thesis using w' rolled_back_clean [OF clean] by metis
qed



section \<open>Events of transfers\<close>

text \<open>
  The events of a transfer are reported late: the transfer itself is answered with no events,
  what it emitted waits in the context of the IBC module and comes out, before the events of
  its own, with the answer to the next envelope.
\<close>

theorem transfer_events_late:
  fixes w :: "(in_memory, 'tcons, 'iev, 'y) ibc_heap_scheme"
  assumes f: "f = perform sha i b ienv benv tenv"
    and transfer: "me_envelope menv m1 = None" "me_transfer menv m1 = Some transfer_msg"
      "run f (me_send_transfer menv (transfer_callbacks (tm_app (rt_transfer (ibc_router_of menv)))) transfer_msg) w =
         (Ok (), w1)"
    and envelope: "me_envelope menv m2 = Some msg"
      "run f (me_dispatch menv (lookup_module (ibc_router_of menv))
         (get_route (me_module_id menv) (ibc_router_of menv)) msg) w1 = (Ok (), w2)"
    and events: "those (map (me_event menv) (ibc_events w2)) = Some events"
  shows "(ibc_deliver f menv m1 signer w :: (('id, 'ie) app_error, 'ev list) outcome \<times> _) = (Ok [], w1) \<and>
     (ibc_deliver f menv m2 signer' w1 :: (('id, 'ie) app_error, 'ev list) outcome \<times> _) =
       (Ok events, w2\<lparr>ibc_events := []\<rparr>) \<and>
     (\<exists>waiting new. ibc_events w1 = ibc_events w @ waiting \<and> ibc_events w2 = ibc_events w @ waiting @ new)"
proof -
  from rel_closedD [OF outputs.closed_run transfer(3) [unfolded f]]
  obtain waiting where waiting: "ibc_events w1 = ibc_events w @ waiting" by (auto simp: outputs_only_added_def)
  from rel_closedD [OF outputs.closed_run envelope(2) [unfolded f]]
  obtain new where "ibc_events w2 = ibc_events w1 @ new" by (auto simp: outputs_only_added_def)
  with waiting have "\<exists>waiting new. ibc_events w1 = ibc_events w @ waiting \<and> ibc_events w2 = ibc_events w @ waiting @ new"
    by auto
  moreover have "ibc_deliver f menv m1 signer w = (Ok [], w1)"
    using transfer by (simp add: ibc_deliver_def process_message_def Let_def ibc_router_of_def
        ibc_router_new_def transfer_module_new_def)
  moreover have "ibc_deliver f menv m2 signer' w1 = (Ok events, w2\<lparr>ibc_events := []\<rparr>)"
    using envelope events by (simp add: ibc_deliver_def process_message_def Let_def)
  ultimately show ?thesis by blast
qed


section \<open>Witnesses\<close>

text \<open>Alice has an account in an application that is otherwise new.\<close>

lemma demo_account:
  obtains w where "set_account (auth_store id 0) auth_test_env (auth_account_new ''alice'') demo_gworld = (Ok (), w)"
    and "heap_ok id w" and "accounts_keyed (auth_store id 0) auth_test_env w"
    and "get_account (auth_store id 0) auth_test_env ''alice'' w = Ok (auth_account_new ''alice'')"
    and "heap.more w = heap.more demo_gworld"
proof -
  have "im_ok id (cell demo_gworld (auth_address 0))" using demo_gworld_ok by (simp add: heap_ok_def)
  from shared.kv.set_account_ok [OF auth_test_env_ok TrueI this, of "auth_account_new ''alice''"]
  obtain w where w: "set_account (auth_store id 0) auth_test_env (auth_account_new ''alice'') demo_gworld = (Ok (), w)"
    "\<And>j. get_account (auth_store id 0) auth_test_env j w =
       (if j = acc_address (auth_account_new ''alice'') then Ok (auth_account_new ''alice'')
        else get_account (auth_store id 0) auth_test_env j demo_gworld)"
    by metis
  have alice: "acc_address (auth_account_new ''alice'') = ''alice''" by (simp add: auth_account_new_def)
  have none: "get_account (auth_store id 0) auth_test_env j demo_gworld = Err ()" for j
    by (simp add: get_account_def ts_get_def read_access_def im_get_def im_get_state_def demo_gworld_def
        im_default_def avl.look_emp)
  have "confined id UNIV (set_account (auth_store id 0) auth_test_env (auth_account_new ''alice''))"
    by (intro confined_intros) simp
  from confinedD [OF this demo_gworld_ok w(1)] have "heap_ok id w" by (simp add: pending_only_def)
  moreover have "accounts_keyed (auth_store id 0) auth_test_env w"
    using none alice by (auto simp: accounts_keyed_def w(2) split: if_splits)
  moreover have "heap.more w = heap.more demo_gworld"
    using rel_closedD [OF closed_set_account w(1)] by (simp add: beside_same_def)
  ultimately show ?thesis using that w(1) w(2) [of "''alice''"] alice by simp
qed

theorem missing_deposit_panics_witness:
  "\<exists>w. set_account (auth_store id 0) auth_test_env (auth_account_new ''alice'') demo_gworld = (Ok (), w) \<and>
     fst (deliver_tx (in_memory_ops id) demo_tx_env demo_full_app [4] w) = Panic"
proof -
  obtain w where w: "set_account (auth_store id 0) auth_test_env (auth_account_new ''alice'') demo_gworld = (Ok (), w)"
    "heap_ok id w" "accounts_keyed (auth_store id 0) auth_test_env w"
    "get_account (auth_store id 0) auth_test_env ''alice'' w = Ok (auth_account_new ''alice'')"
    by (rule demo_account) blast
  have "tx_messages (demo_tx [4]) = [\<lparr>type_url = MSG_TYPE_URL, any_value = []\<rparr>]"
    by (simp add: demo_tx_simps demo_message_def)
  from missing_deposit_panics [OF auth_test_env_ok w(2-4) demo_tx_simps(1,2) [of "[4]"] this, of demo_genv
      "\<lparr>rm_content = None, rm_initial_deposit = [], rm_proposer = []\<rparr>" demo_menv]
  show ?thesis using w(1) by (auto simp: demo_genv_def demo_menv_def MSG_TYPE_URL_def)
qed

theorem transfer_events_late_witness:
  "\<exists>w1 w2. (ibc_deliver (perform id 4 2 demo_gienv demo_benv demo_tenv) demo_menv (demo_message 2) ''alice'' demo_gworld
       :: ((string, unit) app_error, u64 list) outcome \<times> _) = (Ok [], w1) \<and>
     (ibc_deliver (perform id 4 2 demo_gienv demo_benv demo_tenv) demo_menv (demo_message 1) ''alice'' w1
       :: ((string, unit) app_error, u64 list) outcome \<times> _) = (Ok [3, 3], w2)"
proof -
  let ?f = "perform id 4 2 demo_gienv demo_benv demo_tenv"
  define w1 where "w1 = demo_gworld\<lparr>ibc_events := [()]\<rparr>"
  have w1_ok: "im_ok id (cell w1 4)" using demo_gworld_ok by (simp add: w1_def heap_ok_def)
  then obtain v where v: "store_packet_receipt (ibc_store id 4) demo_gienv ''transfer'' ''channel-0'' 7 w1 = (Ok (), v)"
    by (rule host.store_receipt_view [OF demo_gienv_ok])
  have "rel_closed beside_same (store_packet_receipt (ibc_store id 4) demo_gienv ''transfer'' ''channel-0'' 7)"
    unfolding store_packet_receipt_def [abs_def]
    by (intro beside.closed_case_prod beside.closed_and_then beside.closed_ts_set_path beside.closed_return beside.closed_expect) simp_all
  from rel_closedD [OF this v] have "ibc_events v = [()]"
    using beside_counter(2) by (force simp: w1_def)
  then have events: "those (map (me_event demo_menv) (ibc_events (v\<lparr>ibc_events := ibc_events v @ [()]\<rparr>))) = Some [3, 3]"
    by (simp add: demo_menv_def)
  show ?thesis
    using transfer_events_late [OF refl, of demo_menv "demo_message 2" "()" id 4 2 demo_gienv demo_benv demo_tenv
        demo_gworld w1 "demo_message 1" "()" "v\<lparr>ibc_events := ibc_events v @ [()]\<rparr>" "[3, 3]" "''alice''" "''alice''"] v events
    by (auto simp: demo_menv_def demo_message_def perform_def emit_ibc_event_def demo_gworld_def w1_def)
qed

text \<open>A proposal is executed, the next message of the transaction fails: nothing is stored, but the
  counter says one.\<close>

lemma demo_gov_deliver:
  fixes w :: "(in_memory, unit, unit) gov_heap"
  assumes "demo_propose w = (Ok [7], w')"
  shows "(md_deliver (gov_module (in_memory_ops id) (ibc_address 0) (upgrade_address 0) (gov_address 0)
      demo_gienv demo_uenv demo_genv) (demo_message 3) ''alice'' w
      :: ((string, unit) app_error, u64 list) outcome \<times> (in_memory, unit, unit) gov_heap) = (Ok [7], w')"
proof -
  have "msg_try_from_any demo_genv (demo_message 3) = (Ok demo_msg :: ((string, unit) app_error, _) outcome)"
    by (simp add: msg_try_from_any_def demo_message_def demo_genv_def msg_into_raw_def msg_try_from_def demo_msg_def
        coin_into_raw_def coin_try_from_def)
  moreover have "type_url (ms_content demo_msg) = ge_upgrade_url demo_genv"
    by (simp add: demo_msg_def demo_genv_def)
  ultimately show ?thesis
    using assms by (simp add: gov_module_def gov_deliver_def demo_propose_def upgrade_address_def gov_address_def)
qed

lemma demo_unknown:
  "deliver_loop (tl (full_rest id demo_benv demo_gienv demo_tenv demo_menv demo_uenv demo_genv 0))
     (demo_message 0) ''alice'' w = (Err NotHandled, w)"
  by (simp add: full_rest_def gov_module_def gov_deliver_def msg_try_from_any_def demo_message_def MSG_TYPE_URL_def
      upgrade_module_def default_deliver_def)

lemma demo_reaches_gov:
  assumes "heap_ok id w" and "accounts_keyed (auth_store id 0) auth_test_env w"
    and "get_account (auth_store id 0) auth_test_env ''alice'' w = Ok account" and b: "b = 3 \<or> b = 0"
  obtains w1 account' where "heap_ok id w1" and "accounts_keyed (auth_store id 0) auth_test_env w1"
    and "get_account (auth_store id 0) auth_test_env ''alice'' w1 = Ok account'" and "heap.more w1 = heap.more w"
    and "deliver_msg demo_full_app (demo_message b) ''alice'' w = deliver_loop
      (tl (full_rest id demo_benv demo_gienv demo_tenv demo_menv demo_uenv demo_genv 0)) (demo_message b) ''alice'' w1"
proof -
  have "type_url (demo_message b) \<noteq> ''/cosmos.bank.v1beta1.MsgSend''"
    "me_envelope demo_menv (demo_message b) = None" "me_transfer demo_menv (demo_message b) = None"
    using b by (auto simp: demo_message_def demo_menv_def MSG_TYPE_URL_def)
  from reaches_gov [OF auth_test_env_ok assms(1-3) this, where benv = demo_benv and ienv = demo_gienv
      and tenv = demo_tenv and uenv = demo_uenv and genv = demo_genv]
  show ?thesis using that by metis
qed

theorem failed_tx_keeps_private_state_witness:
  "\<exists>w resp w'. heap_ok id w \<and> proposal_counter w = 0 \<and>
     deliver_tx (in_memory_ops id) demo_tx_env demo_full_app [3, 0] w = (Ok resp, w') \<and> rd_code resp = 2 \<and>
     cell w' = cell w \<and> proposal_counter w' = 1"
proof -
  obtain w0 where w0: "heap_ok id w0" "accounts_keyed (auth_store id 0) auth_test_env w0"
    "get_account (auth_store id 0) auth_test_env ''alice'' w0 = Ok (auth_account_new ''alice'')"
    "heap.more w0 = heap.more demo_gworld"
    by (rule demo_account) blast
  define w where "w = w0\<lparr>cell := applied UNIV w0\<rparr>"
  have pending: "im_pending (cell w b) = im_pending (cell w0 b)" for b by (simp add: w_def applied_def)
  have ok: "heap_ok id w" unfolding w_def by (rule heap_ok_applied [OF w0(1)])
  have clean: "clean A w" for A by (simp add: clean_def w_def applied_def)
  have keyed: "accounts_keyed (auth_store id 0) auth_test_env w"
    using w0(2) by (simp add: accounts_keyed_def get_account_cong [OF pending])
  have known: "get_account (auth_store id 0) auth_test_env ''alice'' w = Ok (auth_account_new ''alice'')"
    using w0(3) by (simp add: get_account_cong [OF pending])
  have more: "heap.more w = heap.more demo_gworld" using w0(4) by (simp add: w_def)
  obtain w1 account1 where w1: "heap_ok id w1" "accounts_keyed (auth_store id 0) auth_test_env w1"
    "get_account (auth_store id 0) auth_test_env ''alice'' w1 = Ok account1" "heap.more w1 = heap.more w"
    and first: "deliver_msg demo_full_app (demo_message 3) ''alice'' w = deliver_loop
      (tl (full_rest id demo_benv demo_gienv demo_tenv demo_menv demo_uenv demo_genv 0)) (demo_message 3) ''alice'' w1"
    by (rule demo_reaches_gov [OF ok keyed known]) blast+
  obtain w2 where w2: "demo_propose w1 = (Ok [7], w2)" by (rule demo_deliver_proposal [OF w1(1)])
  note run = w2 [unfolded demo_propose_def]
  have "pending_only id {upgrade_address 0, gov_address 0} w1 w2"
    by (rule confinedD [OF confined_upgrade_proposal w1(1) run]) (simp_all add: upgrade_address_def gov_address_def)
  then have ok2: "heap_ok id w2" and auth2: "cell w2 (auth_address 0) = cell w1 (auth_address 0)"
    by (simp_all add: pending_only_def)
  note same2 = get_account_cong [of w2 "auth_address 0" w1, OF arg_cong [OF auth2]]
  obtain w3 where more3: "heap.more w3 = heap.more w2"
    and second: "deliver_msg demo_full_app (demo_message 0) ''alice'' w2 = (Err NotHandled, w3)"
    using demo_reaches_gov [OF ok2, of account1 0] w1(2,3) unfolding accounts_keyed_def same2 demo_unknown by metis
  have "deliver_msg demo_full_app (demo_message 3) ''alice'' w = (Ok [7], w2)"
    by (simp add: first full_rest_def demo_gov_deliver [OF w2])
  with second have fails: "deliver_messages demo_full_app (tx_messages (demo_tx [3, 0])) ''alice'' [] w = (Err NotHandled, w3)"
    by (simp add: demo_tx_simps)
  have "proposal_counter w2 = proposal_counter w1 + 1"
    by (rule upgrade_proposal_cases [OF demo_proposal_codec w1(1) run]) simp
  moreover have "proposal_counter w1 = proposal_counter w" "proposal_counter w = 0" "proposal_counter w3 = proposal_counter w2"
    using w1(4) more more3 by (cases w1; cases w; cases w2; cases w3; simp add: demo_gworld_def)+
  ultimately show ?thesis
    using failed_tx_keeps_private_state [OF refl ok clean demo_tx_simps(1,2) _ fails] ok
    by (fastforce simp: demo_tx_simps)
qed

end
