(* ===== verification/Abci.thy ===== *)
theory Abci
  imports Full_Safety
begin

text \<open>
  The service that CometBFT talks to: \<open>abci/v0_37/tower_abci.rs\<close> and the methods of
  \<open>abci/v0_37/impls.rs\<close> that answer with constants. A request is handed to the method of its
  kind and the response converted from the protobuf type to the type of the \<open>tendermint\<close> crate;
  the conversion is the parameter \<open>se_convert\<close>, and a failed one is unwrapped. \<open>tower_abci\<close> passes
  the requests of all four connections to the service one after the other.
\<close>

section \<open>Requests and responses\<close>

text \<open>The fields that no method reads are left out, and those of a response that keep their
  default, except where a default is the answer.\<close>

datatype ('rh, 'cp) abci_request =
    EchoRequest string
  | FlushRequest
  | InfoRequest
  | InitChainRequest 'cp bytes
  | QueryRequest request_query
  | BeginBlockRequest "'rh option"
  | CheckTxRequest bytes
  | DeliverTxRequest bytes
  | EndBlockRequest
  | CommitRequest
  | ListSnapshotsRequest
  | OfferSnapshotRequest
  | LoadSnapshotChunkRequest
  | ApplySnapshotChunkRequest
  | PrepareProposalRequest "bytes list" int
  | ProcessProposalRequest "bytes list"

record abci_snapshot =
  sn_height :: u64
  sn_format :: "32 word"
  sn_chunks :: "32 word"
  sn_hash :: bytes
  sn_metadata :: bytes

record response_check_tx =
  ck_code :: "32 word"
  ck_log :: string

datatype ('ev, 'cp) abci_response =
    EchoResponse string
  | InfoResponse response_info
  | InitChainResponse 'cp bytes
  | QueryResponse response_query
  | BeginBlockResponse "'ev list"
  | CheckTxResponse response_check_tx
  | DeliverTxResponse "'ev response_deliver_tx"
  | EndBlockResponse "'ev list"
  | CommitResponse bytes u64
  | ListSnapshotsResponse "abci_snapshot list"
  | OfferSnapshotResponse "32 word"
  | LoadSnapshotChunkResponse bytes
  | ApplySnapshotChunkResponse "32 word"
  | PrepareProposalResponse "bytes list"
  | ProcessProposalResponse proposal_status

text \<open>The methods whose answer is \<open>Default::default()\<close>.\<close>

definition check_tx :: "bytes \<Rightarrow> response_check_tx" where
  "check_tx request = \<lparr>ck_code = 0, ck_log = []\<rparr>"

definition end_block :: "'ev list" where
  "end_block = []"

definition list_snapshots :: "abci_snapshot list" where
  "list_snapshots = []"

definition offer_snapshot :: "32 word" where
  "offer_snapshot = 0"

definition load_snapshot_chunk :: bytes where
  "load_snapshot_chunk = []"

definition apply_snapshot_chunk :: "32 word" where
  "apply_snapshot_chunk = 0"


section \<open>The service\<close>

text \<open>\<open>se_flush\<close> is the response to a flush, which is not converted.\<close>

record ('ev, 'cp, 'r) service_env =
  se_convert :: "('ev, 'cp) abci_response \<Rightarrow> 'r option"
  se_flush :: 'r

definition convert_response ::
  "('ev, 'cp, 'r) service_env \<Rightarrow> (infallible, ('ev, 'cp) abci_response) outcome \<times> 'w \<Rightarrow>
   (infallible, 'r) outcome \<times> 'w" where
  "convert_response senv m = and_then m (\<lambda>resp w. case se_convert senv resp of
     None \<Rightarrow> (Panic, w)
   | Some r \<Rightarrow> (Ok r, w))"

definition call ::
  "('s, 'e, 'z) provable_ops_scheme \<Rightarrow> ('id, 'pk, 'ie, 'rh, 'h, 'j) app_env \<Rightarrow> ('ev, 'cp, 'r) service_env \<Rightarrow>
   ('s, 'y, 'id, 'ie, 'ev, 'h, 'j) app \<Rightarrow> ('rh, 'cp) abci_request \<Rightarrow> ('s, 'y) heap_scheme \<Rightarrow>
   (infallible, 'r) outcome \<times> ('s, 'y) heap_scheme" where
  "call ops env senv app req w = (case req of
     EchoRequest message \<Rightarrow> convert_response senv (Ok (EchoResponse (echo message)), w)
   | FlushRequest \<Rightarrow> (Ok (se_flush senv), w)
   | InfoRequest \<Rightarrow> convert_response senv (Ok (InfoResponse (info ops app w)), w)
   | InitChainRequest params app_state_bytes \<Rightarrow> convert_response senv
       (and_then (init_chain ops env app app_state_bytes w) (\<lambda>app_hash w. (Ok (InitChainResponse params app_hash), w)))
   | QueryRequest request \<Rightarrow> convert_response senv
       (and_then (query ops env app request w, w) (\<lambda>resp w. (Ok (QueryResponse resp), w)))
   | BeginBlockRequest header \<Rightarrow> convert_response senv
       (and_then (begin_block env app header w) (\<lambda>events w. (Ok (BeginBlockResponse events), w)))
   | CheckTxRequest request \<Rightarrow> convert_response senv (Ok (CheckTxResponse (check_tx request)), w)
   | DeliverTxRequest request \<Rightarrow> convert_response senv
       (and_then (deliver_tx ops env app request w) (\<lambda>resp w. (Ok (DeliverTxResponse resp), w)))
   | EndBlockRequest \<Rightarrow> convert_response senv (Ok (EndBlockResponse end_block), w)
   | CommitRequest \<Rightarrow> convert_response senv
       (and_then (commit ops app w) (\<lambda>app_hash w. (Ok (CommitResponse app_hash 0), w)))
   | ListSnapshotsRequest \<Rightarrow> convert_response senv (Ok (ListSnapshotsResponse list_snapshots), w)
   | OfferSnapshotRequest \<Rightarrow> convert_response senv (Ok (OfferSnapshotResponse offer_snapshot), w)
   | LoadSnapshotChunkRequest \<Rightarrow> convert_response senv (Ok (LoadSnapshotChunkResponse load_snapshot_chunk), w)
   | ApplySnapshotChunkRequest \<Rightarrow> convert_response senv (Ok (ApplySnapshotChunkResponse apply_snapshot_chunk), w)
   | PrepareProposalRequest txs max_tx_bytes \<Rightarrow> convert_response senv
       (Ok (PrepareProposalResponse (prepare_proposal txs max_tx_bytes)), w)
   | ProcessProposalRequest txs \<Rightarrow> convert_response senv (Ok (ProcessProposalResponse (process_proposal txs)), w))"

text \<open>Handling the requests of a list one after the other; a panic ends the service.\<close>

fun serve ::
  "('s, 'e, 'z) provable_ops_scheme \<Rightarrow> ('id, 'pk, 'ie, 'rh, 'h, 'j) app_env \<Rightarrow> ('ev, 'cp, 'r) service_env \<Rightarrow>
   ('s, 'y, 'id, 'ie, 'ev, 'h, 'j) app \<Rightarrow> ('rh, 'cp) abci_request list \<Rightarrow> ('s, 'y) heap_scheme \<Rightarrow>
   (infallible, 'r list) outcome \<times> ('s, 'y) heap_scheme" where
  "serve ops env senv app [] w = (Ok [], w)"
| "serve ops env senv app (req # reqs) w =
     and_then (call ops env senv app req w) (\<lambda>r w.
     and_then (serve ops env senv app reqs w) (\<lambda>rs w. (Ok (r # rs), w)))"

lemma convert_response_Ok:
  "convert_response senv m = (Ok r, w') \<longleftrightarrow> (\<exists>resp. m = (Ok resp, w') \<and> se_convert senv resp = Some r)"
  by (auto simp: convert_response_def and_then_Ok split: option.splits)

lemma convert_response_snd [simp]: "snd (convert_response senv (r, w)) = w"
  by (cases r) (auto simp: convert_response_def split: option.splits)

lemma call_cases:
  assumes "call ops env senv app req w = (Ok r, w')"
  obtains (unchanged) "w' = w" and "req \<noteq> CommitRequest"
  | (init) params genesis h where "req = InitChainRequest params genesis" and "init_chain ops env app genesis w = (Ok h, w')"
  | (begin_b) header events where "req = BeginBlockRequest header" and "begin_block env app header w = (Ok events, w')"
  | (deliver) request resp where "req = DeliverTxRequest request" and "deliver_tx ops env app request w = (Ok resp, w')"
  | (commit_b) h where "req = CommitRequest" and "commit ops app w = (Ok h, w')"
      and "se_convert senv (CommitResponse h 0) = Some r"
  using assms unfolding call_def
  by (cases req) (auto simp: convert_response_Ok and_then_Ok)


section \<open>Handling requests\<close>

lemma serve_length: "serve ops env senv app reqs w = (Ok rs, w') \<Longrightarrow> length rs = length reqs"
proof (induction reqs arbitrary: w rs)
  case (Cons req reqs)
  then show ?case by (fastforce simp: and_then_Ok)
qed simp

text \<open>
  Whatever the store and whatever the outcome, only four kinds of requests can change the state;
  in particular checking a transaction, queries and proposals do not.
\<close>

definition changes_state :: "('rh, 'cp) abci_request \<Rightarrow> bool" where
  "changes_state req = (case req of
     InitChainRequest params genesis \<Rightarrow> True
   | BeginBlockRequest header \<Rightarrow> True
   | DeliverTxRequest request \<Rightarrow> True
   | CommitRequest \<Rightarrow> True
   | _ \<Rightarrow> False)"

theorem other_requests_read_only:
  assumes "\<not> changes_state req"
  shows "snd (call ops env senv app req w) = w"
proof -
  have "snd (and_then (x, w) (\<lambda>resp w. (Ok (QueryResponse resp), w))) = w" for x :: "(infallible, response_query) outcome"
    by (cases x) simp_all
  then have "snd (convert_response senv (and_then (x, w) (\<lambda>resp w. (Ok (QueryResponse resp), w)))) = w" for x
    by (metis convert_response_snd prod.collapse)
  then show ?thesis using assms
    by (cases req) (simp_all add: call_def changes_state_def)
qed


section \<open>What the node reports of itself\<close>

lemma info_store:
  "im_store (cell w' (app_store app)) = im_store (cell w (app_store app)) \<Longrightarrow>
     info (in_memory_ops sha) app w' = info (in_memory_ops sha) app w"
  by (simp add: info_def read_access_def im_current_height_def im_root_hash_def im_get_state_def)

context confined_app
begin

lemma info_commit:
  assumes w: "heap_ok sha w" and c: "commit (in_memory_ops sha) app w = (Ok h, w')"
  shows "heap_ok sha w'" and "info (in_memory_ops sha) app w' = (info (in_memory_ops sha) app w)
    \<lparr>ri_last_block_height := ri_last_block_height (info (in_memory_ops sha) app w) + 1,
     ri_last_block_app_hash := h\<rparr>"
proof -
  obtain h1 w1 where c1: "commit (in_memory_ops sha) app w = (Ok h1, w1)" and w1: "heap_ok sha w1"
    and "\<exists>s. cell w1 (app_store app) = committed s \<and> im_ok sha s \<and> h1 = tree_root (im_pending s) \<and>
       im_store s = im_store (cell w (app_store app)) \<and>
       (\<forall>m \<in> set (app_modules app). avl_get (path_from_identifier (mod_id m)) (im_pending s) =
          Some (tree_root (im_pending (cell w (addr m)))))"
    by (rule commit_ok [OF w])
  then obtain s where s: "cell w1 (app_store app) = committed s" "h1 = tree_root (im_pending s)"
      "im_store s = im_store (cell w (app_store app))"
    by blast
  have "w1 = w'" "h1 = h" using c c1 by simp_all
  then show "heap_ok sha w'" and "info (in_memory_ops sha) app w' = (info (in_memory_ops sha) app w)
    \<lparr>ri_last_block_height := ri_last_block_height (info (in_memory_ops sha) app w) + 1,
     ri_last_block_app_hash := h\<rparr>"
    using w1 s by (simp_all add: info_def read_access_def im_current_height_def im_root_hash_committed
        committed_length add.commute)
qed

lemma call_info:
  assumes w: "heap_ok sha w" and run: "call (in_memory_ops sha) env senv app req w = (Ok r, w')"
  shows "heap_ok sha w' \<and>
    (if req = CommitRequest
     then \<exists>h. se_convert senv (CommitResponse h 0) = Some r \<and>
       info (in_memory_ops sha) app w' = (info (in_memory_ops sha) app w)
         \<lparr>ri_last_block_height := ri_last_block_height (info (in_memory_ops sha) app w) + 1,
          ri_last_block_app_hash := h\<rparr>
     else info (in_memory_ops sha) app w' = info (in_memory_ops sha) app w)"
  using run
proof (cases rule: call_cases)
  case unchanged
  then show ?thesis using w by simp
next
  case (init params genesis h)
  then show ?thesis using init_chain_blocks [OF w init(2)] by (auto intro: info_store)
next
  case (begin_b header events)
  then show ?thesis using begin_block_blocks [OF w begin_b(2)] by (auto intro: info_store)
next
  case (deliver request resp)
  then show ?thesis using deliver_tx_blocks [OF w deliver(2)] by (auto intro: info_store)
next
  case (commit_b h)
  then show ?thesis using info_commit [OF w commit_b(2)] by auto
qed

lemma serve_info:
  assumes "heap_ok sha w" and "serve (in_memory_ops sha) env senv app reqs w = (Ok rs, w')"
  shows "\<exists>hashes. map (\<lambda>h. se_convert senv (CommitResponse h 0)) hashes =
       map (\<lambda>x. Some (snd x)) (filter (\<lambda>x. fst x = CommitRequest) (zip reqs rs)) \<and>
     info (in_memory_ops sha) app w' = (info (in_memory_ops sha) app w)
       \<lparr>ri_last_block_height := ri_last_block_height (info (in_memory_ops sha) app w) + of_nat (length hashes),
        ri_last_block_app_hash := last (ri_last_block_app_hash (info (in_memory_ops sha) app w) # hashes)\<rparr>"
  using assms
proof (induction reqs arbitrary: w rs)
  case (Cons req reqs)
  let ?info = "info (in_memory_ops sha) app"
  obtain r w1 rs1 where first: "call (in_memory_ops sha) env senv app req w = (Ok r, w1)"
    and rest: "serve (in_memory_ops sha) env senv app reqs w1 = (Ok rs1, w')" and rs: "rs = r # rs1"
    using Cons.prems(2) by (auto simp: and_then_Ok)
  note one = call_info [OF Cons.prems(1) first]
  from Cons.IH [OF _ rest] one obtain hashes where
    hashes: "map (\<lambda>h. se_convert senv (CommitResponse h 0)) hashes =
       map (\<lambda>x. Some (snd x)) (filter (\<lambda>x. fst x = CommitRequest) (zip reqs rs1))"
    and info: "?info w' = (?info w1)
       \<lparr>ri_last_block_height := ri_last_block_height (?info w1) + of_nat (length hashes),
        ri_last_block_app_hash := last (ri_last_block_app_hash (?info w1) # hashes)\<rparr>"
    by blast
  show ?case
  proof (cases "req = CommitRequest")
    case True
    with one obtain h where h: "se_convert senv (CommitResponse h 0) = Some r"
      "?info w1 = (?info w)\<lparr>ri_last_block_height := ri_last_block_height (?info w) + 1, ri_last_block_app_hash := h\<rparr>"
      by auto
    show ?thesis
      by (rule exI [of _ "h # hashes"]) (simp add: True rs hashes h info)
  next
    case False
    then have "?info w1 = ?info w" using one by simp
    then show ?thesis using False hashes info rs by (intro exI [of _ hashes]) simp
  qed
qed simp

end

text \<open>
  C8. The handshake of the node: at every moment \<open>info\<close> reports the height at which the service
  started plus the number of commits since then, and as the last application hash the one that
  the last commit answered. So after a restart of the consensus engine, with the application
  kept running, both agree on the block to continue from.
\<close>

theorem service_info_tracks_commits:
  assumes "heap_ok sha w"
    and "serve (in_memory_ops sha) env senv (full_app sha aenv benv ienv tenv menv uenv genv a) reqs w = (Ok rs, w')"
  shows "\<exists>hashes. map (\<lambda>h. se_convert senv (CommitResponse h 0)) hashes =
       map (\<lambda>x. Some (snd x)) (filter (\<lambda>x. fst x = CommitRequest) (zip reqs rs)) \<and>
     info (in_memory_ops sha) (full_app sha aenv benv ienv tenv menv uenv genv a) w' =
       (info (in_memory_ops sha) (full_app sha aenv benv ienv tenv menv uenv genv a) w)
       \<lparr>ri_last_block_height := ri_last_block_height (info (in_memory_ops sha)
            (full_app sha aenv benv ienv tenv menv uenv genv a) w) + of_nat (length hashes),
        ri_last_block_app_hash := last (ri_last_block_app_hash (info (in_memory_ops sha)
            (full_app sha aenv benv ienv tenv menv uenv genv a) w) # hashes)\<rparr>"
  by (rule full.serve_info [OF assms])


section \<open>An instance\<close>

definition demo_senv :: "(u64, unit, bytes) service_env" where
  "demo_senv = \<lparr>se_convert = (\<lambda>resp. case resp of
       CommitResponse h retain_height \<Rightarrow> Some h
     | InfoResponse i \<Rightarrow> Some (ri_last_block_app_hash i)
     | _ \<Rightarrow> Some []), se_flush = []\<rparr>"

text \<open>The node asks, commits and asks again.\<close>

abbreviation demo_requests :: "(u64 header, unit) abci_request list" where
  "demo_requests \<equiv> [InfoRequest, CommitRequest, InfoRequest]"

lemma demo_served:
  obtains h w' where "serve (in_memory_ops id) demo_tx_env demo_senv demo_full_app
      demo_requests demo_gworld = (Ok [replicate 32 0, h, h], w')"
    and "info (in_memory_ops id) demo_full_app demo_gworld = \<lparr>ri_data = ''basecoin-rs'', ri_version = ''0.1.0'',
      ri_app_version = 1, ri_last_block_height = 0, ri_last_block_app_hash = replicate 32 0\<rparr>"
proof -
  obtain h w' where c: "commit (in_memory_ops id) demo_full_app demo_gworld = (Ok h, w')"
    by (rule confined_app.commit_ok [OF demo_full_confined demo_gworld_ok])
  have i: "info (in_memory_ops id) demo_full_app demo_gworld = \<lparr>ri_data = ''basecoin-rs'', ri_version = ''0.1.0'',
      ri_app_version = 1, ri_last_block_height = 0, ri_last_block_app_hash = replicate 32 0\<rparr>"
    by (simp add: info_def read_access_def demo_gworld_def im_current_height_def im_root_hash_def im_get_state_def
        im_default_def pv_last_def pv_default_def original_length_def current_length_def pruned_length_def)
  note i' = confined_app.info_commit [OF demo_full_confined demo_gworld_ok c]
  have "serve (in_memory_ops id) demo_tx_env demo_senv demo_full_app
      demo_requests demo_gworld = (Ok [replicate 32 0, h, h], w')"
    by (simp add: call_def convert_response_def c i i'(2) demo_senv_def)
  then show ?thesis using i by (rule that)
qed

theorem other_requests_read_only_witness:
  "snd (call (in_memory_ops id) demo_tx_env demo_senv demo_full_app (CheckTxRequest [0]) demo_gworld) = demo_gworld"
  by (rule other_requests_read_only) (simp add: changes_state_def)

theorem service_info_tracks_commits_witness:
  "\<exists>h w'. serve (in_memory_ops id) demo_tx_env demo_senv demo_full_app demo_requests
       demo_gworld = (Ok [replicate 32 0, h, h], w') \<and>
     ri_last_block_height (info (in_memory_ops id) demo_full_app w') = 1 \<and>
     ri_last_block_app_hash (info (in_memory_ops id) demo_full_app w') = h"
proof -
  obtain h w' where served: "serve (in_memory_ops id) demo_tx_env demo_senv demo_full_app
      demo_requests demo_gworld = (Ok [replicate 32 0, h, h], w')"
    and start: "info (in_memory_ops id) demo_full_app demo_gworld = \<lparr>ri_data = ''basecoin-rs'', ri_version = ''0.1.0'',
      ri_app_version = 1, ri_last_block_height = 0, ri_last_block_app_hash = replicate 32 0\<rparr>"
    by (rule demo_served)
  from service_info_tracks_commits [OF demo_gworld_ok served]
  obtain hashes where "map (\<lambda>h. se_convert demo_senv (CommitResponse h 0)) hashes =
       map (\<lambda>x. Some (snd x)) (filter (\<lambda>x. fst x = CommitRequest)
         (zip demo_requests [replicate 32 0, h, h]))"
    and i: "info (in_memory_ops id) demo_full_app w' = (info (in_memory_ops id) demo_full_app demo_gworld)
       \<lparr>ri_last_block_height := ri_last_block_height (info (in_memory_ops id) demo_full_app demo_gworld) +
          of_nat (length hashes),
        ri_last_block_app_hash := last (ri_last_block_app_hash (info (in_memory_ops id) demo_full_app demo_gworld) # hashes)\<rparr>"
    by blast
  then have "hashes = [h]" by (auto simp: demo_senv_def)
  with i start have "ri_last_block_height (info (in_memory_ops id) demo_full_app w') = 1"
    "ri_last_block_app_hash (info (in_memory_ops id) demo_full_app w') = h" by simp_all
  with served show ?thesis by blast
qed

end
