(* ===== verification/Genesis.thy ===== *)
theory Genesis
  imports Ledger Abci
begin

text \<open>
  From the genesis file to any block: \<open>init_chain\<close> creates the accounts and credits the balances of
  the genesis state, in the order in which the hash maps yield them, and what the ledger of the
  theory \<open>Ledger\<close> computes from there is what the ABCI service answers and the stores show. The
  genesis state is pending until the first commit, so no transaction comes before that; \<open>no_plan\<close>
  is what lets a block begin without touching the stores.
\<close>

section \<open>The ledger of a genesis state\<close>

definition creditable :: "'id \<times> coin list \<Rightarrow> 'id ledger \<Rightarrow> bool" where
  "creditable e L \<longleftrightarrow> list_all (\<lambda>d. held L d (fst e) + requested d (snd e) < 2 ^ 256) (denoms (snd e))"

definition credit :: "'id \<times> coin list \<Rightarrow> 'id ledger \<Rightarrow> 'id ledger" where
  "credit e L = L\<lparr>lg_balance := (\<lambda>i d. if i = fst e \<and> d \<in> set (denoms (snd e))
     then Some (held L d i + requested d (snd e)) else lg_balance L i d)\<rparr>"

fun credit_all :: "('id \<times> coin list) list \<Rightarrow> 'id ledger \<Rightarrow> 'id ledger option" where
  "credit_all [] L = Some L"
| "credit_all (e # es) L = (if creditable e L then credit_all es (credit e L) else None)"

fun create_all :: "'id list \<Rightarrow> 'id ledger \<Rightarrow> 'id ledger" where
  "create_all [] L = L"
| "create_all (i # is) L = create_all is (L\<lparr>lg_sequence := (lg_sequence L)(i \<mapsto> 0)\<rparr>)"

text \<open>What the two modules read from the genesis state; \<open>None\<close> when one of them cannot.\<close>

definition read_genesis ::
  "('id, 'j) auth_env \<Rightarrow> ('id, 'raw, 'e, 'j) bank_env \<Rightarrow> 'j \<Rightarrow> ('id list \<times> ('id \<times> coin list) list) option" where
  "read_genesis aenv benv j = (case (ae_genesis aenv j, be_genesis benv j) of
     (Some names, Some entries) \<Rightarrow>
       (case (those (map (ae_parse aenv) names),
              those (map (\<lambda>(name, bs). map_option (\<lambda>i. (i, map coin_from_pair bs)) (be_parse benv name)) entries)) of
          (Some is, Some es) \<Rightarrow> Some (is, es)
        | _ \<Rightarrow> None)
   | _ \<Rightarrow> None)"


section \<open>The initialisation of the two modules\<close>

lemma ledger_of_eqI:
  assumes "\<And>i. get_account (auth_store sha a) aenv i w' = get_account (auth_store sha a) aenv i w"
  shows "lg_sequence (ledger_of sha aenv benv a w') = lg_sequence (ledger_of sha aenv benv a w)"
  by (simp add: ledger_of_def assms)

lemma mint_credits:
  fixes benv :: "('id, 'raw, infallible, 'j) bank_env"
    and w :: "(in_memory, 'y) heap_scheme"
  assumes benv: "bank_env_ok benv" and w: "heap_ok sha w"
  shows "if creditable (i, cs) (ledger_of sha aenv benv a w)
     then \<exists>w'. mint_coins (runner_bank_store sha a) benv i cs w = (Ok (), w') \<and> heap_ok sha w' \<and>
        (\<forall>b. b \<noteq> bank_address a \<longrightarrow> cell w' b = cell w b) \<and>
        ledger_of sha aenv benv a w' = credit (i, cs) (ledger_of sha aenv benv a w)
     else mint_coins (runner_bank_store sha a) benv i cs w = (Err DestFundOverflow, w)"
proof -
  have bank: "im_ok sha (cell w (bank_address a))" using w by (simp add: heap_ok_def)
  let ?bs = "get_all_balances (runner_bank_store sha a) benv i w"
  have "balance_of d ?bs + requested d cs < 2 ^ 256" if "d \<notin> set (denoms cs)" for d
    using requested_absent [OF that] balance_of_bound by simp
  then have fits: "creditable (i, cs) (ledger_of sha aenv benv a w) \<longleftrightarrow>
      (\<forall>d. balance_of d ?bs + requested d cs < 2 ^ 256)"
    by (auto simp: creditable_def list_all_iff account_balance_def)
  show ?thesis
  proof (cases rule: shared.kv.mint_coins_cases [OF benv TrueI bank, of i cs, case_names ok fail])
    case (ok bs' w')
    have yes: "creditable (i, cs) (ledger_of sha aenv benv a w)"
      unfolding fits using mint_loop_defined [where 'id = 'id, of cs ?bs] ok(3) by blast
    have "confined sha {bank_address a} (mint_coins (runner_bank_store sha a) benv i cs)"
      by (intro confined_intros) simp
    from confinedD [OF this w ok(1)]
    have w': "heap_ok sha w'" "\<forall>b. b \<noteq> bank_address a \<longrightarrow> cell w' b = cell w b"
      by (simp_all add: pending_only_def)
    have acc: "get_account (auth_store sha a) aenv j w' = get_account (auth_store sha a) aenv j w" for j
      by (rule get_account_cong) (simp add: w'(2))
    have "lg_balance (ledger_of sha aenv benv a w') j d =
        lg_balance (credit (i, cs) (ledger_of sha aenv benv a w)) j d" for j d
      using mint_loop_Ok [OF ok(3), of d] mint_loop_holds [OF ok(3), of d] requested_absent [of d cs]
      by (auto simp: credit_def account_balance_def) (auto simp: ledger_of_def account_balance_def account_holds_def denoms_def ok(4))
    then have "lg_balance (ledger_of sha aenv benv a w') = lg_balance (credit (i, cs) (ledger_of sha aenv benv a w))"
      by blast
    then have "ledger_of sha aenv benv a w' = credit (i, cs) (ledger_of sha aenv benv a w)"
      using ledger_of_eqI [OF acc, of benv] by (simp add: credit_def)
    then show ?thesis using yes ok(1) w' by auto
  next
    case fail
    then have "\<not> creditable (i, cs) (ledger_of sha aenv benv a w)"
      unfolding fits using mint_loop_defined [where 'id = 'id, of cs ?bs] by auto
    then show ?thesis using fail(1) by simp
  qed
qed

lemma bank_init_credits:
  fixes benv :: "('id, 'raw, infallible, 'j) bank_env"
    and w :: "(in_memory, 'y) heap_scheme"
  assumes benv: "bank_env_ok benv" and "heap_ok sha w" and "accounts_keyed (auth_store sha a) aenv w"
    and "those (map (\<lambda>(name, bs). map_option (\<lambda>i. (i, map coin_from_pair bs)) (be_parse benv name)) entries) = Some es"
  shows "case credit_all es (ledger_of sha aenv benv a w) of
      None \<Rightarrow> \<exists>w'. bank_init_accounts (runner_bank_store sha a) benv entries w = (Panic, w')
    | Some L \<Rightarrow> \<exists>w'. bank_init_accounts (runner_bank_store sha a) benv entries w = (Ok (), w') \<and> heap_ok sha w' \<and>
        accounts_keyed (auth_store sha a) aenv w' \<and> ledger_of sha aenv benv a w' = L \<and> untouched_beside a w w'"
  using assms(2-)
proof (induction entries arbitrary: w es)
  case (Cons entry entries)
  obtain name bs where entry: "entry = (name, bs)" by (cases entry)
  obtain i es' where es: "be_parse benv name = Some i" "es = (i, map coin_from_pair bs) # es'"
    "those (map (\<lambda>(name, bs). map_option (\<lambda>i. (i, map coin_from_pair bs)) (be_parse benv name)) entries) = Some es'"
    using Cons.prems(3) by (auto simp: entry split: option.splits)
  note mint = mint_credits [OF benv Cons.prems(1), of i "map coin_from_pair bs" aenv a]
  show ?case
  proof (cases "creditable (i, map coin_from_pair bs) (ledger_of sha aenv benv a w)")
    case True
    then obtain w1 where w1: "mint_coins (runner_bank_store sha a) benv i (map coin_from_pair bs) w = (Ok (), w1)"
      "heap_ok sha w1" "\<forall>b. b \<noteq> bank_address a \<longrightarrow> cell w1 b = cell w b"
      "ledger_of sha aenv benv a w1 = credit (i, map coin_from_pair bs) (ledger_of sha aenv benv a w)"
      using mint by auto
    have "get_account (auth_store sha a) aenv j w1 = get_account (auth_store sha a) aenv j w" for j
      by (rule get_account_cong) (simp add: w1(3))
    then have keyed: "accounts_keyed (auth_store sha a) aenv w1" using Cons.prems(2) by (simp add: accounts_keyed_def)
    have "untouched_beside a w w1" using w1(3) by (simp add: untouched_beside_def)
    from Cons.IH [OF w1(2) keyed es(3)] untouched_trans [OF this] show ?thesis
      using True w1(1,4) es(1,2) by (auto simp: entry expect_def split: option.splits)
  next
    case False
    then show ?thesis using mint es(1,2) by (simp add: entry expect_def)
  qed
qed (auto simp: untouched_beside_def)

lemma auth_init_creates:
  fixes aenv :: "('id, 'j) auth_env" and benv :: "('id, 'raw, infallible, 'j) bank_env"
    and w :: "(in_memory, 'y) heap_scheme"
  assumes aenv: "auth_env_ok aenv" and "heap_ok sha w" and "accounts_keyed (auth_store sha a) aenv w"
    and "those (map (ae_parse aenv) names) = Some is"
  shows "\<exists>w'. auth_init_accounts (auth_store sha a) aenv names w = (Ok (), w') \<and> heap_ok sha w' \<and>
     accounts_keyed (auth_store sha a) aenv w' \<and>
     ledger_of sha aenv benv a w' = create_all is (ledger_of sha aenv benv a w) \<and> untouched_beside a w w'"
  using assms(2-)
proof (induction names arbitrary: w "is")
  case (Cons name names)
  obtain i is' where i: "ae_parse aenv name = Some i" "is = i # is'" "those (map (ae_parse aenv) names) = Some is'"
    using Cons.prems(3) by (auto split: option.splits)
  have "im_ok sha (cell w (auth_address a))" using Cons.prems(1) by (simp add: heap_ok_def)
  from shared.kv.set_account_ok [OF aenv TrueI this, of "auth_account_new i"]
  obtain w1 where w1: "set_account (auth_store sha a) aenv (auth_account_new i) w = (Ok (), w1)"
    "\<And>j. get_account (auth_store sha a) aenv j w1 =
       (if j = acc_address (auth_account_new i) then Ok (auth_account_new i)
        else get_account (auth_store sha a) aenv j w)" by metis
  have "confined sha {auth_address a} (set_account (auth_store sha a) aenv (auth_account_new i))"
    by (intro confined_intros) simp
  from confinedD [OF this Cons.prems(1) w1(1)]
  have ok: "heap_ok sha w1" "\<And>b. b \<noteq> auth_address a \<Longrightarrow> cell w1 b = cell w b"
    by (simp_all add: pending_only_def)
  have bal: "get_all_balances (runner_bank_store sha a) benv j w1 = get_all_balances (runner_bank_store sha a) benv j w" for j
    by (rule get_all_balances_cong) (simp add: ok(2))
  have keyed: "accounts_keyed (auth_store sha a) aenv w1"
    using Cons.prems(2) by (auto simp: accounts_keyed_def w1(2) auth_account_new_def split: if_splits)
  have "ledger_of sha aenv benv a w1 = (ledger_of sha aenv benv a w)
      \<lparr>lg_sequence := (lg_sequence (ledger_of sha aenv benv a w))(i \<mapsto> 0)\<rparr>"
    by (auto simp: ledger_of_def w1(2) auth_account_new_def account_balance_def account_holds_def bal fun_eq_iff)
  moreover have "untouched_beside a w w1" using ok(2) by (simp add: untouched_beside_def)
  ultimately show ?case
    using Cons.IH [OF ok(1) keyed i(3)] untouched_trans w1(1) i(1,2) by (fastforce simp: expect_def)
qed (auto simp: untouched_beside_def)


section \<open>From genesis to any block\<close>

lemma rest_init:
  "\<forall>m \<in> set ms. md_init (mod_ops m) = default_init \<Longrightarrow> init_modules ms j w = (Ok (), w)"
  by (induction ms) (auto simp: default_init_def)

lemma init_chain_ledger:
  fixes aenv :: "('id, 'j) auth_env" and benv :: "('id, 'raw, infallible, 'j) bank_env"
    and env :: "('id, 'pk, 'ie, 'rh, 'h, 'j) app_env"
    and w :: "(in_memory, 'y) heap_scheme"
    and app :: "(in_memory, 'y, 'id, 'ie, 'ev, 'h, 'j) app"
  assumes envs: "auth_env_ok aenv" "bank_env_ok benv" and app: "app = runner_app sha aenv benv a rest"
    and rest: "\<forall>m \<in> set rest. md_init (mod_ops m) = default_init"
    and w: "heap_ok sha w" "accounts_keyed (auth_store sha a) aenv w"
    and json: "from_utf8 genesis = Ok s" "ap_from_json env s = Some j"
    and read: "read_genesis aenv benv j = Some (is, es)"
  shows "case credit_all es (create_all is (ledger_of sha aenv benv a w)) of
      None \<Rightarrow> \<exists>w'. init_chain (in_memory_ops sha) env app genesis w = (Panic, w')
    | Some L \<Rightarrow> \<exists>h w'. init_chain (in_memory_ops sha) env app genesis w = (Ok h, w') \<and> heap_ok sha w' \<and>
        accounts_keyed (auth_store sha a) aenv w' \<and> ledger_of sha aenv benv a w' = L \<and> untouched_beside a w w'"
proof -
  obtain names entries where n: "ae_genesis aenv j = Some names" "those (map (ae_parse aenv) names) = Some is"
    "be_genesis benv j = Some entries"
    "those (map (\<lambda>(name, bs). map_option (\<lambda>i. (i, map coin_from_pair bs)) (be_parse benv name)) entries) = Some es"
    using read by (auto simp: read_genesis_def split: option.splits)
  obtain w1 where w1: "auth_init_accounts (auth_store sha a) aenv names w = (Ok (), w1)" "heap_ok sha w1"
    "accounts_keyed (auth_store sha a) aenv w1"
    "ledger_of sha aenv benv a w1 = create_all is (ledger_of sha aenv benv a w)" "untouched_beside a w w1"
    using auth_init_creates [OF envs(1) w n(2), of benv] by blast
  have init: "init_chain (in_memory_ops sha) env app genesis w =
      and_then (bank_init_accounts (runner_bank_store sha a) benv entries w1)
        (\<lambda>_ w. (Ok (read_access (app_store app) (st_root_hash (in_memory_ops sha)) w), w))"
    using w1(1) n(1,3)
    by (cases "bank_init_accounts (runner_bank_store sha a) benv entries w1";
        cases "fst (bank_init_accounts (runner_bank_store sha a) benv entries w1)")
      (simp_all add: init_chain_def json app runner_app_def runner_auth_def runner_bank_def auth_module_def
        bank_module_def auth_init_def bank_init_def rest_init [OF rest])
  show ?thesis
    using bank_init_credits [OF envs(2) w1(2,3) n(4)] untouched_trans [OF w1(5)]
    unfolding init w1(4) by (auto split: option.splits)
qed

text \<open>The ledger of an application that has just been built.\<close>

definition empty_ledger :: "'id ledger" where
  "empty_ledger = \<lparr>lg_sequence = (\<lambda>_. None), lg_balance = (\<lambda>_ _. None)\<rparr>"

lemma empty_stores_ledger:
  assumes "\<forall>b \<in> {auth_address a, bank_address a}. cell w b = im_default"
  shows "ledger_of sha aenv benv a w = empty_ledger" and "accounts_keyed (auth_store sha a) aenv w"
proof -
  have none: "get_account (auth_store sha a) aenv i w = Err ()"
    "get_all_balances (runner_bank_store sha a) benv i w = []" for i
    using assms by (simp_all add: get_account_def get_all_balances_unfold ts_get_def read_access_def
        im_get_def im_get_state_def im_default_def avl.look_emp)
  show "ledger_of sha aenv benv a w = empty_ledger"
    by (simp add: ledger_of_def empty_ledger_def none account_holds_def holds_denom_def)
  show "accounts_keyed (auth_store sha a) aenv w"
    by (simp add: accounts_keyed_def none)
qed


section \<open>Blocks without an upgrade plan\<close>

definition no_plan ::
  "(bytes \<Rightarrow> bytes) \<Rightarrow> ('tcs, 'tcons, 'conn, 'chan, 'ts, infallible) ibc_env \<Rightarrow>
   ('plan, 'tcons, 'tm, 'ev) upgrade_env \<Rightarrow> nat \<Rightarrow> (in_memory, 'y) heap_scheme \<Rightarrow> bool" where
  "no_plan sha ienv uenv a w \<longleftrightarrow>
     \<not> is_ok (upgrade_plan (shared_ops (in_memory_ops sha) (upgrade_address a)) ienv uenv w)"

lemma no_plan_cong:
  "im_pending (cell w' (upgrade_address a)) = im_pending (cell w (upgrade_address a)) \<Longrightarrow>
     no_plan sha ienv uenv a w' \<longleftrightarrow> no_plan sha ienv uenv a w"
  by (simp add: no_plan_def upgrade_plan_def ts_get_def read_access_def im_get_def im_get_state_def)

lemma no_plan_untouched: "untouched_beside a w w' \<Longrightarrow> no_plan sha ienv uenv a w' \<longleftrightarrow> no_plan sha ienv uenv a w"
  by (rule no_plan_cong) (simp add: untouched_beside_def)

lemma no_plan_empty: "cell w (upgrade_address a) = im_default \<Longrightarrow> no_plan sha ienv uenv a w"
  by (simp add: no_plan_def upgrade_plan_def ts_get_def read_access_def im_get_def im_get_state_def
      im_default_def avl.look_emp)

lemma begin_block_quiet:
  fixes env :: "('id, 'pk, 'ie, 'rh, 'tm header, 'j) app_env"
    and w :: "(in_memory, 'tcons, 'iev, 'y) gov_heap_scheme"
  assumes "no_plan sha ienv uenv a w" and "Option.bind header (ap_header env) \<noteq> None"
  obtains w' where "begin_block env (full_app sha aenv benv ienv tenv menv uenv genv a) header w = (Ok [], w')"
    and "cell w' = cell w"
proof -
  obtain h where h: "Option.bind header (ap_header env) = Some h" using assms(2) by blast
  obtain w1 where ibc: "ibc_begin_block menv h w = (Ok [], w1)" and w1: "cell w1 = cell w"
    by (simp add: ibc_begin_block_def)
  have "no_plan sha ienv uenv a w1" using assms(1) w1 no_plan_cong by metis
  then have "upgrade_begin_block (shared_ops (in_memory_ops sha) (upgrade_address a)) ienv uenv h w1 = (Ok [], w1)"
    by (auto simp: no_plan_def upgrade_begin_block_def split: outcome.splits)
  then have "begin_block env (full_app sha aenv benv ienv tenv menv uenv genv a) header w = (Ok [], w1)"
    using ibc
    by (simp add: begin_block_def h full_app_def runner_app_def full_rest_def runner_auth_def runner_bank_def
        auth_module_def bank_module_def ibc_module_def gov_module_def upgrade_module_def default_begin_block_def)
  then show ?thesis using that w1 by blast
qed


section \<open>Requests to the service\<close>

fun is_deliver :: "('rh, 'cp) abci_request \<Rightarrow> bool" where
  "is_deliver (DeliverTxRequest request) = True"
| "is_deliver _ = False"

text \<open>The requests considered: transactions of transfers, blocks whose header can be read, and all
  requests that only read, except queries, which unwrap proofs.\<close>

definition plain_request ::
  "('id, 'pk, 'ie, 'rh, 'h, 'j) app_env \<Rightarrow> ('id, 'raw, 'e, 'j) bank_env \<Rightarrow> ('rh, 'cp) abci_request \<Rightarrow> bool" where
  "plain_request env benv req = (case req of
     DeliverTxRequest request \<Rightarrow> read_tx env benv request \<noteq> None
   | BeginBlockRequest header \<Rightarrow> Option.bind header (ap_header env) \<noteq> None
   | InitChainRequest params genesis \<Rightarrow> False
   | QueryRequest request \<Rightarrow> False
   | _ \<Rightarrow> True)"

text \<open>No transaction is delivered before the first commit; \<open>c\<close> tells whether that has happened.\<close>

fun settled :: "bool \<Rightarrow> ('rh, 'cp) abci_request list \<Rightarrow> bool" where
  "settled c [] = True"
| "settled c (req # reqs) = ((is_deliver req \<longrightarrow> c) \<and> settled (c \<or> req = CommitRequest) reqs)"

definition transactions ::
  "('id, 'pk, 'ie, 'rh, 'h, 'j) app_env \<Rightarrow> ('id, 'raw, 'e, 'j) bank_env \<Rightarrow> ('rh, 'cp) abci_request list \<Rightarrow>
   ('id \<times> 'id transfer list) list" where
  "transactions env benv = List.map_filter (\<lambda>req. case req of
     DeliverTxRequest request \<Rightarrow> read_tx env benv request
   | _ \<Rightarrow> None)"

definition ready ::
  "(bytes \<Rightarrow> bytes) \<Rightarrow> ('id, 'j) auth_env \<Rightarrow> ('tcs, 'tcons, 'conn, 'chan, 'ts, infallible) ibc_env \<Rightarrow>
   ('plan, 'tcons, 'tm, 'pev) upgrade_env \<Rightarrow> (in_memory, 'y, 'id, 'ie, 'ev, 'h, 'j) app \<Rightarrow> bool \<Rightarrow>
   (in_memory, 'y) heap_scheme \<Rightarrow> bool" where
  "ready sha aenv ienv uenv app c w \<longleftrightarrow> heap_ok sha w \<and>
     accounts_keyed (auth_store sha (app_store app)) aenv w \<and> no_plan sha ienv uenv (app_store app) w \<and>
     (c \<longrightarrow> clean (stores_of app) w)"


lemma ready_cong:
  fixes w w' :: "(in_memory, 'y) heap_scheme"
  assumes "cell w' = cell w" and "ready sha aenv ienv uenv app c w"
  shows "ready sha aenv ienv uenv app c w'"
    and "ledger_of sha aenv benv (app_store app) w' = ledger_of sha aenv benv (app_store app) w"
  using assms ledger_of_cong [of "app_store app" w' w sha] no_plan_cong [of w' "app_store app" w sha ienv uenv]
  by (auto simp: ready_def heap_ok_def clean_def)

text \<open>A transaction of transfers, once a block has been committed.\<close>

lemma call_deliver:
  fixes env :: "('id, 'pk, 'ie, 'rh, 'tm header, 'j) app_env" and benv :: "('id, 'raw, infallible, 'j) bank_env"
    and w :: "(in_memory, 'tcons, 'iev, 'y) gov_heap_scheme"
  assumes envs: "auth_env_ok aenv" "bank_env_ok benv"
    and conv: "\<And>resp. se_convert senv resp \<noteq> None"
    and app: "app = full_app sha aenv benv ienv tenv menv uenv genv a"
    and ready: "ready sha aenv ienv uenv app True w"
    and read: "read_tx env benv request = Some tx"
  obtains resp r w' where "call (in_memory_ops sha) env senv app (DeliverTxRequest request) w = (Ok r, w')"
    and "se_convert senv (DeliverTxResponse resp) = Some r" and "ready sha aenv ienv uenv app True w'"
    and "(rd_code resp, ledger_of sha aenv benv a w') = ledger_tx tx (ledger_of sha aenv benv a w)"
proof -
  have runner: "app = runner_app sha aenv benv a (full_rest sha benv ienv tenv menv uenv genv a)"
    by (simp add: app full_app_def)
  have a: "app_store app = a" by (simp add: runner runner_app_def)
  have conf: "confined_app sha app" unfolding app by (rule full.confined_app_axioms)
  have w: "heap_ok sha w" "clean (stores_of app) w" "accounts_keyed (auth_store sha a) aenv w"
    and plan: "no_plan sha ienv uenv a w"
    using ready unfolding ready_def a by auto
  obtain resp w' where w': "deliver_tx (in_memory_ops sha) env app request w = (Ok resp, w')"
    "(rd_code resp, ledger_of sha aenv benv a w') = ledger_tx tx (ledger_of sha aenv benv a w)"
    "heap_ok sha w'" "clean (stores_of app) w'" "accounts_keyed (auth_store sha a) aenv w'" "untouched_beside a w w'"
    by (rule runner_tx [OF conf envs runner w read])
  obtain r where r: "se_convert senv (DeliverTxResponse resp) = Some r"
    using conv [of "DeliverTxResponse resp"] by auto
  have "ready sha aenv ienv uenv app True w'"
    using w'(3-5) plan no_plan_untouched [OF w'(6), of sha ienv uenv] by (simp add: ready_def a)
  moreover have "call (in_memory_ops sha) env senv app (DeliverTxRequest request) w = (Ok r, w')"
    by (simp add: call_def w'(1) convert_response_def r)
  ultimately show ?thesis using that r w'(2) by blast
qed

lemma call_plain:
  fixes env :: "('id, 'pk, 'ie, 'rh, 'tm header, 'j) app_env" and benv :: "('id, 'raw, infallible, 'j) bank_env"
    and w :: "(in_memory, 'tcons, 'iev, 'y) gov_heap_scheme"
  assumes conv: "\<And>resp. se_convert senv resp \<noteq> None"
    and app: "app = full_app sha aenv benv ienv tenv menv uenv genv a"
    and ready: "ready sha aenv ienv uenv app c w"
    and plain: "plain_request env benv req" "\<not> is_deliver req"
  obtains r w' where "call (in_memory_ops sha) env senv app req w = (Ok r, w')"
    and "ready sha aenv ienv uenv app (c \<or> req = CommitRequest) w'"
    and "ledger_of sha aenv benv a w' = ledger_of sha aenv benv a w"
proof -
  have runner: "app = runner_app sha aenv benv a (full_rest sha benv ienv tenv menv uenv genv a)"
    by (simp add: app full_app_def)
  have a: "app_store app = a" by (simp add: runner runner_app_def)
  have conf: "confined_app sha app" unfolding app by (rule full.confined_app_axioms)
  have answered: "\<exists>r. convert_response senv (Ok resp, v) = (Ok r, v)"
    for resp and v :: "(in_memory, 'tcons, 'iev, 'y) gov_heap_scheme"
    using conv [of resp] by (auto simp: convert_response_def)
  consider (begin_b) header where "req = BeginBlockRequest header" | (commit_b) "req = CommitRequest"
    | (reads) "\<not> changes_state req"
    using plain by (cases req) (auto simp: plain_request_def changes_state_def)
  then show ?thesis
  proof cases
    case begin_b
    have plan: "no_plan sha ienv uenv a w" using ready by (simp add: ready_def a)
    have header: "Option.bind header (ap_header env) \<noteq> None" using plain(1) begin_b by (simp add: plain_request_def)
    obtain w' where w': "begin_block env app header w = (Ok [], w')" "cell w' = cell w"
      by (rule begin_block_quiet [OF plan header, where aenv = aenv and benv = benv and tenv = tenv and menv = menv
          and genv = genv, folded app]) (rule that)
    obtain r where "call (in_memory_ops sha) env senv app req w = (Ok r, w')"
      using answered [of "BeginBlockResponse []" w'] w'(1) by (auto simp: call_def begin_b)
    then show ?thesis using that ready_cong(1) [OF w'(2) ready] ready_cong(2) [OF w'(2) ready, of benv] begin_b
      by (simp add: a)
  next
    case commit_b
    have w: "heap_ok sha w" "accounts_keyed (auth_store sha a) aenv w" and plan: "no_plan sha ienv uenv a w"
      using ready unfolding ready_def a by auto
    obtain h w' where w': "commit (in_memory_ops sha) app w = (Ok h, w')" "heap_ok sha w'" "clean (stores_of app) w'"
      "ledger_of sha aenv benv a w' = ledger_of sha aenv benv a w"
      "accounts_keyed (auth_store sha a) aenv w' \<longleftrightarrow> accounts_keyed (auth_store sha a) aenv w"
      "im_pending (cell w' (upgrade_address a)) = im_pending (cell w (upgrade_address a))"
      by (rule commit_keeps_ledger [OF conf runner w(1)]) (rule that, assumption+, simp)
    have "no_plan sha ienv uenv a w'"
      using plan no_plan_cong [OF w'(6), of sha ienv uenv] by simp
    then have "ready sha aenv ienv uenv app True w'" using w w'(2,3,5) by (simp add: ready_def a)
    moreover obtain r where "call (in_memory_ops sha) env senv app req w = (Ok r, w')"
      using answered [of "CommitResponse h 0" w'] w'(1) by (auto simp: call_def commit_b)
    ultimately show ?thesis using that w'(4) commit_b by simp
  next
    case reads
    obtain r where "call (in_memory_ops sha) env senv app req w = (Ok r, w)"
      using reads plain(1) answered [of _ w]
      by (cases req) (auto simp: call_def changes_state_def plain_request_def)
    moreover have "req \<noteq> CommitRequest" using reads by (auto simp: changes_state_def)
    ultimately show ?thesis using that ready by simp
  qed
qed

lemma serve_ledger:
  fixes env :: "('id, 'pk, 'ie, 'rh, 'tm header, 'j) app_env" and benv :: "('id, 'raw, infallible, 'j) bank_env"
    and w :: "(in_memory, 'tcons, 'iev, 'y) gov_heap_scheme"
  assumes envs: "auth_env_ok aenv" "bank_env_ok benv"
    and conv: "\<And>resp. se_convert senv resp \<noteq> None"
    and app: "app = full_app sha aenv benv ienv tenv menv uenv genv a"
    and "ready sha aenv ienv uenv app c w"
    and "list_all (plain_request env benv) reqs" and "settled c reqs"
  shows "\<exists>rs resps w'. serve (in_memory_ops sha) env senv app reqs w = (Ok rs, w') \<and>
     map (\<lambda>resp. se_convert senv (DeliverTxResponse resp)) resps =
       map (\<lambda>x. Some (snd x)) (filter (\<lambda>x. is_deliver (fst x)) (zip reqs rs)) \<and>
     (map rd_code resps, ledger_of sha aenv benv a w') =
       ledger_run (transactions env benv reqs) (ledger_of sha aenv benv a w)"
  using assms(5-)
proof (induction reqs arbitrary: c w)
  case (Cons req reqs)
  have plain: "plain_request env benv req" "list_all (plain_request env benv) reqs"
    using Cons.prems(2) by simp_all
  show ?case
  proof (cases "is_deliver req")
    case True
    then obtain request where req: "req = DeliverTxRequest request" by (cases req) auto
    obtain tx where tx: "read_tx env benv request = Some tx" using plain(1) by (auto simp: req plain_request_def)
    have c: "c" using Cons.prems(3) by (simp add: req)
    obtain resp r w1 where w1: "call (in_memory_ops sha) env senv app req w = (Ok r, w1)"
      "se_convert senv (DeliverTxResponse resp) = Some r" "ready sha aenv ienv uenv app True w1"
      "(rd_code resp, ledger_of sha aenv benv a w1) = ledger_tx tx (ledger_of sha aenv benv a w)"
      unfolding req by (rule call_deliver [OF envs conv app _ tx]) (use Cons.prems(1) c in simp_all)
    obtain rs resps w' where w': "serve (in_memory_ops sha) env senv app reqs w1 = (Ok rs, w')"
      "map (\<lambda>resp. se_convert senv (DeliverTxResponse resp)) resps =
         map (\<lambda>x. Some (snd x)) (filter (\<lambda>x. is_deliver (fst x)) (zip reqs rs))"
      "(map rd_code resps, ledger_of sha aenv benv a w') =
         ledger_run (transactions env benv reqs) (ledger_of sha aenv benv a w1)"
      using Cons.IH [OF w1(3) plain(2)] Cons.prems(3) c by auto
    have "ledger_run (transactions env benv (req # reqs)) (ledger_of sha aenv benv a w) =
        (map rd_code (resp # resps), ledger_of sha aenv benv a w')"
      using w'(3) [symmetric] w1(4) [symmetric]
      by (simp add: transactions_def List.map_filter_simps req tx)
    then show ?thesis using w1(1,2) w'(1,2)
      by (intro exI [of _ "r # rs"] exI [of _ "resp # resps"] exI [of _ w']) (simp add: True)
  next
    case False
    obtain r w1 where w1: "call (in_memory_ops sha) env senv app req w = (Ok r, w1)"
      "ready sha aenv ienv uenv app (c \<or> req = CommitRequest) w1"
      "ledger_of sha aenv benv a w1 = ledger_of sha aenv benv a w"
      by (rule call_plain [OF conv app Cons.prems(1) _ False]) (rule plain)
    obtain rs resps w' where w': "serve (in_memory_ops sha) env senv app reqs w1 = (Ok rs, w')"
      "map (\<lambda>resp. se_convert senv (DeliverTxResponse resp)) resps =
         map (\<lambda>x. Some (snd x)) (filter (\<lambda>x. is_deliver (fst x)) (zip reqs rs))"
      "(map rd_code resps, ledger_of sha aenv benv a w') =
         ledger_run (transactions env benv reqs) (ledger_of sha aenv benv a w1)"
      using Cons.IH [OF w1(2) plain(2)] Cons.prems(3) by auto
    have "transactions env benv (req # reqs) = transactions env benv reqs"
      using False by (cases req) (simp_all add: transactions_def List.map_filter_simps)
    then show ?thesis using w1(1,3) w'
      by (intro exI [of _ "r # rs"] exI [of _ resps] exI [of _ w']) (simp add: False)
  qed
qed (simp add: transactions_def List.map_filter_simps)


section \<open>The service computes the abstract ledger\<close>

text \<open>
  C5. Built by the runner and initialised with any genesis state that reads as a list of
  accounts and balances, the node serves every sequence of requests whose transactions are transfers and
  whose headers can be read, in any order and with any requests in between that only read (other
  than queries, which unwrap proofs), as long as no transaction comes before the first commit
  (\<open>settled\<close>; a transaction that failed before it would erase the genesis state): the node answers all
  of them, its answers to the transactions carry the codes the abstract ledger computes from the genesis state, and in the end the node's
  stores show that ledger's balances and sequence numbers. When a credit of the genesis state
  overflows, the very first request panics instead.
\<close>

theorem service_computes_ledger:
  fixes aenv :: "('id, 'j) auth_env" and benv :: "('id, 'raw, infallible, 'j) bank_env"
    and env :: "('id, 'pk, 'ie, 'rh, 'tm header, 'j) app_env"
    and ienv :: "('tcs, 'tcons, 'conn, 'chan, 'ts, infallible) ibc_env"
    and w :: "(in_memory, 'tcons, 'iev, 'y) gov_heap_scheme"
  assumes envs: "ibc_env_ok ienv" "auth_env_ok aenv" "bank_env_ok benv" and w: "heap_ok sha w"
    and conv: "\<And>resp. se_convert senv resp \<noteq> None"
    and built: "default_app sha aenv benv ienv tenv menv uenv genv w = (Ok (Some app), w0)"
    and json: "from_utf8 genesis = Ok s" "ap_from_json env s = Some j"
    and read: "read_genesis aenv benv j = Some (is, es)"
    and reqs: "list_all (plain_request env benv) reqs" "settled False reqs"
  shows "case credit_all es (create_all is empty_ledger) of
      None \<Rightarrow> \<exists>w'. serve (in_memory_ops sha) env senv app (InitChainRequest params genesis # reqs) w0 = (Panic, w')
    | Some L \<Rightarrow> \<exists>r rs resps w'.
        serve (in_memory_ops sha) env senv app (InitChainRequest params genesis # reqs) w0 = (Ok (r # rs), w') \<and>
        map (\<lambda>resp. se_convert senv (DeliverTxResponse resp)) resps =
          map (\<lambda>x. Some (snd x)) (filter (\<lambda>x. is_deliver (fst x)) (zip reqs rs)) \<and>
        (map rd_code resps, ledger_of sha aenv benv (next_addr w) w') = ledger_run (transactions env benv reqs) L"
proof -
  let ?a = "next_addr w" and ?rest = "full_rest sha benv ienv tenv menv uenv genv (next_addr w)"
  have app: "app = full_app sha aenv benv ienv tenv menv uenv genv ?a" and w0: "heap_ok sha w0"
    and empty: "\<forall>b \<in> {auth_address ?a, bank_address ?a}. cell w0 b = im_default"
    and plan: "cell w0 (upgrade_address ?a) = im_default"
    using default_app_builds [OF envs(1) w, of aenv benv tenv menv uenv genv] built by auto
  have runner: "app = runner_app sha aenv benv ?a ?rest" by (simp add: app full_app_def)
  have a: "app_store app = ?a" by (simp add: runner runner_app_def)
  have rest: "\<forall>m \<in> set ?rest. md_init (mod_ops m) = default_init"
    by (simp add: full_rest_def ibc_module_def gov_module_def upgrade_module_def)
  note init = init_chain_ledger [OF envs(2,3) runner rest w0 empty_stores_ledger(2) [OF empty] json read,
      unfolded empty_stores_ledger(1) [OF empty]]
  show ?thesis
  proof (cases "credit_all es (create_all is empty_ledger)")
    case None
    then show ?thesis using init by (auto simp: call_def convert_response_def)
  next
    case (Some L)
    then obtain h w1 where w1: "init_chain (in_memory_ops sha) env app genesis w0 = (Ok h, w1)" "heap_ok sha w1"
      "accounts_keyed (auth_store sha ?a) aenv w1" "ledger_of sha aenv benv ?a w1 = L" "untouched_beside ?a w0 w1"
      using init by auto
    obtain r where r: "call (in_memory_ops sha) env senv app (InitChainRequest params genesis) w0 = (Ok r, w1)"
      using conv [of "InitChainResponse params h"] w1(1) by (auto simp: call_def convert_response_def)
    have "ready sha aenv ienv uenv app False w1"
      using w1(2,3) no_plan_untouched [OF w1(5), of sha ienv uenv] no_plan_empty [OF plan, of sha ienv uenv]
      by (simp add: ready_def a)
    note serve_ledger [OF envs(2,3) conv app this reqs, unfolded w1(4)]
    then obtain rs resps w' where w': "serve (in_memory_ops sha) env senv app reqs w1 = (Ok rs, w')"
      "map (\<lambda>resp. se_convert senv (DeliverTxResponse resp)) resps =
         map (\<lambda>x. Some (snd x)) (filter (\<lambda>x. is_deliver (fst x)) (zip reqs rs))"
      "(map rd_code resps, ledger_of sha aenv benv ?a w') = ledger_run (transactions env benv reqs) L"
      by blast
    have "serve (in_memory_ops sha) env senv app (InitChainRequest params genesis # reqs) w0 = (Ok (r # rs), w')"
      using r w'(1) by simp
    then show ?thesis using Some w'(2,3) by auto
  qed
qed


section \<open>Witness\<close>

text \<open>The genesis state gives Alice ten coins; every transaction is a transfer of four to Bob.\<close>

definition send_env :: "(string, string, unit, u64 header, u64 header, string list) app_env" where
  "send_env = demo_tx_env\<lparr>ap_decode_tx := (\<lambda>request. Ok (bare_tx ''alice''
     [\<lparr>type_url = ''/cosmos.bank.v1beta1.MsgSend'', any_value = request\<rparr>]))\<rparr>"

lemma send_read: "read_tx send_env demo_benv request =
   Some (''alice'', [\<lparr>tr_from = ''alice'', tr_to = ''bob'', tr_coins = coins 4\<rparr>])"
  by (simp add: read_tx_def read_send_def send_env_def demo_tx_env_def demo_benv_def first_signer_def demo_transfer_def
      coin_from_msg_def coins_def)

lemma demo_genesis: "read_genesis auth_test_env demo_benv [''alice''] = Some ([''alice''], [(''alice'', coins 10)])"
  by (simp add: read_genesis_def auth_test_env_def demo_benv_def coin_from_pair_def coins_def)

definition demo_genesis_ledger :: "string ledger" where
  "demo_genesis_ledger = credit (''alice'', coins 10) (create_all [''alice''] empty_ledger)"

lemma demo_credits:
  "credit_all [(''alice'', coins 10)] (create_all [''alice''] empty_ledger) = Some demo_genesis_ledger"
  by (simp add: demo_genesis_ledger_def creditable_def held_def empty_ledger_def denoms_def coins_def)

text \<open>The three transfers in two blocks, between them a header and requests that only read.\<close>

abbreviation demo_session :: "(u64 header, unit) abci_request list" where
  "demo_session \<equiv> [CommitRequest, DeliverTxRequest [1], InfoRequest, DeliverTxRequest [1], CommitRequest,
     BeginBlockRequest (Some \<lparr>hd_app_hash = [], hd_time = 0, hd_height = 1, hd_next_validators_hash = []\<rparr>),
     DeliverTxRequest [1], EndBlockRequest]"

lemma demo_session_ok:
  "list_all (plain_request send_env demo_benv) demo_session" "settled False demo_session"
  "transactions send_env demo_benv demo_session =
     replicate 3 (''alice'', [\<lparr>tr_from = ''alice'', tr_to = ''bob'', tr_coins = coins 4\<rparr>])"
proof -
  have "ap_header send_env = Some" by (simp add: send_env_def demo_tx_env_def)
  then show "list_all (plain_request send_env demo_benv) demo_session" "settled False demo_session"
    "transactions send_env demo_benv demo_session =
       replicate 3 (''alice'', [\<lparr>tr_from = ''alice'', tr_to = ''bob'', tr_coins = coins 4\<rparr>])"
    by (simp_all add: plain_request_def send_read transactions_def List.map_filter_simps numeral_3_eq_3)
qed

lemma demo_senv_total: "se_convert demo_senv resp \<noteq> None"
  by (simp add: demo_senv_def split: abci_response.splits)

lemma demo_genesis_run:
  "fst (ledger_run (transactions send_env demo_benv demo_session) demo_genesis_ledger) = [0, 0, 2]"
  "held (snd (ledger_run (transactions send_env demo_benv demo_session) demo_genesis_ledger)) ''basecoin'' ''bob'' = 8"
proof -
  have d: "denoms (coins n) = [''basecoin'']" for n by (simp add: denoms_def coins_def)
  show "fst (ledger_run (transactions send_env demo_benv demo_session) demo_genesis_ledger) = [0, 0, 2]"
    "held (snd (ledger_run (transactions send_env demo_benv demo_session) demo_genesis_ledger)) ''basecoin'' ''bob'' = 8"
    unfolding demo_genesis_ledger_def demo_session_ok(3)
    by (simp_all add: ledger_tx_def ledger_message_def sendable_def held_def moved_def d credit_def empty_ledger_def
        numeral_3_eq_3)
qed

theorem service_computes_ledger_witness:
  "\<exists>app w0 rs w'.
     default_app id auth_test_env demo_benv demo_gienv demo_tenv demo_menv demo_uenv demo_genv demo_gworld =
       (Ok (Some app), w0) \<and>
     serve (in_memory_ops id) send_env demo_senv app (InitChainRequest () [] # demo_session) w0 = (Ok rs, w') \<and>
     length rs = 9 \<and> account_balance (runner_bank_store id 7) demo_benv ''basecoin'' w' ''bob'' = 8"
proof -
  have n: "next_addr demo_gworld = 7" by (simp add: demo_gworld_def)
  obtain app w0 where built: "default_app id auth_test_env demo_benv demo_gienv demo_tenv demo_menv demo_uenv demo_genv
      demo_gworld = (Ok (Some app), w0)"
    using default_app_builds [OF demo_gienv_ok demo_gworld_ok, of auth_test_env demo_benv demo_tenv demo_menv
        demo_uenv demo_genv] by blast
  have utf8: "from_utf8 [] = Ok []" by (simp add: from_utf8_def bytes_string_def)
  have json: "ap_from_json send_env [] = Some [''alice'']" by (simp add: send_env_def demo_tx_env_def)
  obtain r rs w' and resps :: "u64 response_deliver_tx list" where run:
    "serve (in_memory_ops id) send_env demo_senv app (InitChainRequest () [] # demo_session) w0 = (Ok (r # rs), w')"
    "(map rd_code resps, ledger_of id auth_test_env demo_benv 7 w') =
       ledger_run (transactions send_env demo_benv demo_session) demo_genesis_ledger"
    using service_computes_ledger [OF demo_gienv_ok auth_test_env_ok demo_benv_ok demo_gworld_ok demo_senv_total
        built utf8 json demo_genesis demo_session_ok(1,2), of "()", unfolded demo_credits option.case n]
    by (elim exE conjE) (rule that)
  have "account_balance (runner_bank_store id 7) demo_benv ''basecoin'' w' ''bob'' = 8"
    using demo_genesis_run(2) unfolding run(2) [symmetric] by simp
  moreover have "length (r # rs) = 9" using serve_length [OF run(1)] by simp
  ultimately show ?thesis using built run(1)
    by (intro exI [of _ app] exI [of _ w0] exI [of _ "r # rs"] exI [of _ w']) blast
qed

end
