(* ===== verification/Abci38.thy ===== *)
theory Abci38
  imports Full_Safety
begin

text \<open>
  The methods for CometBFT 0.38: \<open>abci/v0_38/tendermint.rs\<close>, an implementation of the trait
  \<open>Application\<close> of \<open>tendermint_abci\<close> that replaces those of version 0.37 when the feature is
  chosen. Blocks arrive by \<open>finalize_block\<close> there, which is \<open>unimplemented!()\<close>.
\<close>

section \<open>The methods\<close>

definition info_38 ::
  "('s, 'e, 'z) provable_ops_scheme \<Rightarrow> ('s, 'y, 'id, 'ie, 'ev, 'h, 'j) app \<Rightarrow>
   ('s, 'y) heap_scheme \<Rightarrow> response_info" where
  "info_38 ops app w =
     (let last_block_height = read_access (app_store app) (st_current_height ops) w;
          last_block_app_hash = read_access (app_store app) (st_root_hash ops) w
      in \<lparr>ri_data = ''basecoin-rs'', ri_version = ''0.1.0'', ri_app_version = 1,
          ri_last_block_height = last_block_height, ri_last_block_app_hash = last_block_app_hash\<rparr>)"

text \<open>The root hash is read under the write lock.\<close>

definition init_chain_38 ::
  "('s, 'e, 'z) provable_ops_scheme \<Rightarrow> ('id, 'pk, 'ie, 'rh, 'h, 'j) app_env \<Rightarrow>
   ('s, 'y, 'id, 'ie, 'ev, 'h, 'j) app \<Rightarrow> 'cp \<Rightarrow> bytes \<Rightarrow> ('s, 'y) heap_scheme \<Rightarrow>
   (infallible, 'cp \<times> bytes) outcome \<times> ('s, 'y) heap_scheme" where
  "init_chain_38 ops env app consensus_params app_state_bytes w = (case from_utf8 app_state_bytes of
     Ok s \<Rightarrow> (case ap_from_json env s of
         None \<Rightarrow> (Panic, w)
       | Some app_state \<Rightarrow>
           and_then (init_modules (app_modules app) app_state w) (\<lambda>_.
             write_access (app_store app) (\<lambda>s. (Ok (consensus_params, st_root_hash ops s), s))))
   | _ \<Rightarrow> (Panic, w))"

fun query_modules_38 ::
  "('s, 'e, 'z) provable_ops_scheme \<Rightarrow> ('id, 'pk, 'ie, 'rh, 'h, 'j) app_env \<Rightarrow> nat \<Rightarrow> request_query \<Rightarrow> path \<Rightarrow> height \<Rightarrow>
   ('s, 'y, 'id, 'ie, 'ev, 'h, 'j) module_list \<Rightarrow> ('s, 'y) heap_scheme \<Rightarrow> (infallible, response_query) outcome" where
  "query_modules_38 ops env main request p h [] w = Ok (query_error 1 ''query msg not handled'')"
| "query_modules_38 ops env main request p h (m # ms) w =
     (case md_query (mod_ops m) (rq_data request) (Some p) h (rq_prove request) w of
        Ok result \<Rightarrow>
          (let respond = (\<lambda>proof_ops. Ok \<lparr>rp_code = 0, rp_log = ''exists'', rp_key = rq_data request,
                 rp_value = qr_data result, rp_proof_ops = proof_ops,
                 rp_height = read_access main (st_current_height ops) w\<rparr>) in
           if rq_prove request then
             (case read_access main (st_get_proof ops h (path_from_identifier (mod_id m))) w of
                Some proof \<Rightarrow>
                  (let ops' = (case qr_proof result of Some proofs \<Rightarrow> proofs | None \<Rightarrow> [])
                   in respond (Some (ops' @ [\<lparr>po_field_type = [],
                        po_key = string_bytes (identifier_to_string (mod_id m)), po_data = ap_encode_proof env proof\<rparr>])))
              | None \<Rightarrow> Panic)
           else respond None)
      | Err e \<Rightarrow>
          (if e = NotHandled then query_modules_38 ops env main request p h ms w
           else Ok (query_error 1 (''query error: '' @ ap_debug_error env e)))
      | Panic \<Rightarrow> Panic
      | Diverge \<Rightarrow> Diverge)"

definition query_38 ::
  "('s, 'e, 'z) provable_ops_scheme \<Rightarrow> ('id, 'pk, 'ie, 'rh, 'h, 'j) app_env \<Rightarrow>
   ('s, 'y, 'id, 'ie, 'ev, 'h, 'j) app \<Rightarrow> request_query \<Rightarrow> ('s, 'y) heap_scheme \<Rightarrow>
   (infallible, response_query) outcome" where
  "query_38 ops env app request w = query_modules_38 ops env (app_store app) request
     (path_from_string (rq_path request)) (height_from (rq_height request)) (app_modules app) w"

fun commit_modules_38 ::
  "('s, 'e, 'z) provable_ops_scheme \<Rightarrow> nat \<Rightarrow> ('s, 'y, 'id, 'ie, 'ev, 'h, 'j) module_list \<Rightarrow>
   ('s, 'y) heap_scheme \<Rightarrow> (infallible, unit) outcome \<times> ('s, 'y) heap_scheme" where
  "commit_modules_38 ops main [] w = (Ok (), w)"
| "commit_modules_38 ops main (m # ms) w =
     and_then (expect (st_commit (shared_ops ops (md_store (mod_ops m))) w)) (\<lambda>_ w.
     and_then (expect (write_access main (st_set ops (path_from_identifier (mod_id m))
         (st_root_hash (shared_ops ops (md_store (mod_ops m))) w)) w)) (\<lambda>_ w.
       commit_modules_38 ops main ms w))"

text \<open>The response has the retain height and no longer the hash.\<close>

definition commit_38 ::
  "('s, 'e, 'z) provable_ops_scheme \<Rightarrow> ('s, 'y, 'id, 'ie, 'ev, 'h, 'j) app \<Rightarrow>
   ('s, 'y) heap_scheme \<Rightarrow> (infallible, u64) outcome \<times> ('s, 'y) heap_scheme" where
  "commit_38 ops app w =
     and_then (commit_modules_38 ops (app_store app) (app_modules app) w) (\<lambda>_ w.
     and_then (expect (write_access (app_store app) (st_commit ops) w)) (\<lambda>_ w. (Ok 0, w)))"

definition finalize_block :: "'req \<Rightarrow> 'w \<Rightarrow> (infallible, 'resp) outcome \<times> 'w" where
  "finalize_block request w = (Panic, w)"


section \<open>Comparison with version 0.37\<close>

lemma write_and_read: "write_access a (\<lambda>s. (f s, s)) w = (read_access a f w, w)"
  by (simp add: write_access_def read_access_def)

lemma read_Ok: "read_access a (\<lambda>s. Ok (x, f s)) w = Ok (x, read_access a f w)"
  by (simp add: read_access_def)

lemma query_modules_38:
  "query_modules_38 ops env (app_store app) request (path_from_string (rq_path request))
     (height_from (rq_height request)) ms w = query_loop ops env app request ms w"
proof (induction ms)
  case (Cons m ms)
  then show ?case
    by (simp add: query_response_def Let_def unwrap_or_def split: outcome.split option.split)
qed simp

lemma commit_modules_38: "commit_modules_38 ops main ms w = commit_modules ops main ms w"
  by (induction ms arbitrary: w) (simp_all add: Let_def and_then_def split: prod.split outcome.split)

text \<open>
  Both versions of the methods do the same: the same answers to \<open>info\<close> and queries, the same genesis
  state and application hash, the same committed blocks, although the response to a commit no
  longer carries the hash. No block is ever processed under version 0.38, though: its one
  method for this panics whatever the request.
\<close>

theorem abci38_agrees:
  "info_38 ops app w = info ops app w \<and>
   init_chain_38 ops env app params genesis w =
     and_then (init_chain ops env app genesis w) (\<lambda>app_hash w. (Ok (params, app_hash), w)) \<and>
   query_38 ops env app request w = query ops env app request w \<and>
   commit_38 ops app w = and_then (commit ops app w) (\<lambda>app_hash w. (Ok 0, w)) \<and>
   finalize_block block w = (Panic, w)"
proof (intro conjI)
  show "info_38 ops app w = info ops app w"
    by (simp add: info_38_def info_def)
  show "init_chain_38 ops env app params genesis w =
     and_then (init_chain ops env app genesis w) (\<lambda>app_hash w. (Ok (params, app_hash), w))"
    by (simp add: init_chain_38_def init_chain_def write_and_read read_Ok and_then_def split: prod.split outcome.split option.split)
  show "query_38 ops env app request w = query ops env app request w"
    by (simp add: query_38_def query_def query_modules_38)
  show "commit_38 ops app w = and_then (commit ops app w) (\<lambda>app_hash w. (Ok 0, w))"
    by (simp add: commit_38_def commit_def commit_modules_38 and_then_def split: prod.split outcome.split)
  show "finalize_block block w = (Panic, w)"
    by (simp add: finalize_block_def)
qed

end
