(* ===== verification/Client.thy ===== *)
theory Client
  imports Full_Safety
begin

text \<open>
  The sending side: keys (\<open>basecoin/src/tx/key_pair.rs\<close>), signing and encoding of transactions
  (\<open>tx/mod.rs\<close>), \<open>Coin::from_str\<close> (\<open>modules/src/bank/util.rs\<close>), and the main program of
  \<open>bin/basecoin.rs\<close> with its configuration and commands. Key derivation, signatures, \<open>prost\<close> and the parsers of \<open>ibc-rs\<close> are parameters;
  so are the file that holds the seed, the account that the gRPC client answers and the RPC
  client, whose answers the functions take as arguments.
\<close>

text \<open>The operator \<open>?\<close> on a result without state.\<close>

fun try_ok :: "('e, 'a) outcome \<Rightarrow> ('a \<Rightarrow> ('e, 'b) outcome) \<Rightarrow> ('e, 'b) outcome" where
  "try_ok (Ok a) f = f a"
| "try_ok (Err e) f = Err e"
| "try_ok Panic f = Panic"
| "try_ok Diverge f = Diverge"

lemma try_ok_Ok: "try_ok r f = Ok b \<longleftrightarrow> (\<exists>a. r = Ok a \<and> f a = Ok b)"
  by (cases r) auto

section \<open>Keys\<close>

record key_file =
  kf_name :: string
  kf_type :: string
  kf_address :: string
  kf_pubkey :: string
  kf_mnemonic :: string

record ('pub, 'sec) key_pair =
  kp_public_key :: 'pub
  kp_private_key :: 'sec
  kp_account :: string
  kp_address :: bytes

definition key_pair_new :: "'pub \<Rightarrow> 'sec \<Rightarrow> string \<Rightarrow> bytes \<Rightarrow> ('pub, 'sec) key_pair" where
  "key_pair_new public_key private_key account address =
     \<lparr>kp_public_key = public_key, kp_private_key = private_key, kp_account = account, kp_address = address\<rparr>"

text \<open>A BIP-44 path, with the numbers as the \<open>hdpath\<close> crate holds them.\<close>

record hd_path =
  hd_purpose :: "32 word"
  hd_coin_type :: "32 word"
  hd_account :: "32 word"
  hd_change :: "32 word"
  hd_index :: "32 word"

record ('pub, 'sec, 'digest, 'mnemonic, 'xpriv, 'child) key_env =
  ke_read_file :: "string \<Rightarrow> (string, string) outcome"
  ke_parse_key_file :: "string \<Rightarrow> (string, key_file) outcome"
  ke_bech32 :: "string \<Rightarrow> (string, string \<times> bytes) outcome"
  ke_debug :: "string \<Rightarrow> string"
  ke_mnemonic :: "string \<Rightarrow> (string, 'mnemonic) outcome"
  ke_seed :: "'mnemonic \<Rightarrow> string \<Rightarrow> bytes"
  ke_new_master :: "bytes \<Rightarrow> (string, 'xpriv) outcome"
  ke_hardened :: "32 word \<Rightarrow> 'child option"
  ke_normal :: "32 word \<Rightarrow> 'child option"
  ke_derive :: "'xpriv \<Rightarrow> 'child list \<Rightarrow> (string, 'xpriv) outcome"
  ke_from_priv :: "'xpriv \<Rightarrow> 'pub"
  ke_private_key :: "'xpriv \<Rightarrow> 'sec"
  ke_sha256 :: "bytes \<Rightarrow> bytes"
  ke_from_digest :: "bytes \<Rightarrow> 'digest option"
  ke_sign_ecdsa :: "'digest \<Rightarrow> 'sec \<Rightarrow> bytes"
  ke_serialize :: "'pub \<Rightarrow> bytes"

definition decode_bech32 ::
  "('pub, 'sec, 'digest, 'mnemonic, 'xpriv, 'child) key_env \<Rightarrow> string \<Rightarrow> (('id, 'ie) app_error, bytes) outcome" where
  "decode_bech32 kenv input = map_ok snd (map_err
     (\<lambda>e. Custom (''failed to decode bech32 string '' @ ke_debug kenv input @ '': '' @ e)) (ke_bech32 kenv input))"

text \<open>Every component that is out of range is a panic.\<close>

definition standard_path_to_derivation_path ::
  "('pub, 'sec, 'digest, 'mnemonic, 'xpriv, 'child) key_env \<Rightarrow> hd_path \<Rightarrow> ('e, 'child list) outcome" where
  "standard_path_to_derivation_path kenv path =
     (case those [ke_hardened kenv (hd_purpose path), ke_hardened kenv (hd_coin_type path),
        ke_hardened kenv (hd_account path), ke_normal kenv (hd_change path), ke_normal kenv (hd_index path)] of
        None \<Rightarrow> Panic
      | Some child_numbers \<Rightarrow> Ok child_numbers)"

definition private_key_from_mnemonic ::
  "('pub, 'sec, 'digest, 'mnemonic, 'xpriv, 'child) key_env \<Rightarrow> string \<Rightarrow> hd_path \<Rightarrow>
   (('id, 'ie) app_error, 'xpriv) outcome" where
  "private_key_from_mnemonic kenv mnemonic path =
     try_ok (map_err (\<lambda>e. Custom (''failed to parse mnemonic: '' @ e)) (ke_mnemonic kenv mnemonic)) (\<lambda>mnemonic.
     try_ok (map_err (\<lambda>e. Custom (''failed to generate bip32 key: '' @ e))
       (ke_new_master kenv (ke_seed kenv mnemonic []))) (\<lambda>base_key.
     try_ok (standard_path_to_derivation_path kenv path) (\<lambda>child_numbers.
       map_err (\<lambda>e. Custom (''failed to generate private key from bip32 key: '' @ e))
         (ke_derive kenv base_key child_numbers))))"

definition from_seed_file ::
  "('pub, 'sec, 'digest, 'mnemonic, 'xpriv, 'child) key_env \<Rightarrow> string \<Rightarrow> hd_path \<Rightarrow>
   (('id, 'ie) app_error, ('pub, 'sec) key_pair) outcome" where
  "from_seed_file kenv file path =
     try_ok (map_err (\<lambda>e. Custom (''failed to read JSON seed file: '' @ e)) (ke_read_file kenv file)) (\<lambda>seed_json.
     try_ok (map_err (\<lambda>e. Custom (''failed to deserialize JSON seed file: '' @ e))
       (ke_parse_key_file kenv seed_json)) (\<lambda>key_file.
     try_ok (map_err (\<lambda>e. Custom (''failed to decode key file address: '' @
         app_error_display (\<lambda>_. []) (\<lambda>_. []) e))
       (decode_bech32 kenv (kf_address key_file) :: ((unit, unit) app_error, bytes) outcome)) (\<lambda>address.
     try_ok (map_err (\<lambda>e. Custom (''failed to derive private key from mnemonic: '' @
         app_error_display (\<lambda>_. []) (\<lambda>_. []) e))
       (private_key_from_mnemonic kenv (kf_mnemonic key_file) path :: ((unit, unit) app_error, 'xpriv) outcome))
       (\<lambda>xpriv. Ok (key_pair_new (ke_from_priv kenv xpriv) (ke_private_key kenv xpriv)
          (kf_address key_file) address)))))"

definition kp_sign ::
  "('pub, 'sec, 'digest, 'mnemonic, 'xpriv, 'child) key_env \<Rightarrow> ('pub, 'sec) key_pair \<Rightarrow> bytes \<Rightarrow>
   (('id, 'ie) app_error, bytes) outcome" where
  "kp_sign kenv key message = (case ke_from_digest kenv (ke_sha256 kenv message) of
     None \<Rightarrow> Err (Custom ''attempted to sign a malformed message'')
   | Some digest \<Rightarrow> Ok (ke_sign_ecdsa kenv digest (kp_private_key key)))"


section \<open>Transactions\<close>

text \<open>The protobuf messages of a transaction.\<close>

datatype mode_sum = ModeSingle "32 word" | ModeMulti

record raw_signer_info =
  rs_public_key :: "any option"
  rs_mode_info :: "mode_sum option option"
  rs_sequence :: u64

record fee =
  fee_amount :: "raw_coin list"
  fee_gas_limit :: u64
  fee_payer :: string
  fee_granter :: string

record tip =
  tip_amount :: "raw_coin list"
  tip_tipper :: string

record auth_info =
  ai_signer_infos :: "raw_signer_info list"
  ai_fee :: "fee option"
  ai_tip :: "tip option"

record tx_body =
  tb_messages :: "any list"
  tb_memo :: string
  tb_timeout_height :: u64
  tb_extension_options :: "any list"
  tb_non_critical_extension_options :: "any list"

record sign_doc =
  sd_body_bytes :: bytes
  sd_auth_info_bytes :: bytes
  sd_chain_id :: string
  sd_account_number :: u64

record tx_raw =
  tr_body_bytes :: bytes
  tr_auth_info_bytes :: bytes
  tr_signatures :: "bytes list"

text \<open>\<open>encode_to_vec\<close> of the messages; a \<open>Vec<u8>\<close> is encoded as a \<open>BytesValue\<close>.\<close>

record tx_codec =
  tc_bytes_value :: "bytes \<Rightarrow> bytes"
  tc_auth_info :: "auth_info \<Rightarrow> bytes"
  tc_tx_body :: "tx_body \<Rightarrow> bytes"
  tc_sign_doc :: "sign_doc \<Rightarrow> bytes"
  tc_tx_raw :: "tx_raw \<Rightarrow> bytes"

definition PUB_KEY_URL :: string where
  "PUB_KEY_URL = ''/cosmos.crypto.secp256k1.PubKey''"

definition encode_key_bytes ::
  "('pub, 'sec, 'digest, 'mnemonic, 'xpriv, 'child) key_env \<Rightarrow> tx_codec \<Rightarrow> ('pub, 'sec) key_pair \<Rightarrow>
   (('id, 'ie) app_error, bytes) outcome" where
  "encode_key_bytes kenv tc key = Ok (tc_bytes_value tc (ke_serialize kenv (kp_public_key key)))"

definition encode_signer_info :: "u64 \<Rightarrow> bytes \<Rightarrow> (('id, 'ie) app_error, raw_signer_info) outcome" where
  "encode_signer_info sequence key_bytes =
     Ok \<lparr>rs_public_key = Some \<lparr>type_url = PUB_KEY_URL, any_value = key_bytes\<rparr>,
         rs_mode_info = Some (Some (ModeSingle 1)), rs_sequence = sequence\<rparr>"

definition encode_auth_info ::
  "tx_codec \<Rightarrow> raw_signer_info \<Rightarrow> fee \<Rightarrow> (('id, 'ie) app_error, auth_info \<times> bytes) outcome" where
  "encode_auth_info tc signer_info fee =
     (let auth_info = \<lparr>ai_signer_infos = [signer_info], ai_fee = Some fee, ai_tip = None\<rparr>
      in Ok (auth_info, tc_auth_info tc auth_info))"

definition encode_sign_doc ::
  "('pub, 'sec, 'digest, 'mnemonic, 'xpriv, 'child) key_env \<Rightarrow> tx_codec \<Rightarrow> ('pub, 'sec) key_pair \<Rightarrow> bytes \<Rightarrow> bytes \<Rightarrow>
   string \<Rightarrow> u64 \<Rightarrow> (('id, 'ie) app_error, bytes) outcome" where
  "encode_sign_doc kenv tc key body_bytes auth_info_bytes chain_id account_number =
     (let doc = \<lparr>sd_body_bytes = body_bytes, sd_auth_info_bytes = auth_info_bytes, sd_chain_id = chain_id,
            sd_account_number = account_number\<rparr>
      in map_err (\<lambda>e. Custom (''failed to create signature: '' @ app_error_display (\<lambda>_. []) (\<lambda>_. []) e))
        (kp_sign kenv key (tc_sign_doc tc doc) :: ((unit, unit) app_error, bytes) outcome))"

definition encode_tx_body ::
  "tx_codec \<Rightarrow> any list \<Rightarrow> string \<Rightarrow> (('id, 'ie) app_error, tx_body \<times> bytes) outcome" where
  "encode_tx_body tc messages memo =
     (let body = \<lparr>tb_messages = messages, tb_memo = memo, tb_timeout_height = 0, tb_extension_options = [],
            tb_non_critical_extension_options = []\<rparr>
      in Ok (body, tc_tx_body tc body))"

definition encode_tx ::
  "tx_codec \<Rightarrow> bytes \<Rightarrow> bytes \<Rightarrow> bytes \<Rightarrow> (('id, 'ie) app_error, tx_raw \<times> bytes) outcome" where
  "encode_tx tc body_bytes auth_info_bytes signature_bytes =
     (let raw = \<lparr>tr_body_bytes = body_bytes, tr_auth_info_bytes = auth_info_bytes, tr_signatures = [signature_bytes]\<rparr>
      in Ok (raw, tc_tx_raw tc raw))"

definition sign_tx ::
  "('pub, 'sec, 'digest, 'mnemonic, 'xpriv, 'child) key_env \<Rightarrow> tx_codec \<Rightarrow> ('pub, 'sec) key_pair \<Rightarrow> string \<Rightarrow>
   base_account \<Rightarrow> any list \<Rightarrow> fee \<Rightarrow> string \<Rightarrow> (('id, 'ie) app_error, bytes) outcome" where
  "sign_tx kenv tc key chain_id account_info messages fee memo =
     try_ok (encode_key_bytes kenv tc key) (\<lambda>pk_bytes.
     try_ok (encode_signer_info (ba_sequence account_info) pk_bytes) (\<lambda>signer_info.
     try_ok (encode_auth_info tc signer_info fee) (\<lambda>(_, auth_info_bytes).
     try_ok (encode_tx_body tc messages memo) (\<lambda>(_, body_bytes).
     try_ok (encode_sign_doc kenv tc key body_bytes auth_info_bytes chain_id (ba_account_number account_info))
       (\<lambda>signature_bytes.
     try_ok (encode_tx tc body_bytes auth_info_bytes signature_bytes) (\<lambda>(_, tx_bytes). Ok tx_bytes))))))"


section \<open>Amounts on the command line\<close>

text \<open>The characters of a UTF-8 string, each with its continuation bytes.\<close>

function utf8_chars :: "string \<Rightarrow> string list" where
  "utf8_chars [] = []"
| "utf8_chars (c # s) =
     (c # takeWhile (\<lambda>b. continuation (of_char b)) s) # utf8_chars (dropWhile (\<lambda>b. continuation (of_char b)) s)"
  by pat_completeness auto

termination
  by (relation "measure length") (auto simp: le_imp_less_Suc length_dropWhile_le)

text \<open>\<open>splitn(2, char::is_alphabetic)\<close> splits at the first letter and drops it; \<open>alphabetic\<close> is the
  Unicode table, and \<open>parse\<close> the parser of \<open>U256\<close>. The error of a missing amount cannot occur.\<close>

definition coin_from_str ::
  "(string \<Rightarrow> bool) \<Rightarrow> (string \<Rightarrow> (string, u256) outcome) \<Rightarrow> string \<Rightarrow> (('id, 'ie) app_error, coin) outcome" where
  "coin_from_str alphabetic parse s =
     (let chars = utf8_chars s;
          before = takeWhile (\<lambda>c. \<not> alphabetic c) chars;
          from_letter = dropWhile (\<lambda>c. \<not> alphabetic c) chars
      in try_ok (map_err (\<lambda>e. Custom (''failed to parse amount: '' @ e)) (parse (concat before))) (\<lambda>amount.
         (case from_letter of
            [] \<Rightarrow> Err (Custom ''missing denom'')
          | letter # denom \<Rightarrow> Ok \<lparr>coin_denom = concat denom, coin_amount = amount\<rparr>)))"


section \<open>The command to recover a client\<close>

record tx_cmd =
  cm_subject_client_id :: string
  cm_substitute_client_id :: string
  cm_chain_id :: string
  cm_fee :: string
  cm_gas :: u64
  cm_memo :: string
  cm_derivation_path :: string
  cm_seed_file :: string

text \<open>\<open>ce_recover_any\<close> and \<open>ce_submit_any\<close> are \<open>to_any\<close> of \<open>ibc-rs\<close>, \<open>ce_chain_id\<close> parses an identifier
  and prints it.\<close>

record 'cid cli_env =
  ce_hd_path :: "string \<Rightarrow> hd_path option"
  ce_client_id :: "string \<Rightarrow> 'cid option"
  ce_recover_any :: "'cid \<Rightarrow> 'cid \<Rightarrow> string \<Rightarrow> any"
  ce_submit_any :: "raw_msg_submit_proposal \<Rightarrow> any"
  ce_chain_id :: "string \<Rightarrow> string option"
  ce_alphabetic :: "string \<Rightarrow> bool"
  ce_parse_u256 :: "string \<Rightarrow> (string, u256) outcome"
  ce_grpc_uri :: "string \<Rightarrow> string option"
  ce_connect :: "string \<Rightarrow> (string, unit) outcome"
  ce_account :: "string \<Rightarrow> (string, any option) outcome"
  ce_decode_account :: "bytes \<Rightarrow> (string, base_account) outcome"
  ce_rpc_client :: "string \<Rightarrow> unit option"
  ce_broadcast :: "bytes \<Rightarrow> (string, unit) outcome"

definition query_account ::
  "'cid cli_env \<Rightarrow> string \<Rightarrow> string \<Rightarrow> (('id, 'ie) app_error, base_account) outcome" where
  "query_account cenv grpc_addr address =
     try_ok (map_err (\<lambda>e. Custom (''failed to connect to gRPC client: '' @ e)) (ce_connect cenv grpc_addr)) (\<lambda>_.
     try_ok (map_err (\<lambda>e. Custom (''failed to query account: '' @ e)) (ce_account cenv address)) (\<lambda>response.
     (case response of
        None \<Rightarrow> Err (Custom ''failed to find account'')
      | Some account \<Rightarrow> map_err (\<lambda>e. Custom (''failed to decode account: '' @ e))
          (ce_decode_account cenv (any_value account)))))"

definition send_tx :: "'cid cli_env \<Rightarrow> string \<Rightarrow> bytes \<Rightarrow> (('id, 'ie) app_error, unit) outcome" where
  "send_tx cenv rpc_addr signed_tx = (case ce_rpc_client cenv rpc_addr of
     None \<Rightarrow> Panic
   | Some client \<Rightarrow> map_err (\<lambda>e. Custom (''failed to broadcast tx: '' @ e)) (ce_broadcast cenv signed_tx))"

definition recover_proposal :: "'cid cli_env \<Rightarrow> 'cid \<Rightarrow> 'cid \<Rightarrow> string \<Rightarrow> msg_submit_proposal" where
  "recover_proposal cenv subject substitute account =
     \<lparr>ms_content = ce_recover_any cenv subject substitute account,
      ms_initial_deposit = new_empty ''basecoin'', ms_proposer = account\<rparr>"

text \<open>How the command ends: the transaction has been broadcast, or the process exits with an error.\<close>

datatype tx_end = Broadcast bytes | ExitFailure

fun or_exit :: "((unit, unit) app_error, 'a) outcome \<Rightarrow> ('a \<Rightarrow> (infallible, tx_end) outcome) \<Rightarrow> (infallible, tx_end) outcome" where
  "or_exit (Ok a) f = f a"
| "or_exit (Err e) f = Ok ExitFailure"
| "or_exit Panic f = Panic"
| "or_exit Diverge f = Diverge"

definition tx_command ::
  "('pub, 'sec, 'digest, 'mnemonic, 'xpriv, 'child) key_env \<Rightarrow> tx_codec \<Rightarrow> 'cid cli_env \<Rightarrow> string \<Rightarrow> string \<Rightarrow> 16 word \<Rightarrow>
   tx_cmd \<Rightarrow> (infallible, tx_end) outcome" where
  "tx_command kenv tc cenv rpc_addr host grpc_port c =
     (case ce_hd_path cenv (cm_derivation_path c) of
        None \<Rightarrow> Panic
      | Some path \<Rightarrow> or_exit (from_seed_file kenv (cm_seed_file c) path) (\<lambda>key_pair.
     (case (ce_client_id cenv (cm_subject_client_id c), ce_client_id cenv (cm_substitute_client_id c)) of
        (Some subject, Some substitute) \<Rightarrow>
          (let msg = ce_submit_any cenv (msg_into_raw (recover_proposal cenv subject substitute (kp_account key_pair))) in
          (case ce_chain_id cenv (cm_chain_id c) of
             None \<Rightarrow> Panic
           | Some chain_id \<Rightarrow>
               try_ok (unwrap (coin_from_str (ce_alphabetic cenv) (ce_parse_u256 cenv) (cm_fee c) ::
                 ((unit, unit) app_error, coin) outcome)) (\<lambda>amount.
               (case ce_grpc_uri cenv (''http://'' @ host @ '':'' @ dec_string (unat grpc_port)) of
                  None \<Rightarrow> Panic
                | Some grpc_addr \<Rightarrow>
                    or_exit (query_account cenv grpc_addr (kp_account key_pair)) (\<lambda>account_info.
                    or_exit (sign_tx kenv tc key_pair chain_id account_info [msg]
                        \<lparr>fee_amount = [coin_into_raw amount], fee_gas_limit = cm_gas c, fee_payer = [], fee_granter = []\<rparr>
                        (cm_memo c)) (\<lambda>signed_tx.
                    or_exit (send_tx cenv rpc_addr signed_tx) (\<lambda>_. Ok (Broadcast signed_tx))))))))
      | _ \<Rightarrow> Panic)))"



section \<open>The query for the upgrade plan\<close>

text \<open>\<open>modules/src/upgrade/query.rs\<close>. \<open>new_client\<close> and \<open>abci_query\<close> are the RPC client; only the
  value of the response is looked at, and decoding it is unwrapped.\<close>

definition query_upgrade_plan ::
  "(string \<Rightarrow> unit option) \<Rightarrow> (string option \<Rightarrow> bytes \<Rightarrow> u64 option \<Rightarrow> bool \<Rightarrow> (string, response_query) outcome) \<Rightarrow>
   (bytes \<Rightarrow> 'plan option) \<Rightarrow> string \<Rightarrow> (('id, 'ie) app_error, 'plan) outcome" where
  "query_upgrade_plan new_client abci_query decode_plan rpc_addr =
     (case new_client rpc_addr of
        None \<Rightarrow> Panic
      | Some rpc_client \<Rightarrow>
          try_ok (map_err Custom (abci_query (Some UPGRADE_PLAN_QUERY_PATH) (string_bytes sdk_pending_path) None False))
            (\<lambda>response. (case decode_plan (rp_value response) of None \<Rightarrow> Panic | Some plan \<Rightarrow> Ok plan)))"


section \<open>The main program\<close>

text \<open>\<open>src/config.rs\<close>, \<open>src/cli/command.rs\<close> and \<open>src/bin/basecoin.rs\<close>. The command line arrives parsed.\<close>

datatype log_level = Trace | Debug | Info | Warn | Error

datatype level_filter = OFF | TRACE | DEBUG | INFO | WARN | ERROR

fun log_level_into :: "log_level \<Rightarrow> level_filter" where
  "log_level_into Trace = TRACE"
| "log_level_into Debug = DEBUG"
| "log_level_into Info = INFO"
| "log_level_into Warn = WARN"
| "log_level_into Error = ERROR"

record server_config =
  sc_host :: string
  sc_port :: "16 word"
  sc_grpc_port :: "16 word"
  sc_read_buf_size :: nat

record cometbft_config =
  cc_rpc_addr :: string
  cc_grpc_addr :: string

record config =
  cf_log_level :: log_level
  cf_server :: server_config
  cf_cometbft :: cometbft_config

definition load_config ::
  "(string \<Rightarrow> (string, string) outcome) \<Rightarrow> (string \<Rightarrow> (string, config) outcome) \<Rightarrow> string \<Rightarrow>
   (('id, 'ie) app_error, config) outcome" where
  "load_config read_file parse_toml path =
     try_ok (map_err Custom (read_file path)) (\<lambda>config_toml. map_err Custom (parse_toml config_toml))"

datatype commands = Start | QueryUpgradePlan | Tx tx_cmd

record basecoin_cli =
  cli_command :: commands
  cli_config :: string
  cli_verbose :: bool
  cli_quiet :: bool

definition max_log_level :: "basecoin_cli \<Rightarrow> config \<Rightarrow> level_filter" where
  "max_log_level cli cfg =
     (if cli_quiet cli then OFF else if cli_verbose cli then TRACE else log_level_into (cf_log_level cfg))"

text \<open>What the process does: run the node with a configuration, print a plan, or the end of the
  transaction command.\<close>

datatype 'plan main_end = RunNode server_config | PrintPlan 'plan | TxCommand tx_end

definition basecoin_main ::
  "('pub, 'sec, 'digest, 'mnemonic, 'xpriv, 'child) key_env \<Rightarrow> tx_codec \<Rightarrow> 'cid cli_env \<Rightarrow>
   (string \<Rightarrow> (string, string) outcome) \<Rightarrow> (string \<Rightarrow> (string, config) outcome) \<Rightarrow>
   (string option \<Rightarrow> bytes \<Rightarrow> u64 option \<Rightarrow> bool \<Rightarrow> (string, response_query) outcome) \<Rightarrow>
   (bytes \<Rightarrow> 'plan option) \<Rightarrow> basecoin_cli \<Rightarrow> (infallible, level_filter \<times> 'plan main_end) outcome" where
  "basecoin_main kenv tc cenv read_file parse_toml abci_query decode_plan cli =
     try_ok (unwrap (load_config read_file parse_toml (cli_config cli) :: ((unit, unit) app_error, config) outcome)) (\<lambda>cfg.
     map_ok (Pair (max_log_level cli cfg)) (case cli_command cli of
       Start \<Rightarrow> Ok (RunNode (cf_server cfg))
     | QueryUpgradePlan \<Rightarrow> map_ok PrintPlan (unwrap (query_upgrade_plan (ce_rpc_client cenv) abci_query decode_plan
           (cc_rpc_addr (cf_cometbft cfg)) :: ((unit, unit) app_error, 'plan) outcome))
     | Tx c \<Rightarrow> map_ok TxCommand (tx_command kenv tc cenv (cc_rpc_addr (cf_cometbft cfg)) (sc_host (cf_server cfg))
           (sc_grpc_port (cf_server cfg)) c)))"

text \<open>\<open>src/helper.rs\<close>: access to a module of an application by its name; \<open>downcast\<close> is the downcast to
  the type of the module.\<close>

definition helper_module ::
  "ident \<Rightarrow> ((('s, 'y) heap_scheme, 'id, 'ie, 'ev, 'h, 'j) module_ops \<Rightarrow> 'm option) \<Rightarrow>
   ('s, 'y, 'id, 'ie, 'ev, 'h, 'j) app \<Rightarrow> (infallible, 'm) outcome" where
  "helper_module prefix downcast app =
     (case Option.bind (find (\<lambda>m. mod_id m = prefix) (app_modules app)) (\<lambda>m. downcast (mod_ops m)) of
        None \<Rightarrow> Panic
      | Some m \<Rightarrow> Ok m)"

definition helper_ibc where
  "helper_ibc downcast app = helper_module ibc_prefix downcast app"

definition helper_bank where
  "helper_bank downcast app = helper_module bank_prefix downcast app"

end
