(* ===== verification/Client_Laws.thy ===== *)
theory Client_Laws
  imports Client
begin

text \<open>
  What becomes of the client's transactions on the node: the amounts it reads, the transactions
  it signs and the proposal it sends.
\<close>

section \<open>Amounts\<close>

lemma utf8_chars_ascii: "\<forall>c \<in> set s. of_char c < (128 :: nat) \<Longrightarrow> utf8_chars s = map (\<lambda>c. [c]) s"
proof (induction s)
  case (Cons c s)
  have "\<not> continuation (of_char b)" if "b \<in> set s" for b
  proof -
    have "of_char b < (128 :: nat)" using Cons.prems that by simp
    then have "unat (of_char b :: u8) < 128" by (simp add: unat_of_char)
    then show ?thesis by (simp add: continuation_def word_le_nat_alt)
  qed
  then have "takeWhile (\<lambda>b. continuation (of_char b)) s = []" "dropWhile (\<lambda>b. continuation (of_char b)) s = s"
    by (cases s; simp)+
  then show ?case using Cons by simp
qed simp

text \<open>
  C32. An amount on the command line loses the first letter of its denomination: the string is split at
  the first letter, and the letter belongs to neither part. So \<open>4000basecoin\<close>, the default fee,
  is read as an amount of \<open>asecoin\<close>.
\<close>

theorem coin_from_str_drops_letter:
  assumes ascii: "\<forall>c \<in> set (amount @ letter # denom). of_char c < (128 :: nat)"
    and table: "alphabetic [letter]" "\<forall>c \<in> set amount. \<not> alphabetic [c]"
  shows "coin_from_str alphabetic parse (amount @ letter # denom) =
     try_ok (map_err (\<lambda>e. Custom (''failed to parse amount: '' @ e)) (parse amount))
       (\<lambda>n. Ok \<lparr>coin_denom = denom, coin_amount = n\<rparr>)"
proof -
  have chars: "utf8_chars (amount @ letter # denom) = map (\<lambda>c. [c]) amount @ [letter] # map (\<lambda>c. [c]) denom"
    using utf8_chars_ascii [OF ascii] by simp
  have "takeWhile (\<lambda>c. \<not> alphabetic c) (map (\<lambda>c. [c]) amount @ [letter] # map (\<lambda>c. [c]) denom) = map (\<lambda>c. [c]) amount"
    "dropWhile (\<lambda>c. \<not> alphabetic c) (map (\<lambda>c. [c]) amount @ [letter] # map (\<lambda>c. [c]) denom) =
      [letter] # map (\<lambda>c. [c]) denom"
    using table by (induction amount) auto
  moreover have "concat (map (\<lambda>c. [c]) xs) = xs" for xs :: string by (induction xs) auto
  ultimately show ?thesis by (simp only: coin_from_str_def Let_def chars list.case)
qed

theorem coin_from_str_drops_letter_witness:
  "coin_from_str (\<lambda>c. c \<noteq> [] \<and> hd c \<in> set ''abcdefghijklmnopqrstuvwxyz'') (\<lambda>s. Ok (if s = ''4000'' then 16384 else 0))
     ''4000basecoin'' = (Ok \<lparr>coin_denom = ''asecoin'', coin_amount = 16384\<rparr> :: ((string, unit) app_error, coin) outcome)"
  using coin_from_str_drops_letter [of "''4000''" "CHR ''b''" "''asecoin''"
      "\<lambda>c. c \<noteq> [] \<and> hd c \<in> set ''abcdefghijklmnopqrstuvwxyz''" "\<lambda>s. Ok (if s = ''4000'' then 16384 else 0)"]
  by simp


section \<open>What the node reads of a transaction\<close>

definition client_body :: "any list \<Rightarrow> string \<Rightarrow> tx_body" where
  "client_body messages memo = \<lparr>tb_messages = messages, tb_memo = memo, tb_timeout_height = 0,
     tb_extension_options = [], tb_non_critical_extension_options = []\<rparr>"

definition client_auth ::
  "('pub, 'sec, 'digest, 'mnemonic, 'xpriv, 'child) key_env \<Rightarrow> tx_codec \<Rightarrow> ('pub, 'sec) key_pair \<Rightarrow> u64 \<Rightarrow> fee \<Rightarrow>
   auth_info" where
  "client_auth kenv tc key sequence fee = \<lparr>ai_signer_infos = [\<lparr>rs_public_key = Some \<lparr>type_url = PUB_KEY_URL,
       any_value = tc_bytes_value tc (ke_serialize kenv (kp_public_key key))\<rparr>,
     rs_mode_info = Some (Some (ModeSingle 1)), rs_sequence = sequence\<rparr>], ai_fee = Some fee, ai_tip = None\<rparr>"

text \<open>The decoder of the node, from the crate \<open>cosmrs\<close>, reads back everything in a transaction with
  one signature; \<open>key_of\<close> is its reading of a public key and \<open>fee_of\<close> of a fee.\<close>

definition reads_back ::
  "tx_codec \<Rightarrow> ('id, 'pk, 'ie, 'rh, 'h, 'j) app_env \<Rightarrow> (any \<Rightarrow> 'pk signer_public_key) \<Rightarrow> (fee \<Rightarrow> tx_fee) \<Rightarrow>
   tx_body \<Rightarrow> auth_info \<Rightarrow> bool" where
  "reads_back tc xenv key_of fee_of body auth \<longleftrightarrow> (\<forall>signature.
     ap_decode_tx xenv (tc_tx_raw tc \<lparr>tr_body_bytes = tc_tx_body tc body,
         tr_auth_info_bytes = tc_auth_info tc auth, tr_signatures = [signature]\<rparr>) =
       Ok \<lparr>tx_signer_infos = map (\<lambda>s. \<lparr>si_public_key = map_option key_of (rs_public_key s),
             si_sequence = rs_sequence s\<rparr>) (ai_signer_infos auth),
           tx_messages = tb_messages body, tx_memo = tb_memo body, tx_timeout_height = tb_timeout_height body,
           tx_fee = map_option fee_of (ai_fee auth), tx_signatures = [signature]\<rparr>)"

lemma sign_tx_Ok:
  assumes "sign_tx kenv tc key chain_id account messages fee memo = Ok request"
  obtains signature_bytes where "request = tc_tx_raw tc
      \<lparr>tr_body_bytes = tc_tx_body tc (client_body messages memo),
       tr_auth_info_bytes = tc_auth_info tc (client_auth kenv tc key (ba_sequence account) fee),
       tr_signatures = [signature_bytes]\<rparr>"
  using assms
  by (auto simp: sign_tx_def try_ok_Ok encode_key_bytes_def encode_signer_info_def encode_auth_info_def
      encode_tx_body_def encode_tx_def client_body_def client_auth_def Let_def)

lemma decode_signed:
  assumes "sign_tx kenv tc key chain_id account messages fee memo = Ok request"
    and "reads_back tc xenv key_of fee_of (client_body messages memo) (client_auth kenv tc key (ba_sequence account) fee)"
  obtains signature where "ap_decode_tx xenv request = Ok \<lparr>tx_signer_infos = [\<lparr>si_public_key =
        Some (key_of \<lparr>type_url = PUB_KEY_URL, any_value = tc_bytes_value tc (ke_serialize kenv (kp_public_key key))\<rparr>),
      si_sequence = ba_sequence account\<rparr>], tx_messages = messages, tx_memo = memo, tx_timeout_height = 0,
      tx_fee = Some (fee_of fee), tx_signatures = [signature]\<rparr>"
proof (rule sign_tx_Ok [OF assms(1)])
  fix signature
  assume "request = tc_tx_raw tc \<lparr>tr_body_bytes = tc_tx_body tc (client_body messages memo),
    tr_auth_info_bytes = tc_auth_info tc (client_auth kenv tc key (ba_sequence account) fee),
    tr_signatures = [signature]\<rparr>"
  with assms(2) show thesis by (intro that) (simp add: reads_back_def client_body_def client_auth_def)
qed

text \<open>What \<open>deliver_tx\<close> reads of a transaction.\<close>

lemma deliver_tx_reads:
  assumes "ap_decode_tx xenv request = Ok tx" and "ap_decode_tx xenv request' = Ok tx'"
    and "map si_public_key (tx_signer_infos tx') = map si_public_key (tx_signer_infos tx)"
    and "tx_messages tx' = tx_messages tx"
  shows "deliver_tx ops xenv app request' w = deliver_tx ops xenv app request w"
proof -
  have "first_signer xenv tx' = first_signer xenv tx"
    using assms(3) by (cases "tx_signer_infos tx"; cases "tx_signer_infos tx'") (simp_all add: first_signer_def)
  then show ?thesis unfolding deliver_tx_def assms(1,2,4) outcome.case by simp
qed

text \<open>
  C13. A transaction is worth what its public key is worth: although the node has decoded the
  signature, the sequence number, the fee, the memo and the timeout of a transaction, it treats every
  transaction with the same public key and the same messages alike, whatever the private key that
  signed it, the chain it was signed for, the account and sequence numbers, the fee and the memo. So
  anybody who knows the public key of an account can act for it, and a transaction can be replayed.
\<close>

theorem signature_ignored:
  assumes "sign_tx kenv tc key chain_id account messages fee memo = Ok request"
    and "sign_tx kenv tc key' chain_id' account' messages fee' memo' = Ok request'"
    and "kp_public_key key' = kp_public_key key"
    and "reads_back tc xenv key_of fee_of (client_body messages memo) (client_auth kenv tc key (ba_sequence account) fee)"
    and "reads_back tc xenv key_of fee_of (client_body messages memo')
      (client_auth kenv tc key' (ba_sequence account') fee')"
  shows "\<exists>tx tx'. ap_decode_tx xenv request = Ok tx \<and> ap_decode_tx xenv request' = Ok tx' \<and>
     map si_sequence (tx_signer_infos tx) = [ba_sequence account] \<and>
     map si_sequence (tx_signer_infos tx') = [ba_sequence account'] \<and>
     tx_memo tx = memo \<and> tx_memo tx' = memo' \<and> tx_fee tx = Some (fee_of fee) \<and> tx_fee tx' = Some (fee_of fee') \<and>
     length (tx_signatures tx) = 1 \<and> length (tx_signatures tx') = 1 \<and>
     deliver_tx ops xenv app request' w = deliver_tx ops xenv app request w"
proof -
  let ?any = "\<lparr>type_url = PUB_KEY_URL, any_value = tc_bytes_value tc (ke_serialize kenv (kp_public_key key))\<rparr>"
  let ?tx = "\<lambda>n memo fee signature. \<lparr>tx_signer_infos = [\<lparr>si_public_key = Some (key_of ?any), si_sequence = n\<rparr>],
      tx_messages = messages, tx_memo = memo, tx_timeout_height = 0, tx_fee = Some (fee_of fee),
      tx_signatures = [signature]\<rparr>"
  obtain s where s: "ap_decode_tx xenv request = Ok (?tx (ba_sequence account) memo fee s)"
    by (rule decode_signed [OF assms(1,4)])
  obtain s' where s': "ap_decode_tx xenv request' = Ok (?tx (ba_sequence account') memo' fee' s')"
    by (rule decode_signed [OF assms(2,5), unfolded assms(3)])
  show ?thesis
    using s s' deliver_tx_reads [OF s s', of ops app w]
    by (intro exI [of _ "?tx (ba_sequence account) memo fee s"] exI [of _ "?tx (ba_sequence account') memo' fee' s'"]) simp
qed


section \<open>The proposal to recover a client\<close>

lemma or_exit_Broadcast: "or_exit r f = Ok (Broadcast b) \<longleftrightarrow> (\<exists>a. r = Ok a \<and> f a = Ok (Broadcast b))"
  by (cases r) auto

lemma unwrap_Ok: "unwrap r = Ok a \<longleftrightarrow> r = Ok a"
  by (cases r) auto

lemma tx_command_Broadcast:
  fixes kenv :: "('pub, 'sec, 'digest, 'mnemonic, 'xpriv, 'child) key_env"
  assumes "tx_command kenv tc cenv rpc_addr host grpc_port c = Ok (Broadcast request)"
    and "ce_hd_path cenv (cm_derivation_path c) = Some path"
    and "(from_seed_file kenv (cm_seed_file c) path :: ((unit, unit) app_error, ('pub, 'sec) key_pair) outcome) = Ok key"
    and "ce_client_id cenv (cm_subject_client_id c) = Some subject"
    and "ce_client_id cenv (cm_substitute_client_id c) = Some substitute"
  obtains chain_id account fee where "(sign_tx kenv tc key chain_id account
      [ce_submit_any cenv (msg_into_raw (recover_proposal cenv subject substitute (kp_account key)))] fee
      (cm_memo c) :: ((unit, unit) app_error, bytes) outcome) = Ok request"
  using assms
  by (auto simp: tx_command_def Let_def or_exit_Broadcast try_ok_Ok unwrap_Ok split: option.splits)

lemma and_then_not_skipped:
  assumes "\<And>x. f x \<noteq> NotHandled" and "\<And>x v. fst (g x v) \<noteq> Err NotHandled"
  shows "fst (and_then (map_err f r, v) g) \<noteq> Err NotHandled"
  using assms by (cases r) auto

lemma recover_not_skipped: "fst (deliver_recover_client iops env genv m w) \<noteq> Err NotHandled"
proof (cases "ge_decode_recover genv (any_value (ms_content m))")
  case (Some x)
  have "fst (case run p q v of (r, v) \<Rightarrow> and_then (map_err (\<lambda>e. GovErr (f e)) r, v) (\<lambda>_ w. (Ok [], w))) \<noteq> Err NotHandled"
    for p q v f by (cases "run p q v") (simp add: and_then_not_skipped)
  then show ?thesis
    unfolding deliver_recover_client_def Some option.case by (intro and_then_not_skipped) simp_all
qed (simp add: deliver_recover_client_def)

lemma deliver_loop_taken:
  assumes "md_deliver (mod_ops m) message signer w = r" and "fst r \<noteq> Err NotHandled"
  shows "deliver_loop (m # ms) message signer w = r"
  using assms by (cases "fst r"; cases r) auto

text \<open>
  C14. From the command line to the governance module: when the command to recover a client has
  broadcast its transaction and the account of its key is known to the node, the node executes
  exactly the recovery that the user asked for, on behalf of the account named in the seed
  file. The transaction succeeds when the recovery does, and is rolled back with code 2 when
  it fails.
\<close>

theorem recover_command_executed:
  fixes w :: "(in_memory, 'tcons, 'iev, 'y) gov_heap_scheme"
    and xenv :: "('id, 'pk, 'ie, 'rh, 'tm header, 'j) app_env"
    and kenv :: "('pub, 'sec, 'digest, 'mnemonic, 'xpriv, 'child) key_env"
  assumes cmd: "tx_command kenv tc cenv rpc_addr host grpc_port c = Ok (Broadcast request)"
    and key: "ce_hd_path cenv (cm_derivation_path c) = Some path"
      "(from_seed_file kenv (cm_seed_file c) path :: ((unit, unit) app_error, ('pub, 'sec) key_pair) outcome) = Ok key"
    and ids: "ce_client_id cenv (cm_subject_client_id c) = Some subject"
      "ce_client_id cenv (cm_substitute_client_id c) = Some substitute"
    and proposal: "proposal = recover_proposal cenv subject substitute (kp_account key)"
    and msg: "msg = ce_submit_any cenv (msg_into_raw proposal)"
    and reads: "\<And>memo sequence fee. reads_back tc xenv key_of fee_of (client_body [msg] memo) (client_auth kenv tc key sequence fee)"
    and signer: "key_of \<lparr>type_url = PUB_KEY_URL,
        any_value = tc_bytes_value tc (ke_serialize kenv (kp_public_key key))\<rparr> = Single pk"
      "ap_account_id xenv pk ACCOUNT_PREFIX = Some signer"
    and gov: "type_url msg = MSG_TYPE_URL" "ge_decode_msg genv (any_value msg) = Ok (msg_into_raw proposal)"
      "ge_from_radix_10 genv (dec_string 0) = Ok 0"
      "type_url (ms_content proposal) = ge_recover_url genv" "ge_recover_url genv \<noteq> ge_upgrade_url genv"
    and other: "me_envelope menv msg = None" "me_transfer menv msg = None"
    and aenv: "auth_env_ok aenv" and w: "heap_ok sha w"
    and keyed: "accounts_keyed (auth_store sha a) aenv w"
    and known: "get_account (auth_store sha a) aenv signer w = Ok account"
  shows "\<exists>w1. pending_only sha {auth_address a} w w1 \<and> heap.more w1 = heap.more w \<and>
     (case deliver_recover_client (ibc_store sha (ibc_address a)) ienv genv proposal w1
         :: (('id, 'ie) app_error, 'ev list) outcome \<times> (in_memory, 'tcons, 'iev, 'y) gov_heap_scheme of
        (Ok events, w2) \<Rightarrow> (\<exists>resp w'. deliver_tx (in_memory_ops sha) xenv
            (full_app sha aenv benv ienv tenv menv uenv genv a) request w = (Ok resp, w') \<and> rd_code resp = 0 \<and>
            rd_events resp = events \<and> cell w' = applied (stores_of (full_app sha aenv benv ienv tenv menv uenv genv a)) w2)
      | (Err e, w2) \<Rightarrow> (\<exists>resp w'. deliver_tx (in_memory_ops sha) xenv
            (full_app sha aenv benv ienv tenv menv uenv genv a) request w = (Ok resp, w') \<and> rd_code resp = 2 \<and>
            cell w' = rolled_back (stores_of (full_app sha aenv benv ienv tenv menv uenv genv a)) w)
      | (Panic, w2) \<Rightarrow> fst (deliver_tx (in_memory_ops sha) xenv
            (full_app sha aenv benv ienv tenv menv uenv genv a) request w) = Panic
      | (Diverge, w2) \<Rightarrow> fst (deliver_tx (in_memory_ops sha) xenv
            (full_app sha aenv benv ienv tenv menv uenv genv a) request w) = Diverge)"
proof -
  let ?app = "full_app sha aenv benv ienv tenv menv uenv genv a"
  obtain chain_id account' fee where signed: "(sign_tx kenv tc key chain_id account' [msg] fee (cm_memo c) ::
      ((unit, unit) app_error, bytes) outcome) = Ok request"
    using tx_command_Broadcast [OF cmd key ids] unfolding msg proposal by blast
  obtain signature where decoded: "ap_decode_tx xenv request = Ok \<lparr>tx_signer_infos =
        [\<lparr>si_public_key = Some (Single pk), si_sequence = ba_sequence account'\<rparr>],
      tx_messages = [msg], tx_memo = cm_memo c, tx_timeout_height = 0, tx_fee = Some (fee_of fee),
      tx_signatures = [signature]\<rparr>" (is "_ = Ok ?tx")
    by (rule decode_signed [OF signed reads, unfolded signer(1)])
  then have tx: "ap_decode_tx xenv request = Ok ?tx" "first_signer xenv ?tx = Inr signer" "tx_messages ?tx \<noteq> []"
    by (simp_all add: signer(2) first_signer_def)
  have "type_url msg \<noteq> ''/cosmos.bank.v1beta1.MsgSend''" using gov(1) by (simp add: MSG_TYPE_URL_def)
  then obtain w1 where w1: "pending_only sha {auth_address a} w w1" "heap.more w1 = heap.more w"
    and reach: "deliver_msg ?app msg signer w = deliver_loop (tl (full_rest sha benv ienv tenv menv uenv genv a)) msg signer w1"
    by (rule reaches_gov [OF aenv w keyed known _ other])
  let ?run = "deliver_recover_client (ibc_store sha (ibc_address a)) ienv genv proposal w1
      :: (('id, 'ie) app_error, 'ev list) outcome \<times> (in_memory, 'tcons, 'iev, 'y) gov_heap_scheme"
  have content: "type_url (ms_content proposal) \<noteq> ge_upgrade_url genv" using gov(4,5) by simp
  have "(msg_try_from_any genv msg :: (('id, 'ie) app_error, msg_submit_proposal) outcome) = Ok proposal"
    by (simp add: msg_try_from_any_def gov(1,2) msg_try_from_def msg_into_raw_def coin_into_raw_def coin_try_from_def
        proposal recover_proposal_def new_empty_def gov(3))
  then have "md_deliver (gov_module (in_memory_ops sha) (ibc_address a) (upgrade_address a) (gov_address a) ienv uenv genv)
      msg signer w1 = ?run"
    using gov(4) content by (simp add: gov_module_def gov_deliver_def)
  then have d: "deliver_msg ?app msg signer w = ?run"
    unfolding reach full_rest_def list.sel by (intro deliver_loop_taken recover_not_skipped) simp_all
  obtain r w2 where run: "?run = (r, w2)" by (cases ?run)
  have dm: "deliver_messages ?app (tx_messages ?tx) signer [] w = (r, w2)"
    by (cases r) (simp_all add: d run)
  have "case r of
      Ok events \<Rightarrow> \<exists>resp w'. deliver_tx (in_memory_ops sha) xenv ?app request w = (Ok resp, w') \<and> rd_code resp = 0 \<and>
        rd_events resp = events \<and> cell w' = applied (stores_of ?app) w2
    | Err e \<Rightarrow> \<exists>resp w'. deliver_tx (in_memory_ops sha) xenv ?app request w = (Ok resp, w') \<and> rd_code resp = 2 \<and>
        cell w' = rolled_back (stores_of ?app) w
    | Panic \<Rightarrow> fst (deliver_tx (in_memory_ops sha) xenv ?app request w) = Panic
    | Diverge \<Rightarrow> fst (deliver_tx (in_memory_ops sha) xenv ?app request w) = Diverge"
  proof (cases r)
    case (Ok events)
    obtain w' resp where "deliver_tx (in_memory_ops sha) xenv ?app request w = (Ok resp, w')" "rd_code resp = 0"
      "rd_events resp = events" "cell w' = applied (stores_of ?app) w2"
      by (rule full.deliver_succeeded [OF w tx dm [unfolded Ok]])
    then show ?thesis using Ok by simp
  next
    case (Err e)
    obtain w' resp where "deliver_tx (in_memory_ops sha) xenv ?app request w = (Ok resp, w')" "rd_code resp = 2"
      "cell w' = rolled_back (stores_of ?app) w"
      by (rule full.deliver_failed [OF w tx dm [unfolded Err]])
    then show ?thesis using Err by simp
  qed (use dm tx in \<open>simp_all add: deliver_tx_def\<close>)
  then show ?thesis using w1 run by (intro exI [of _ w1]) simp
qed


section \<open>The plan that the user sees\<close>

definition node_query ::
  "('s, 'e, 'z) provable_ops_scheme \<Rightarrow> ('id, 'pk, 'ie, 'rh, 'h, 'j) app_env \<Rightarrow>
   ('s, 'y, 'id, 'ie, 'ev, 'h, 'j) app \<Rightarrow> ('s, 'y) heap_scheme \<Rightarrow>
   string option \<Rightarrow> bytes \<Rightarrow> u64 option \<Rightarrow> bool \<Rightarrow> (string, response_query) outcome" where
  "node_query ops xenv app w path data height prove = (case query ops xenv app
       \<lparr>rq_data = data, rq_path = unwrap_or [] path, rq_height = unwrap_or 0 height, rq_prove = prove\<rparr> w of
     Ok r \<Rightarrow> Ok r
   | _ \<Rightarrow> Err ''no response'')"

lemma plan_query_skips:
  assumes "me_query_path menv \<noteq> UPGRADE_PLAN_QUERY_PATH"
  shows "md_query (runner_bank sha aenv benv a) (string_bytes sdk_pending_path) p h prove w = Err NotHandled"
    and "md_query (ibc_module sha i b ienv benv tenv menv) d (Some (path_from_string UPGRADE_PLAN_QUERY_PATH)) h prove w =
      Err NotHandled"
    and "md_query (gov_module ops i u g ienv uenv genv) d (Some (path_from_string UPGRADE_PLAN_QUERY_PATH)) h prove w =
      Err NotHandled"
proof -
  have "from_utf8 (string_bytes sdk_pending_path) = Ok sdk_pending_path" by code_simp
  moreover have "take (length ACCOUNT_PREFIX) sdk_pending_path \<noteq> ACCOUNT_PREFIX" by code_simp
  ultimately show "md_query (runner_bank sha aenv benv a) (string_bytes sdk_pending_path) p h prove w = Err NotHandled"
    by (rule runner_queries(2))
  show "md_query (ibc_module sha i b ienv benv tenv menv) d (Some (path_from_string UPGRADE_PLAN_QUERY_PATH)) h prove w =
      Err NotHandled"
    using assms by (simp add: ibc_query_field ibc_query_def path_to_from_string)
  show "md_query (gov_module ops i u g ienv uenv genv) d (Some (path_from_string UPGRADE_PLAN_QUERY_PATH)) h prove w =
      Err NotHandled"
    by (simp add: gov_module_def gov_query_def path_to_from_string UPGRADE_PLAN_QUERY_PATH_def)
qed

lemma plan_query_answer:
  assumes "ue_query_path uenv \<noteq> UPGRADE_PLAN_QUERY_PATH"
  shows "md_query (upgrade_module ops u ienv uenv) d (Some (path_from_string UPGRADE_PLAN_QUERY_PATH)) h prove w =
    (case ts_get (shared_ops ops u) (upgrade_plan_ty ienv uenv) Pending sdk_pending_path w of
       None \<Rightarrow> Err (Custom ''Data not found'')
     | Some plan \<Rightarrow> Ok \<lparr>qr_data = any_value (ue_plan_into uenv plan), qr_proof = None\<rparr>)"
  using assms by (simp add: upgrade_module_def upgrade_query_def path_to_from_string del: shared_ops_methods)

text \<open>
  C24. The command to query the upgrade plan, connected to a node, decodes exactly the plan that is
  pending in the store of the upgrade module. When none is pending the node answers an error
  without a value, which the client does not look at: it decodes the empty value instead, and
  panics when that fails.
\<close>

theorem plan_query_reads_plan:
  assumes paths: "me_query_path menv \<noteq> UPGRADE_PLAN_QUERY_PATH" "ue_query_path uenv \<noteq> UPGRADE_PLAN_QUERY_PATH"
    and client: "new_client rpc_addr = Some ()"
  shows "query_upgrade_plan new_client
       (node_query (in_memory_ops sha) xenv (full_app sha aenv benv ienv tenv menv uenv genv a) w) decode_plan rpc_addr =
     (case decode_plan (case ts_get (shared_ops (in_memory_ops sha) (upgrade_address a)) (upgrade_plan_ty ienv uenv)
           Pending sdk_pending_path w of
         Some plan \<Rightarrow> any_value (ue_plan_into uenv plan)
       | None \<Rightarrow> []) of
        None \<Rightarrow> Panic
      | Some plan \<Rightarrow> Ok plan)"
proof -
  let ?app = "full_app sha aenv benv ienv tenv menv uenv genv a"
  let ?request = "\<lparr>rq_data = string_bytes sdk_pending_path, rq_path = UPGRADE_PLAN_QUERY_PATH, rq_height = 0,
    rq_prove = False\<rparr>"
  let ?upgrade = "upgrade_module (in_memory_ops sha) (upgrade_address a) ienv uenv"
  note skips = plan_query_skips [OF paths(1)]
  have "query (in_memory_ops sha) xenv ?app ?request w =
      query_loop (in_memory_ops sha) xenv ?app ?request [\<lparr>mod_id = upgrade_prefix, mod_ops = ?upgrade\<rparr>] w"
    unfolding query_def full_modules full_rest_def
    by (simp only: query_skip identified_module.simps request_query.simps runner_queries(1) skips)
  then show ?thesis
    by (simp add: query_upgrade_plan_def client node_query_def query_response_def query_error_def Let_def
        plan_query_answer [OF paths(2)] del: shared_ops_methods split: option.split)
qed


section \<open>The modules of a built application\<close>

text \<open>On the application that the runner builds the helpers find exactly the modules they are for,
  and panic only when the downcast fails.\<close>

lemma helpers_find_modules:
  "helper_ibc downcast (full_app sha aenv benv ienv tenv menv uenv genv a) =
     (case downcast (ibc_module sha (ibc_address a) (bank_address a) ienv benv tenv menv) of None \<Rightarrow> Panic | Some m \<Rightarrow> Ok m)"
  "helper_bank downcast (full_app sha aenv benv ienv tenv menv uenv genv a) =
     (case downcast (runner_bank sha aenv benv a) of None \<Rightarrow> Panic | Some m \<Rightarrow> Ok m)"
  using full_prefixes_distinct
  by (auto simp: helper_ibc_def helper_bank_def helper_module_def full_modules full_rest_def)


section \<open>An instance\<close>

text \<open>Keys are strings, an encoded transaction is its public key, and Alice's transactions hold the
  proposal to recover a client.\<close>

definition demo_kenv :: "(string, nat, unit, unit, unit, 32 word) key_env" where
  "demo_kenv = \<lparr>ke_read_file = (\<lambda>_. Ok []),
     ke_parse_key_file = (\<lambda>_. Ok \<lparr>kf_name = [], kf_type = [], kf_address = ''alice'', kf_pubkey = [], kf_mnemonic = []\<rparr>),
     ke_bech32 = (\<lambda>s. Ok ([], string_bytes s)), ke_debug = id, ke_mnemonic = (\<lambda>_. Ok ()), ke_seed = (\<lambda>_ _. []),
     ke_new_master = (\<lambda>_. Ok ()), ke_hardened = Some, ke_normal = Some, ke_derive = (\<lambda>_ _. Ok ()),
     ke_from_priv = (\<lambda>_. ''alice''), ke_private_key = (\<lambda>_. 5), ke_sha256 = id, ke_from_digest = (\<lambda>_. Some ()),
     ke_sign_ecdsa = (\<lambda>_ n. [of_nat n]), ke_serialize = string_bytes\<rparr>"

text \<open>A transaction is encoded as blocks of the memo, the public key, the sequence number and the gas
  limit, and the signature.\<close>

definition block :: "bytes \<Rightarrow> bytes" where
  "block bs = replicate (length bs) 1 @ 0 # bs"

definition take_block :: "bytes \<Rightarrow> bytes \<times> bytes" where
  "take_block bs = (let n = length (takeWhile ((=) 1) bs) in (take n (drop (n + 1) bs), drop n (drop (n + 1) bs)))"

lemma take_block: "take_block (block bs @ rest) = (bs, rest)"
proof -
  have "length (takeWhile ((=) 1) (block bs @ rest)) = length bs" by (simp add: block_def takeWhile_append)
  then show ?thesis by (simp add: take_block_def block_def)
qed

definition demo_tc :: tx_codec where
  "demo_tc = \<lparr>tc_bytes_value = id,
     tc_auth_info = (\<lambda>a. case (ai_signer_infos a, ai_fee a) of
         ([s], Some fee) \<Rightarrow> block (case rs_public_key s of Some k \<Rightarrow> any_value k | None \<Rightarrow> []) @
           block (replicate (unat (rs_sequence s)) 0) @ block (replicate (unat (fee_gas_limit fee)) 0)
       | _ \<Rightarrow> []),
     tc_tx_body = (\<lambda>b. block (string_bytes (tb_memo b))), tc_sign_doc = sd_body_bytes,
     tc_tx_raw = (\<lambda>r. tr_body_bytes r @ tr_auth_info_bytes r @ concat (tr_signatures r))\<rparr>"

definition demo_cenv :: "string cli_env" where
  "demo_cenv = \<lparr>ce_hd_path = (\<lambda>_. Some \<lparr>hd_purpose = 44, hd_coin_type = 118, hd_account = 0, hd_change = 0, hd_index = 0\<rparr>),
     ce_client_id = Some, ce_recover_any = (\<lambda>subject substitute who. \<lparr>type_url = ''recover'',
       any_value = string_bytes (subject @ substitute @ who)\<rparr>),
     ce_submit_any = (\<lambda>_. \<lparr>type_url = MSG_TYPE_URL, any_value = [1]\<rparr>), ce_chain_id = Some,
     ce_alphabetic = (\<lambda>c. c \<noteq> [] \<and> hd c \<in> set ''abcdefghijklmnopqrstuvwxyz''), ce_parse_u256 = (\<lambda>_. Ok 16384),
     ce_grpc_uri = Some, ce_connect = (\<lambda>_. Ok ()), ce_account = (\<lambda>_. Ok (Some \<lparr>type_url = [], any_value = []\<rparr>)),
     ce_decode_account = (\<lambda>_. Ok \<lparr>ba_address = ''alice'', ba_pub_key = None, ba_account_number = 0, ba_sequence = 0\<rparr>),
     ce_rpc_client = (\<lambda>_. Some ()), ce_broadcast = (\<lambda>_. Ok ())\<rparr>"

definition demo_cmd :: tx_cmd where
  "demo_cmd = \<lparr>cm_subject_client_id = ''a'', cm_substitute_client_id = ''b'', cm_chain_id = ''basecoin-0'',
     cm_fee = ''4000basecoin'', cm_gas = 400000, cm_memo = [], cm_derivation_path = [], cm_seed_file = []\<rparr>"

definition demo_recover_proposal :: msg_submit_proposal where
  "demo_recover_proposal = recover_proposal demo_cenv ''a'' ''b'' ''alice''"

definition demo_recover_genv where
  "demo_recover_genv = demo_genv\<lparr>ge_from_radix_10 := \<lambda>_. Ok 0,
     ge_decode_msg := \<lambda>_. Ok (msg_into_raw demo_recover_proposal), ge_decode_recover := \<lambda>_. Some ()\<rparr>"

definition demo_client_env :: "(string, string, unit, u64 header, u64 header, string list) app_env" where
  "demo_client_env = demo_tx_env\<lparr>ap_decode_tx := \<lambda>bs.
     (case take_block bs of (memo, bs) \<Rightarrow> case take_block bs of (key, bs) \<Rightarrow> case take_block bs of (n, bs) \<Rightarrow>
      case take_block bs of (gas, signature) \<Rightarrow> Ok
     \<lparr>tx_signer_infos = [\<lparr>si_public_key = Some (Single (bytes_string key)), si_sequence = word_of_nat (length n)\<rparr>],
      tx_messages = [\<lparr>type_url = MSG_TYPE_URL, any_value = [1]\<rparr>], tx_memo = bytes_string memo, tx_timeout_height = 0,
      tx_fee = Some \<lparr>tf_amount = [], tf_gas_limit = word_of_nat (length gas)\<rparr>, tx_signatures = [signature]\<rparr>)\<rparr>"

definition demo_key_of :: "any \<Rightarrow> string signer_public_key" where
  "demo_key_of k = Single (bytes_string (any_value k))"

definition demo_fee_of :: "fee \<Rightarrow> tx_fee" where
  "demo_fee_of fee = \<lparr>tf_amount = [], tf_gas_limit = fee_gas_limit fee\<rparr>"

lemma demo_reads_back:
  "reads_back demo_tc demo_client_env demo_key_of demo_fee_of (client_body [\<lparr>type_url = MSG_TYPE_URL, any_value = [1]\<rparr>] memo)
     (client_auth demo_kenv demo_tc key sequence fee)"
  by (simp add: reads_back_def client_body_def client_auth_def demo_tc_def demo_client_env_def demo_key_of_def
      demo_fee_of_def take_block)

theorem signature_ignored_witness:
  "\<exists>request request'.
     sign_tx demo_kenv demo_tc (key_pair_new ''alice'' 5 ''alice'' []) ''basecoin-0''
       \<lparr>ba_address = ''alice'', ba_pub_key = None, ba_account_number = 0, ba_sequence = 3\<rparr>
       [\<lparr>type_url = MSG_TYPE_URL, any_value = [1]\<rparr>]
       \<lparr>fee_amount = [], fee_gas_limit = 1, fee_payer = [], fee_granter = []\<rparr> ''memo'' =
         (Ok request :: ((unit, unit) app_error, bytes) outcome) \<and>
     sign_tx demo_kenv demo_tc (key_pair_new ''alice'' 6 ''mallory'' []) ''other-chain''
       \<lparr>ba_address = ''alice'', ba_pub_key = None, ba_account_number = 0, ba_sequence = 0\<rparr>
       [\<lparr>type_url = MSG_TYPE_URL, any_value = [1]\<rparr>]
       \<lparr>fee_amount = [], fee_gas_limit = 0, fee_payer = [], fee_granter = []\<rparr> [] =
         (Ok request' :: ((unit, unit) app_error, bytes) outcome) \<and>
     deliver_tx (in_memory_ops id) demo_client_env demo_full_app request' demo_gworld =
       deliver_tx (in_memory_ops id) demo_client_env demo_full_app request demo_gworld"
proof -
  let ?sign = "\<lambda>key chain_id n gas memo. sign_tx demo_kenv demo_tc key chain_id
      \<lparr>ba_address = ''alice'', ba_pub_key = None, ba_account_number = 0, ba_sequence = n\<rparr>
      [\<lparr>type_url = MSG_TYPE_URL, any_value = [1]\<rparr>]
      \<lparr>fee_amount = [], fee_gas_limit = gas, fee_payer = [], fee_granter = []\<rparr> memo
      :: ((unit, unit) app_error, bytes) outcome"
  have signs: "\<exists>request. ?sign key chain_id n gas memo = Ok request" for key chain_id n gas memo
    by (simp add: sign_tx_def encode_key_bytes_def encode_signer_info_def encode_auth_info_def encode_tx_body_def
        encode_sign_doc_def encode_tx_def kp_sign_def Let_def demo_kenv_def)
  obtain request where r: "?sign (key_pair_new ''alice'' 5 ''alice'' []) ''basecoin-0'' 3 1 ''memo'' = Ok request"
    using signs by blast
  obtain request' where r': "?sign (key_pair_new ''alice'' 6 ''mallory'' []) ''other-chain'' 0 0 [] = Ok request'"
    using signs by blast
  show ?thesis
    using r r' signature_ignored [OF r r' _ demo_reads_back demo_reads_back, of "in_memory_ops id" demo_full_app demo_gworld]
    by (auto simp: key_pair_new_def)
qed

theorem recover_command_executed_witness:
  "\<exists>request w resp w'. tx_command demo_kenv demo_tc demo_cenv [] ''localhost'' 9093 demo_cmd = Ok (Broadcast request) \<and>
     set_account (auth_store id 0) auth_test_env (auth_account_new ''alice'') demo_gworld = (Ok (), w) \<and>
     deliver_tx (in_memory_ops id) demo_client_env (full_app id auth_test_env demo_benv demo_gienv demo_tenv demo_menv
       demo_uenv demo_recover_genv 0) request w = (Ok resp, w') \<and> rd_code resp = 0"
proof -
  obtain w where w: "set_account (auth_store id 0) auth_test_env (auth_account_new ''alice'') demo_gworld = (Ok (), w)"
    "heap_ok id w" "accounts_keyed (auth_store id 0) auth_test_env w"
    "get_account (auth_store id 0) auth_test_env ''alice'' w = Ok (auth_account_new ''alice'')"
    by (rule demo_account) blast
  let ?key = "key_pair_new ''alice'' 5 ''alice'' (string_bytes ''alice'') :: (string, nat) key_pair"
  have key: "ce_hd_path demo_cenv (cm_derivation_path demo_cmd) =
      Some \<lparr>hd_purpose = 44, hd_coin_type = 118, hd_account = 0, hd_change = 0, hd_index = 0\<rparr>"
    "(from_seed_file demo_kenv (cm_seed_file demo_cmd)
       \<lparr>hd_purpose = 44, hd_coin_type = 118, hd_account = 0, hd_change = 0, hd_index = 0\<rparr>
       :: ((unit, unit) app_error, (string, nat) key_pair) outcome) = Ok ?key"
    by (simp_all add: demo_cenv_def from_seed_file_def decode_bech32_def private_key_from_mnemonic_def
        standard_path_to_derivation_path_def demo_kenv_def)
  have ids: "ce_client_id demo_cenv (cm_subject_client_id demo_cmd) = Some ''a''"
    "ce_client_id demo_cenv (cm_substitute_client_id demo_cmd) = Some ''b''"
    by (simp_all add: demo_cenv_def demo_cmd_def)
  have proposal: "demo_recover_proposal = recover_proposal demo_cenv ''a'' ''b'' (kp_account ?key)"
    by (simp add: demo_recover_proposal_def key_pair_new_def)
  have "coin_from_str (ce_alphabetic demo_cenv) (ce_parse_u256 demo_cenv) (cm_fee demo_cmd) =
      (Ok \<lparr>coin_denom = ''asecoin'', coin_amount = 16384\<rparr> :: ((unit, unit) app_error, coin) outcome)"
    by (simp add: demo_cenv_def demo_cmd_def coin_from_str_def continuation_def)
  then have "\<exists>request. tx_command demo_kenv demo_tc demo_cenv [] ''localhost'' 9093 demo_cmd = Ok (Broadcast request)"
    by (simp add: tx_command_def key ids)
      (simp add: demo_cenv_def query_account_def send_tx_def sign_tx_def encode_key_bytes_def encode_signer_info_def
        encode_auth_info_def encode_tx_body_def encode_sign_doc_def encode_tx_def kp_sign_def Let_def demo_kenv_def)
  then obtain request where cmd: "tx_command demo_kenv demo_tc demo_cenv [] ''localhost'' 9093 demo_cmd = Ok (Broadcast request)"
    by blast
  have msg: "\<lparr>type_url = MSG_TYPE_URL, any_value = [1]\<rparr> = ce_submit_any demo_cenv (msg_into_raw demo_recover_proposal)"
    by (simp add: demo_cenv_def)
  have run: "(deliver_recover_client (ibc_store id (ibc_address 0)) demo_gienv demo_recover_genv demo_recover_proposal v
      :: ((string, unit) app_error, u64 list) outcome \<times> _) = (Ok [], v)" for v
    by (simp add: deliver_recover_client_def demo_recover_genv_def demo_genv_def)
  have signer: "demo_key_of \<lparr>type_url = PUB_KEY_URL,
        any_value = tc_bytes_value demo_tc (ke_serialize demo_kenv (kp_public_key ?key))\<rparr> = Single ''alice''"
    "ap_account_id demo_client_env ''alice'' ACCOUNT_PREFIX = Some ''alice''"
    by (simp_all add: demo_client_env_def demo_tx_env_def demo_key_of_def demo_tc_def demo_kenv_def key_pair_new_def
        del: string_bytes_simps)
  have gov: "type_url \<lparr>type_url = MSG_TYPE_URL, any_value = [1]\<rparr> = MSG_TYPE_URL"
    "ge_decode_msg demo_recover_genv (any_value \<lparr>type_url = MSG_TYPE_URL, any_value = [1]\<rparr>) =
       Ok (msg_into_raw demo_recover_proposal)"
    "ge_from_radix_10 demo_recover_genv (dec_string 0) = Ok 0"
    "type_url (ms_content demo_recover_proposal) = ge_recover_url demo_recover_genv"
    "ge_recover_url demo_recover_genv \<noteq> ge_upgrade_url demo_recover_genv"
    by (simp_all add: demo_recover_genv_def demo_genv_def demo_recover_proposal_def recover_proposal_def demo_cenv_def)
  have other: "me_envelope demo_menv \<lparr>type_url = MSG_TYPE_URL, any_value = [1]\<rparr> = None"
    "me_transfer demo_menv \<lparr>type_url = MSG_TYPE_URL, any_value = [1]\<rparr> = None"
    by (simp_all add: demo_menv_def MSG_TYPE_URL_def)
  have "\<exists>resp w'. deliver_tx (in_memory_ops id) demo_client_env (full_app id auth_test_env demo_benv demo_gienv demo_tenv demo_menv
       demo_uenv demo_recover_genv 0) request w = (Ok resp, w') \<and> rd_code resp = 0"
    using recover_command_executed [OF cmd key ids proposal msg demo_reads_back signer gov other auth_test_env_ok w(2-4),
        of demo_benv demo_gienv demo_tenv demo_uenv]
    by (simp only: run prod.case outcome.case) blast
  then show ?thesis using cmd w(1) by blast
qed

text \<open>No plan is pending in the initial state.\<close>

theorem plan_query_reads_plan_witness:
  "query_upgrade_plan (\<lambda>_. Some ()) (node_query (in_memory_ops id) demo_tx_env demo_full_app demo_gworld)
     (\<lambda>bs. if bs = [] then None else Some bs) [] = (Panic :: ((unit, unit) app_error, bytes) outcome)"
proof -
  have "ts_get (shared_ops (in_memory_ops id) (upgrade_address 0)) (upgrade_plan_ty demo_gienv demo_uenv) Pending
      sdk_pending_path demo_gworld = None"
    by (simp add: ts_get_def read_access_def im_get_def im_get_state_def demo_gworld_def im_default_def avl.look_emp)
  then show ?thesis
    by (subst plan_query_reads_plan) (simp_all add: demo_menv_def demo_uenv_def UPGRADE_PLAN_QUERY_PATH_def)
qed

end
