(* ===== verification/Services.thy ===== *)
theory Services
  imports Full_Safety
begin

text \<open>
  The gRPC services of the application and of the modules without one of their own state:
  \<open>app/src/service.rs\<close> and the \<open>service.rs\<close> of staking, auth, bank, upgrade and governance. A
  request is a constructor named after its method; what a method does not read of it is left
  out. \<open>unimplemented!()\<close> is a panic, which ends the request and not the node.
\<close>

datatype status_code = InvalidArgument | NotFound | Internal

record grpc_status =
  gs_code :: status_code
  gs_message :: string


section \<open>The health service of the application\<close>

datatype health_request =
    AbciQuery
  | GetNodeInfo
  | GetSyncing
  | GetLatestBlock
  | GetBlockByHeight
  | GetLatestValidatorSet
  | GetValidatorSetByHeight

record version_module =
  vm_path :: string
  vm_version :: string
  vm_sum :: string

record version_info =
  vi_name :: string
  vi_app_name :: string
  vi_version :: string
  vi_git_commit :: string
  vi_build_deps :: "version_module list"

datatype health_response = NodeInfo version_info | Syncing bool

definition node_version_info :: version_info where
  "node_version_info = \<lparr>vi_name = ''basecoin-rs'', vi_app_name = ''basecoind'', vi_version = ''0.1.0'',
     vi_git_commit = ''44bae428392201d541cc2811de4369ea664c5762'',
     vi_build_deps = [
       \<lparr>vm_path = ''github.com/cometbft/cometbft'', vm_version = ''v0.37.1'',
        vm_sum = ''h1:KLxkQTK2hICXYq21U2hn1W5hOVYUdQgDQ1uB+90xPIg=''\<rparr>,
       \<lparr>vm_path = ''github.com/cosmos/cosmos-sdk'', vm_version = ''v0.47.0'',
        vm_sum = ''h1:GKYtBpvjwuDEVix1vdnQpq7PuEOnItuEK0vdAL2cZ5g=''\<rparr>]\<rparr>"

fun health_service :: "health_request \<Rightarrow> (grpc_status, health_response) outcome" where
  "health_service AbciQuery = Panic"
| "health_service GetNodeInfo = Ok (NodeInfo node_version_info)"
| "health_service GetSyncing = Ok (Syncing False)"
| "health_service GetLatestBlock = Panic"
| "health_service GetBlockByHeight = Panic"
| "health_service GetLatestValidatorSet = Panic"
| "health_service GetValidatorSetByHeight = Panic"


section \<open>The transaction service of the application\<close>

datatype tx_request =
    Simulate bytes
  | GetTx
  | BroadcastTx
  | GetTxsEvent
  | GetBlockWithTxs
  | TxDecode
  | TxEncode
  | TxEncodeAmino
  | TxDecodeAmino

text \<open>The answer to a simulation has neither gas nor a result.\<close>

record simulate_response =
  sim_gas_info :: "u64 option"
  sim_result :: "bytes option"

fun tx_service ::
  "('id, 'pk, 'ie, 'rh, 'h, 'j) app_env \<Rightarrow> tx_request \<Rightarrow> (grpc_status, simulate_response) outcome" where
  "tx_service env (Simulate tx_bytes) = (case ap_decode_tx env tx_bytes of
     Ok tx \<Rightarrow> Ok \<lparr>sim_gas_info = None, sim_result = None\<rparr>
   | Err e \<Rightarrow> Err \<lparr>gs_code = InvalidArgument, gs_message = ''failed to deserialize tx''\<rparr>
   | Panic \<Rightarrow> Panic
   | Diverge \<Rightarrow> Diverge)"
| "tx_service env GetTx = Panic"
| "tx_service env BroadcastTx = Panic"
| "tx_service env GetTxsEvent = Panic"
| "tx_service env GetBlockWithTxs = Panic"
| "tx_service env TxDecode = Panic"
| "tx_service env TxEncode = Panic"
| "tx_service env TxEncodeAmino = Panic"
| "tx_service env TxDecodeAmino = Panic"


section \<open>The services of the modules\<close>

datatype staking_request =
    Validators
  | Validator
  | ValidatorDelegations
  | ValidatorUnbondingDelegations
  | Delegation
  | UnbondingDelegation
  | DelegatorDelegations
  | DelegatorUnbondingDelegations
  | Redelegations
  | DelegatorValidators
  | DelegatorValidator
  | HistoricalInfo
  | Pool
  | StakingParams

text \<open>The fields of the parameters that are not the default: an unbonding time of three weeks in
  seconds and nanoseconds, and the number of historical entries.\<close>

record staking_params =
  sp_unbonding_seconds :: int
  sp_unbonding_nanos :: int
  sp_historical_entries :: "32 word"

fun staking_service :: "staking_request \<Rightarrow> (grpc_status, staking_params) outcome" where
  "staking_service StakingParams = Ok \<lparr>sp_unbonding_seconds = 3 * 7 * 24 * 60 * 60, sp_unbonding_nanos = 0,
     sp_historical_entries = 1\<rparr>"
| "staking_service _ = Panic"

datatype auth_request =
    Accounts
  | Account string
  | AccountInfo
  | AuthParams
  | AccountAddressById
  | ModuleAccounts
  | ModuleAccountByName
  | Bech32Prefix
  | AddressBytesToString
  | AddressStringToBytes

fun auth_service ::
  "('w, 'e, 'z) store_ops_scheme \<Rightarrow> ('id, 'j) auth_env \<Rightarrow> auth_request \<Rightarrow> 'w \<Rightarrow> (unit, any) outcome" where
  "auth_service ops env (Account address) w = auth_service_account ops env w"
| "auth_service ops env _ w = Panic"

datatype bank_request =
    Balance string string
  | AllBalances
  | SpendableBalances
  | TotalSupply
  | SupplyOf
  | BankParams
  | DenomMetadata
  | DenomsMetadata
  | DenomOwners
  | SendEnabled
  | SpendableBalanceByDenom

text \<open>\<open>parse_error\<close> is the text of the parser of account ids.\<close>

fun bank_service ::
  "('w, 'e, 'z) store_ops_scheme \<Rightarrow> ('id, 'raw, 'e, 'j) bank_env \<Rightarrow> (string \<Rightarrow> string) \<Rightarrow> bank_request \<Rightarrow> 'w \<Rightarrow>
   (grpc_status, raw_coin option) outcome" where
  "bank_service ops env parse_error (Balance address denom) w =
     (case bank_service_balance ops env address denom w of
        None \<Rightarrow> Err \<lparr>gs_code = InvalidArgument, gs_message = parse_error address\<rparr>
      | Some balance \<Rightarrow> Ok balance)"
| "bank_service ops env parse_error _ w = Panic"

datatype upgrade_request =
    CurrentPlan
  | AppliedPlan
  | Authority
  | UpgradedConsensusState "64 word"
  | ModuleVersions

text \<open>The method builds its \<open>Status\<close> values with these constructors.\<close>

fun upgrade_status :: "status \<Rightarrow> grpc_status" where
  "upgrade_status (status.InvalidArgument text) = \<lparr>gs_code = InvalidArgument, gs_message = text\<rparr>"
| "upgrade_status (StatusNotFound text) = \<lparr>gs_code = NotFound, gs_message = text\<rparr>"

fun upgrade_service ::
  "('w, 'e, 'z) store_ops_scheme \<Rightarrow> ('tcs, 'tcons, 'conn, 'chan, 'ts, 'e) ibc_env \<Rightarrow> upgrade_request \<Rightarrow> 'w \<Rightarrow>
   (grpc_status, bytes) outcome" where
  "upgrade_service ops env (UpgradedConsensusState last_height) w =
     map_err upgrade_status (service_upgraded_consensus_state ops env last_height w)"
| "upgrade_service ops env _ w = Panic"

datatype gov_request = Proposal | Proposals | Vote | Votes | GovParams | Deposit | Deposits | TallyResult

fun gov_service :: "gov_request \<Rightarrow> (grpc_status, unit) outcome" where
  "gov_service _ = Panic"


section \<open>What the answers mean\<close>

text \<open>
  Simulating a transaction only decodes it: it succeeds exactly for the transactions that
  \<open>deliver_tx\<close> does not answer with code 1, also for those that fail in every state.
\<close>

theorem simulate_only_decodes:
  assumes "deliver_tx ops env app request w = (Ok resp, w')"
  shows "is_ok (tx_service env (Simulate request)) \<longleftrightarrow> rd_code resp \<noteq> 1"
  using assms
  by (auto simp: deliver_tx_def deliver_tx_error_def and_then_Ok expect_def split: outcome.splits sum.splits if_splits prod.splits)

text \<open>The account that the auth service answers does not depend on the account asked for: it is the
  one of the relayer address fixed in the code.\<close>

lemma account_request_ignored:
  "auth_service ops env (Account address) w = auth_service ops env (Account address') w"
  by simp

theorem simulate_only_decodes_witness:
  "\<exists>resp w'. deliver_tx (in_memory_ops id) demo_tx_env demo_full_app [] demo_gworld = (Ok resp, w') \<and>
     is_ok (tx_service demo_tx_env (Simulate [])) \<and> rd_code resp \<noteq> 1"
proof -
  obtain resp where d: "deliver_tx (in_memory_ops id) demo_tx_env demo_full_app [] demo_gworld = (Ok resp, demo_gworld)"
    and "rd_code resp = 2"
    by (simp add: deliver_tx_def demo_tx_simps deliver_tx_error_def)
  then show ?thesis using simulate_only_decodes [OF d] by (intro exI [of _ resp]) auto
qed

end
