(* ===== verification/Spec2Isabelle.thy ===== *)
theory Spec2Isabelle
  imports Store_Tests Wrappers Ibc_Queries Ibc_Counters Genesis Full_Safety Abci Abci38 Client_Laws Services
begin

text \<open>
  Verification of basecoin-rs, a Tendermint application with token accounts, the inter-blockchain
  communication protocol (IBC), chain upgrades and governance. All sources are below
  \<open>src/basecoin\<close>.

  \<^bold>\<open>The program.\<close> CometBFT drives the application by ABCI requests. The service (\<open>app/src/abci\<close>)
  hands each request to a method of the application, which keeps a list of modules and one main
  store. A transaction is decoded, and each of its messages is offered to the modules in their
  order until one takes it; when all messages succeed the changes of every module store are
  accepted (\<open>apply\<close>), otherwise they are dropped (\<open>reset\<close>). At the end of a block every module
  store is committed and its root hash put into the main store under the name of the module;
  the root hash of the main store is the application hash that the other nodes agree on. A
  store (\<open>store/src\<close>) is an AVL Merkle tree per block, from which a query is answered with
  ICS23 proofs. The modules (\<open>modules/src\<close>) share the world by handles: governance writes the
  stores of the upgrade and the IBC module, the IBC module writes those of the bank, and the
  handlers of \<open>ibc-rs\<close> call back into the contexts that the IBC module implements.

  \<^bold>\<open>How code becomes definitions.\<close> A Rust trait is a record of its methods, a type that implements
  it a value of the record, so generic code takes the record as an argument. Effects are
  explicit: a method that mutates takes the state last and returns its outcome with the new
  state. \<open>outcome\<close> has the constructors \<open>Ok\<close> and \<open>Err\<close> of \<open>Result\<close> and two more, \<open>Panic\<close> for
  every \<open>unwrap\<close>, \<open>expect\<close>, \<open>unimplemented!()\<close> and index out of range, and \<open>Diverge\<close> for a call that
  never returns. The shared, locked stores are addresses of a heap (\<open>heap\<close>, with the state that
  modules keep beside their stores as record extensions). Integers have their width
  (\<open>8 word\<close>, \<open>32 word\<close>, \<open>64 word\<close>, \<open>256 word\<close>); strings are the bytes of their UTF-8 encoding. The
  definitions that model code are executable.

  Third-party crates are parameters, collected in one record per component (\<open>bank_env\<close>, \<open>auth_env\<close>,
  \<open>ibc_env\<close>, \<open>ibc_module_env\<close>, \<open>transfer_env\<close>, \<open>upgrade_env\<close>, \<open>gov_env\<close>, \<open>app_env\<close>, \<open>service_env\<close>, \<open>key_env\<close>,
  \<open>tx_codec\<close>, \<open>cli_env\<close>) and the digest \<open>sha\<close>. What the proofs need of them are named hypotheses:
  that decoding inverts encoding and printed identifiers are distinct and well-formed
  (\<open>codec_ok\<close>, \<open>bank_env_ok\<close>, \<open>auth_env_ok\<close>, \<open>ibc_env_ok\<close>, \<open>upgrade_env_ok\<close>, \<open>reads_back\<close>). No property of
  the digest is assumed: the theorems say which root a proof leads to, and a second value with
  the same root is a collision of \<open>sha\<close>. A handler of \<open>ibc-rs\<close> is generic over the contexts, so
  it is a \<open>prog\<close>, any tree of reads and calls of their methods. Every property with hypotheses has
  an instance where they hold, in the theorem of the same name with the ending \<open>_witness\<close>.

  \<^bold>\<open>The store.\<close>
  \<^item> \<open>Avl_Node\<close> (\<open>avl/node.rs\<close>, rotations of \<open>avl/tree.rs\<close>), \<open>Avl_Tree\<close> (\<open>avl/tree.rs\<close>): the tree with its
    stored heights and hashes. No operation panics; every history agrees with a map (interface
    \<open>merkle_map\<close>). Heights are natural numbers where the code has \<open>u32\<close>. \<open>Avl_Balance\<close>: insertion
    keeps the tree balanced, removal does not, and the 32-bit arithmetic on heights is exact at every
    node of a tree of at most \<open>2 ^ 31\<close> entries. \<open>Store_Tests\<close> (\<open>avl/tests.rs\<close> and the tests of the
    store): the unit tests as lemmas, those that shuffle their keys for every order, and the bound on
    the height of every tree that insertions build.
  \<^item> \<open>Avl_Proof\<close> (\<open>avl/proof.rs\<close>): existence proofs lead to the root hash, absence proofs to both
    neighbours.
  \<^item> \<open>Path\<close> (\<open>types/identifier.rs\<close>, \<open>types/path.rs\<close>), \<open>Store\<close> (\<open>context.rs\<close>, \<open>types/store.rs\<close>, \<open>utils/codec.rs\<close>):
    keys, the store traits and typed stores. The interfaces \<open>kv_store\<close>, \<open>exact_kv_store\<close>,
    \<open>chain_store\<close> and \<open>pruning_store\<close> state what a store promises against \<open>chain\<close>, an abstract store
    with a pending and an accepted map and one map per block.
  \<^item> \<open>In_Memory\<close> (\<open>impls/in_memory.rs\<close>): the refinement of \<open>chain\<close> at every height, and that a
    committed root authenticates every later read. \<open>Wrappers\<close> (\<open>impls/growing.rs\<close>,
    \<open>impls/revertible.rs\<close>, \<open>impls/shared.rs\<close>): which of the interfaces each wrapper satisfies.

  \<^bold>\<open>The modules.\<close>
  \<^item> \<open>Modules\<close> (\<open>context.rs\<close>, \<open>error.rs\<close>), \<open>Auth\<close> (\<open>auth\<close>), \<open>Bank\<close> (\<open>bank\<close>): sequence numbers; transfers
    that are covered move exactly their amounts and keep the supply, except to oneself.
  \<^item> \<open>Ibc_Host\<close> (\<open>ibc/impls.rs\<close>, \<open>ibc/client_contexts.rs\<close>): every method of the host contexts. \<open>Ibc_Steps\<close>
    refines them to an abstract host, a map from ICS 24 paths that changes one path at a time,
    with counters that are only incremented and receipts that are only ever set. \<open>Ibc_Queries\<close> are
    the listings of keys.
  \<^item> \<open>Ibc_Transfer\<close>, \<open>Ibc_Calls\<close> (\<open>ibc/transfer.rs\<close>, \<open>ibc/router.rs\<close>), \<open>Ibc_Module\<close> (\<open>ibc/impls.rs\<close>): escrow,
    the callbacks and the module. \<open>Ibc_Laws\<close> lifts what single writes keep to all programs of
    calls (interfaces \<open>writer\<close>, \<open>ibc_writer\<close>, \<open>caller\<close>). \<open>Ibc_Counters\<close>: after any handler the
    counters of clients, connections and channels have counted exactly the calls that increase them.
  \<^item> \<open>Upgrade\<close>, \<open>Upgrade_Laws\<close> (\<open>upgrade\<close>), \<open>Gov\<close>, \<open>Gov_Laws\<close> (\<open>gov\<close>): scheduling refines a specification on
    the plan and the upgraded states; which plans fire and when; proposals.

  \<^bold>\<open>The application.\<close>
  \<^item> \<open>App\<close> (\<open>app/src/builder.rs\<close>, \<open>abci/v0_37/impls.rs\<close>): the builder and the ABCI methods. \<open>Confined\<close> and
    \<open>App_Safety\<close>: transactions are atomic over all stores and the application hash covers every
    module, for applications whose modules only touch the pending trees of their stores
    (interface \<open>confined_app\<close>).
  \<^item> \<open>Runner\<close>, \<open>Full_App\<close> (\<open>src/runner.rs\<close>): the application with its five modules, which satisfies
    \<open>confined_app\<close>. \<open>Ledger\<close>: over any blocks of transfers the application refines an abstract
    ledger of sequence numbers and balances, and every coin is accounted for. \<open>Genesis\<close>: the same for
    the ABCI service, from the application as built and the genesis state on, for transfers, blocks
    and commits in any order once the genesis state is committed. \<open>Chain\<close>: the relation \<open>abci_step\<close>
    of the state-changing calls, and what the IBC host never loses along any run (interface
    \<open>kept_app\<close>). \<open>Chain_Queries\<close>: proofs of queries at any committed height. \<open>Full_Safety\<close>: panics
    and the state that is not rolled back.
  \<^item> \<open>Abci\<close> (\<open>abci/v0_37/tower_abci.rs\<close>): the service, and how its answers to \<open>info\<close> follow the
    commits; \<open>serve\<close> is the driver of \<open>tower_abci\<close>, one request after the other. \<open>Abci38\<close>
    (\<open>abci/v0_38/tendermint.rs\<close>): agreement of the two versions. \<open>Services\<close> (\<open>app/src/service.rs\<close> and
    the services of the modules).
  \<^item> \<open>Client\<close>, \<open>Client_Laws\<close> (\<open>src/tx\<close>, \<open>src/bin/basecoin.rs\<close>, \<open>src/config.rs\<close>, \<open>src/helper.rs\<close>,
    \<open>modules/src/upgrade/query.rs\<close>): keys, signing, the main program and its two client commands,
    composed with the node.

  \<^bold>\<open>Bounds and termination.\<close> There is no fuel. Recursion over trees, lists and messages is
  structural; the loop of \<open>RevertibleStore::reset\<close>, which may run for ever, is a partial function
  whose undefined value is \<open>Diverge\<close>. Heights and sequences are 64-bit words that wrap around as
  in a release build; theorems about the height of a block assume fewer than \<open>2 ^ 64\<close> blocks.
  Lengths of vectors (\<open>usize\<close>) are natural numbers; the saturating sum of \<open>prepare_proposal\<close> is
  written out. Iteration over a \<open>HashMap\<close> is a list in any order.

  \<^bold>\<open>Not modelled.\<close> Logging; the servers that the runner starts; the parsers of the command line
  and of the configuration file, which \<open>clap\<close> and \<open>toml\<close> derive; the gRPC services that \<open>ibc-rs\<close>
  implements on top of the query contexts. Requests are handled one after the
  other, as the service does; gRPC reads between two requests see the state in between.
  A poisoned lock needs a panic while it is held, where the modelled run has ended.
\<close>

end
